(* ===== verification/Prelude.thy ===== *)
theory Prelude
  imports Main "HOL-Library.AList" "HOL-Library.Multiset" "HOL-Library.Word"
begin

text \<open>
  Shared vocabulary of the development: the Rust integer operations the sources
  use with their saturation and truncation written out, byte strings with the
  trimming and case folding of \<^verbatim>\<open>str\<close>, and keyed maps (\<^verbatim>\<open>HashMap\<close>,
  \<^verbatim>\<open>DashMap\<close>) as association lists with distinct keys whose list order is the
  unspecified iteration order.  The map interface is the locale \<open>keyed_map\<close>; the
  sort-and-evict step that both counter stores share is \<open>evict_oldest\<close>.
\<close>

named_theorems machine_simps \<open>saturating and truncating machine arithmetic\<close>
named_theorems map_simps \<open>keyed maps: lookup after insert, delete, retain\<close>

section \<open>Machine integers\<close>

type_synonym u64 = "64 word"

definition i64_max :: int where "i64_max = 9223372036854775807"
definition i64_min :: int where "i64_min = - 9223372036854775808"
definition u32_max :: nat where "u32_max = 4294967295"

definition i64_clamp :: "int \<Rightarrow> int" where
  "i64_clamp x = max i64_min (min i64_max x)"

definition i64_sat_add :: "int \<Rightarrow> int \<Rightarrow> int" where
  "i64_sat_add a b = i64_clamp (a + b)"

definition i64_sat_sub :: "int \<Rightarrow> int \<Rightarrow> int" where
  "i64_sat_sub a b = i64_clamp (a - b)"

definition u32_sat_add :: "nat \<Rightarrow> nat \<Rightarrow> nat" where
  "u32_sat_add a b = min u32_max (a + b)"

definition u8_sat_add :: "nat \<Rightarrow> nat \<Rightarrow> nat" where
  "u8_sat_add a b = min 255 (a + b)"

definition u64_sat_mul :: "u64 \<Rightarrow> u64 \<Rightarrow> u64" where
  "u64_sat_mul a b = (if unat a * unat b < 2 ^ 64 then a * b else 18446744073709551615)"

definition u64_sat_sub :: "u64 \<Rightarrow> u64 \<Rightarrow> u64" where
  "u64_sat_sub a b = (if a < b then 0 else a - b)"

text \<open>Rust's \<open>/\<close> truncates towards zero; \<^verbatim>\<open>div_euclid\<close> leaves a non-negative remainder.\<close>

definition trunc_div :: "int \<Rightarrow> int \<Rightarrow> int" where
  "trunc_div a b = sgn a * sgn b * (\<bar>a\<bar> div \<bar>b\<bar>)"

definition div_euclid :: "int \<Rightarrow> int \<Rightarrow> int" where
  "div_euclid a b = (if 0 < b then a div b else - (a div (- b)))"

definition rem_euclid :: "int \<Rightarrow> int \<Rightarrow> int" where
  "rem_euclid a b = a mod \<bar>b\<bar>"

lemmas machine_defs [machine_simps] =
  i64_max_def i64_min_def u32_max_def i64_clamp_def i64_sat_add_def i64_sat_sub_def
  u32_sat_add_def u8_sat_add_def trunc_div_def div_euclid_def rem_euclid_def

lemma trunc_div_nonneg: "0 \<le> a \<Longrightarrow> 0 < b \<Longrightarrow> trunc_div a b = a div b"
  by (cases "a = 0") (simp_all add: trunc_div_def)

lemma max_trunc_div: "0 < b \<Longrightarrow> max (trunc_div a b) 0 = max (a div b) 0"
proof -
  assume b: "0 < b"
  show ?thesis
  proof (cases "0 \<le> a")
    case True
    then show ?thesis using b by (simp add: trunc_div_nonneg)
  next
    case False
    then have "a div b < 0" using b by (simp add: div_neg_pos_less0)
    moreover have "0 \<le> - a div b" using False b by (simp add: pos_imp_zdiv_nonneg_iff)
    ultimately show ?thesis using False b by (simp add: trunc_div_def)
  qed
qed

lemma i64_sat_add_mono: "a \<le> b \<Longrightarrow> i64_sat_add a c \<le> i64_sat_add b c"
  by (simp add: machine_simps)

lemma i64_sat_add_exact:
  "i64_min \<le> a + b \<Longrightarrow> a + b \<le> i64_max \<Longrightarrow> i64_sat_add a b = a + b"
  by (simp add: machine_simps)

lemma unat_u64_sat_mul: "unat (u64_sat_mul a b) = min (2 ^ 64 - 1) (unat a * unat b)"
proof (cases "unat a * unat b < 2 ^ 64")
  case True
  then show ?thesis by (simp add: u64_sat_mul_def unat_word_ariths)
next
  case False
  then show ?thesis by (simp add: u64_sat_mul_def unat_word_ariths)
qed

section \<open>Byte strings\<close>

text \<open>A Rust \<^verbatim>\<open>str\<close> is its UTF-8 bytes. White space is Unicode's \<open>White_Space\<close>: the
  one-, two- and three-byte sequences below.\<close>

definition byte :: "char \<Rightarrow> nat" where "byte c = of_char c"

definition ws1 :: "char \<Rightarrow> bool" where
  "ws1 a \<longleftrightarrow> (9 \<le> byte a \<and> byte a \<le> 13) \<or> byte a = 32"

definition ws2 :: "char \<Rightarrow> char \<Rightarrow> bool" where
  "ws2 a b \<longleftrightarrow> byte a = 194 \<and> (byte b = 133 \<or> byte b = 160)"

definition ws3 :: "char \<Rightarrow> char \<Rightarrow> char \<Rightarrow> bool" where
  "ws3 a b c \<longleftrightarrow>
     byte a = 225 \<and> byte b = 154 \<and> byte c = 128
   \<or> byte a = 226 \<and> byte b = 128 \<and>
       (128 \<le> byte c \<and> byte c \<le> 138 \<or> byte c = 168 \<or> byte c = 169 \<or> byte c = 175)
   \<or> byte a = 226 \<and> byte b = 129 \<and> byte c = 159
   \<or> byte a = 227 \<and> byte b = 128 \<and> byte c = 128"

fun trim_start :: "string \<Rightarrow> string" where
  "trim_start [] = []"
| "trim_start [a] = (if ws1 a then [] else [a])"
| "trim_start [a, b] = (if ws1 a then trim_start [b] else if ws2 a b then [] else [a, b])"
| "trim_start (a # b # c # s) =
     (if ws1 a then trim_start (b # c # s)
      else if ws2 a b then trim_start (c # s)
      else if ws3 a b c then trim_start s
      else a # b # c # s)"

fun trim_back :: "string \<Rightarrow> string" where
  "trim_back [] = []"
| "trim_back [a] = (if ws1 a then [] else [a])"
| "trim_back [b, a] = (if ws1 b then trim_back [a] else if ws2 a b then [] else [b, a])"
| "trim_back (c # b # a # s) =
     (if ws1 c then trim_back (b # a # s)
      else if ws2 b c then trim_back (a # s)
      else if ws3 a b c then trim_back s
      else c # b # a # s)"

definition trim_str :: "string \<Rightarrow> string" where
  "trim_str s = rev (trim_back (rev (trim_start s)))"

fun ws_at :: "string \<Rightarrow> bool" where
  "ws_at [] = False"
| "ws_at [a] = ws1 a"
| "ws_at [a, b] = (ws1 a \<or> ws2 a b)"
| "ws_at (a # b # c # s) = (ws1 a \<or> ws2 a b \<or> ws3 a b c)"

fun has_ws :: "string \<Rightarrow> bool" where
  "has_ws [] = False"
| "has_ws (a # s) = (ws_at (a # s) \<or> has_ws s)"

definition is_upper :: "char \<Rightarrow> bool" where
  "is_upper c \<longleftrightarrow> 65 \<le> byte c \<and> byte c \<le> 90"

definition lower_char :: "char \<Rightarrow> char" where
  "lower_char c = (if is_upper c then char_of (byte c + 32) else c)"

definition to_ascii_lowercase :: "string \<Rightarrow> string" where
  "to_ascii_lowercase s = map lower_char s"

lemma lower_char_not_upper [simp]: "\<not> is_upper (lower_char c)"
proof (cases "is_upper c")
  case True
  then have "byte (char_of (byte c + 32)) = byte c + 32"
    by (simp add: is_upper_def byte_def)
  then show ?thesis using True by (simp add: lower_char_def is_upper_def)
qed (simp add: lower_char_def)

lemma lower_char_id: "\<not> is_upper c \<Longrightarrow> lower_char c = c"
  by (simp add: lower_char_def)

lemma lower_idem [simp]: "to_ascii_lowercase (to_ascii_lowercase s) = to_ascii_lowercase s"
  by (simp add: to_ascii_lowercase_def lower_char_id)

lemma lower_id: "\<forall>c\<in>set s. \<not> is_upper c \<Longrightarrow> to_ascii_lowercase s = s"
  by (simp add: to_ascii_lowercase_def lower_char_id map_idI)

lemma has_ws_suffix: "ws_at q \<Longrightarrow> has_ws (p @ q)"
proof (induction p)
  case Nil
  then show ?case by (cases q) auto
qed auto

lemma trim_start_id: "\<not> has_ws s \<Longrightarrow> trim_start s = s"
  by (cases s rule: trim_start.cases) auto

lemma trim_back_id:
  assumes "\<not> has_ws s"
  shows "trim_back (rev s) = rev s"
proof (cases "rev s" rule: trim_back.cases)
  case (2 a)
  then have "s = [a]" by (metis rev_rev_ident rev_singleton_conv)
  then show ?thesis using assms by simp
next
  case (3 b a)
  then have s: "s = [a, b]" by (metis append_Cons append_Nil rev.simps rev_rev_ident)
  then show ?thesis using assms 3 by auto
next
  case (4 c b a t)
  then have s: "s = rev t @ [a, b, c]" by (metis append.assoc append_Cons append_Nil rev.simps(2) rev_rev_ident)
  then have "\<not> ws1 c" "\<not> ws2 b c" "\<not> ws3 a b c"
    using assms has_ws_suffix [of "[c]" "rev t @ [a, b]"] has_ws_suffix [of "[b, c]" "rev t @ [a]"]
      has_ws_suffix [of "[a, b, c]" "rev t"] by auto
  then show ?thesis using 4 by simp
qed auto

lemma trim_str_id: "\<not> has_ws s \<Longrightarrow> trim_str s = s"
  by (simp add: trim_str_def trim_start_id trim_back_id)

lemma ws_free_char: "\<not> has_ws s \<Longrightarrow> c \<in> set s \<Longrightarrow> \<not> ws1 c"
proof (induction s)
  case (Cons a s)
  then show ?case by (cases s rule: ws_at.cases) auto
qed simp

subsection \<open>Splitting and joining\<close>

fun join_with :: "char \<Rightarrow> string list \<Rightarrow> string" where
  "join_with c [] = []"
| "join_with c [s] = s"
| "join_with c (s # t # ss) = s @ c # join_with c (t # ss)"

fun split_on :: "char \<Rightarrow> string \<Rightarrow> string list" where
  "split_on c [] = [[]]"
| "split_on c (x # s) = (if x = c then [] # split_on c s
     else (case split_on c s of [] \<Rightarrow> [[x]] | w # ws \<Rightarrow> (x # w) # ws))"

lemma split_on_nonempty [simp]: "split_on c s \<noteq> []"
  by (induction s) (auto split: list.splits)

lemma split_on_append: "c \<notin> set s \<Longrightarrow> split_on c (s @ c # t) = s # split_on c t"
  by (induction s) auto

lemma split_on_none: "c \<notin> set s \<Longrightarrow> split_on c s = [s]"
  by (induction s) auto

lemma split_join:
  "ss \<noteq> [] \<Longrightarrow> \<forall>s\<in>set ss. c \<notin> set s \<Longrightarrow> split_on c (join_with c ss) = ss"
  by (induction c ss rule: join_with.induct) (auto simp: split_on_append split_on_none)

lemma split_join_append:
  "ss \<noteq> [] \<Longrightarrow> \<forall>s\<in>set ss. c \<notin> set s \<Longrightarrow> split_on c (join_with c ss @ c # t) = ss @ split_on c t"
  by (induction c ss rule: join_with.induct) (auto simp: split_on_append)

lemma set_join: "x \<in> set (join_with c ss) \<Longrightarrow> x = c \<or> (\<exists>s\<in>set ss. x \<in> set s)"
  by (induction c ss rule: join_with.induct) auto

text \<open>\<^verbatim>\<open>str::split_once\<close>: the text before and after the first occurrence.\<close>

definition split_once :: "char \<Rightarrow> string \<Rightarrow> (string \<times> string) option" where
  "split_once c s = (if c \<in> set s
     then Some (takeWhile (\<lambda>x. x \<noteq> c) s, tl (dropWhile (\<lambda>x. x \<noteq> c) s)) else None)"

lemma split_once_append: "c \<notin> set n \<Longrightarrow> split_once c (n @ c # v) = Some (n, v)"
proof -
  assume "c \<notin> set n"
  then have "takeWhile (\<lambda>x. x \<noteq> c) (n @ c # v) = n" "dropWhile (\<lambda>x. x \<noteq> c) (n @ c # v) = c # v"
    by (induction n) auto
  then show ?thesis by (simp add: split_once_def)
qed

lemma split_once_None: "split_once c s = None \<longleftrightarrow> c \<notin> set s"
  by (simp add: split_once_def)

section \<open>Keyed maps\<close>

type_synonym ('k, 'v) amap = "('k \<times> 'v) list"

definition am_wf :: "('k, 'v) amap \<Rightarrow> bool" where
  "am_wf m \<longleftrightarrow> distinct (map fst m)"

definition am_get :: "('k, 'v) amap \<Rightarrow> 'k \<Rightarrow> 'v option" where
  "am_get m k = map_of m k"

definition am_put :: "'k \<Rightarrow> 'v \<Rightarrow> ('k, 'v) amap \<Rightarrow> ('k, 'v) amap" where
  "am_put k v m = AList.update k v m"

definition am_del :: "'k \<Rightarrow> ('k, 'v) amap \<Rightarrow> ('k, 'v) amap" where
  "am_del k m = filter (\<lambda>e. fst e \<noteq> k) m"

definition am_retain :: "('k \<Rightarrow> 'v \<Rightarrow> bool) \<Rightarrow> ('k, 'v) amap \<Rightarrow> ('k, 'v) amap" where
  "am_retain P m = filter (\<lambda>e. P (fst e) (snd e)) m"

text \<open>The contract every map of the program is used under.\<close>

locale keyed_map =
  fixes empty :: 'm
    and get :: "'m \<Rightarrow> 'k \<Rightarrow> 'v option"
    and put :: "'k \<Rightarrow> 'v \<Rightarrow> 'm \<Rightarrow> 'm"
    and del :: "'k \<Rightarrow> 'm \<Rightarrow> 'm"
    and retain :: "('k \<Rightarrow> 'v \<Rightarrow> bool) \<Rightarrow> 'm \<Rightarrow> 'm"
    and wf :: "'m \<Rightarrow> bool"
  assumes get_empty: "get empty k = None"
    and get_put: "get (put k v m) k' = (if k' = k then Some v else get m k')"
    and get_del: "get (del k m) k' = (if k' = k then None else get m k')"
    and get_retain: "wf m \<Longrightarrow> get (retain P m) k =
          (case get m k of None \<Rightarrow> None | Some v \<Rightarrow> if P k v then Some v else None)"
    and wf_empty: "wf empty"
    and wf_put: "wf m \<Longrightarrow> wf (put k v m)"
    and wf_del: "wf m \<Longrightarrow> wf (del k m)"
    and wf_retain: "wf m \<Longrightarrow> wf (retain P m)"
begin

lemma get_put_same: "get (put k v m) k = Some v"
  by (simp add: get_put)

lemma get_put_other: "k' \<noteq> k \<Longrightarrow> get (put k v m) k' = get m k'"
  by (simp add: get_put)

lemma get_retain_iff: "wf m \<Longrightarrow> get (retain P m) k = Some v \<longleftrightarrow> get m k = Some v \<and> P k v"
  by (auto simp: get_retain split: option.splits)

lemma put_put: "get (put k v (put k w m)) = get (put k v m)"
  by (rule ext) (simp add: get_put)

lemma put_commute: "k \<noteq> k' \<Longrightarrow> get (put k v (put k' w m)) = get (put k' w (put k v m))"
  by (rule ext) (auto simp: get_put)

end

lemma map_of_filter_fst: "map_of (filter (\<lambda>e. fst e \<noteq> k) m) k' = (if k' = k then None else map_of m k')"
  by (induction m) auto

lemma map_of_filter_wf:
  "distinct (map fst m) \<Longrightarrow> map_of (filter (\<lambda>e. P (fst e) (snd e)) m) k =
     (case map_of m k of None \<Rightarrow> None | Some v \<Rightarrow> if P k v then Some v else None)"
proof (induction m)
  case (Cons e m)
  have "fst e \<notin> set (map fst m) \<Longrightarrow> map_of m (fst e) = None"
    by (metis map_of_eq_None_iff set_map)
  then show ?case using Cons by (auto split: option.splits)
qed simp

lemma distinct_fst_filter: "distinct (map fst m) \<Longrightarrow> distinct (map fst (filter P m))"
  by (induction m) auto

interpretation am: keyed_map "[]" am_get am_put am_del am_retain am_wf
proof
  show "am_get [] k = None" for k :: 'k by (simp add: am_get_def)
  show "am_get (am_put k v m) k' = (if k' = k then Some v else am_get m k')" for k k' v and m :: "('k, 'v) amap"
    by (simp add: am_get_def am_put_def update_conv)
  show "am_get (am_del k m) k' = (if k' = k then None else am_get m k')" for k k' and m :: "('k, 'v) amap"
    by (simp add: am_get_def am_del_def map_of_filter_fst)
  show "am_wf m \<Longrightarrow> am_get (am_retain P m) k =
          (case am_get m k of None \<Rightarrow> None | Some v \<Rightarrow> if P k v then Some v else None)"
    for P k and m :: "('k, 'v) amap"
    by (simp add: am_get_def am_retain_def am_wf_def map_of_filter_wf)
  show "am_wf ([] :: ('k, 'v) amap)" by (simp add: am_wf_def)
  show "am_wf m \<Longrightarrow> am_wf (am_put k v m)" for k v and m :: "('k, 'v) amap"
    by (simp add: am_wf_def am_put_def distinct_update)
  show "am_wf m \<Longrightarrow> am_wf (am_del k m)" for k and m :: "('k, 'v) amap"
    by (simp add: am_wf_def am_del_def distinct_fst_filter)
  show "am_wf m \<Longrightarrow> am_wf (am_retain P m)" for P and m :: "('k, 'v) amap"
    by (simp add: am_wf_def am_retain_def distinct_fst_filter)
qed

lemmas am_rules [map_simps] =
  am.get_empty am.get_put am.get_del am.wf_empty am.wf_put am.wf_del am.wf_retain

lemma am_get_in_set: "am_wf m \<Longrightarrow> am_get m k = Some v \<longleftrightarrow> (k, v) \<in> set m"
  by (simp add: am_get_def am_wf_def)

lemma am_put_length: "length (am_put k v m) \<le> Suc (length m)"
  unfolding am_put_def by (induction m) auto

section \<open>Evicting the oldest entries of a map\<close>

definition oldest :: "('v \<Rightarrow> int) \<Rightarrow> nat \<Rightarrow> ('k, 'v) amap \<Rightarrow> ('k \<times> int) list" where
  "oldest stamp n m = take n (sort_key snd (map (\<lambda>(k, v). (k, stamp v)) m))"

definition evict_oldest :: "('v \<Rightarrow> int) \<Rightarrow> nat \<Rightarrow> ('k, 'v) amap \<Rightarrow> ('k, 'v) amap" where
  "evict_oldest stamp n m = fold (\<lambda>(k, _). am_del k) (oldest stamp n m) m"

lemma fold_am_del: "fold (\<lambda>(k, _). am_del k) es m = filter (\<lambda>e. fst e \<notin> fst ` set es) m"
  by (induction es arbitrary: m) (auto simp: am_del_def intro: filter_cong)

lemma evict_oldest_filter:
  "evict_oldest stamp n m = filter (\<lambda>e. fst e \<notin> fst ` set (oldest stamp n m)) m"
  by (simp add: evict_oldest_def fold_am_del)

lemma oldest_keys:
  assumes "am_wf m"
  shows "distinct (map fst (oldest stamp n m))"
    and "set (oldest stamp n m) \<subseteq> (\<lambda>(k, v). (k, stamp v)) ` set m"
proof -
  let ?es = "map (\<lambda>(k, v). (k, stamp v)) m"
  have "mset (map fst (sort_key snd ?es)) = mset (map fst m)"
    by (simp add: multiset.map_comp case_prod_beta comp_def)
  then have "distinct (map fst (sort_key snd ?es))"
    using assms mset_eq_imp_distinct_iff unfolding am_wf_def by blast
  then show "distinct (map fst (oldest stamp n m))"
    by (simp add: oldest_def take_map [symmetric])
  show "set (oldest stamp n m) \<subseteq> (\<lambda>(k, v). (k, stamp v)) ` set m"
    using set_take_subset [of n "sort_key snd ?es"] by (auto simp: oldest_def)
qed

lemma evict_oldest_wf: "am_wf m \<Longrightarrow> am_wf (evict_oldest stamp n m)"
  by (simp add: evict_oldest_filter am_wf_def distinct_fst_filter)

lemma length_filter_not_in:
  assumes "distinct (map fst m)" and "distinct ks" and "set ks \<subseteq> set (map fst m)"
  shows "length (filter (\<lambda>e. fst e \<notin> set ks) m) = length m - length ks"
proof -
  have "length (filter (\<lambda>e. fst e \<notin> set ks) m) = card (set (map fst (filter (\<lambda>e. fst e \<notin> set ks) m)))"
    using assms(1) by (metis distinct_card distinct_fst_filter length_map)
  also have "set (map fst (filter (\<lambda>e. fst e \<notin> set ks) m)) = set (map fst m) - set ks" by auto
  also have "card \<dots> = card (set (map fst m)) - card (set ks)"
    using assms(3) by (simp add: card_Diff_subset)
  also have "\<dots> = length m - length ks"
    using assms(1,2) by (metis distinct_card length_map)
  finally show ?thesis .
qed

lemma evict_oldest_length:
  assumes "am_wf m"
  shows "length (evict_oldest stamp n m) = length m - min n (length m)"
proof -
  let ?ks = "map fst (oldest stamp n m)"
  have "set ?ks \<subseteq> set (map fst m)" proof
    fix k assume "k \<in> set ?ks"
    then obtain t where "(k, t) \<in> set (oldest stamp n m)" by auto
    then have "(k, t) \<in> (\<lambda>(k, v). (k, stamp v)) ` set m"
      using oldest_keys(2) [OF assms] by blast
    then show "k \<in> set (map fst m)" by force
  qed
  then have "length (filter (\<lambda>e. fst e \<notin> set ?ks) m) = length m - length ?ks"
    using assms oldest_keys(1) [OF assms] by (intro length_filter_not_in) (auto simp: am_wf_def)
  then show ?thesis by (simp add: evict_oldest_filter oldest_def min_def)
qed

lemma evict_oldest_order:
  assumes wf: "am_wf m" and keep: "(k, v) \<in> set (evict_oldest stamp n m)"
    and gone: "(k', v') \<in> set m" "(k', v') \<notin> set (evict_oldest stamp n m)"
  shows "stamp v' \<le> stamp v"
proof -
  define es where "es = sort_key snd (map (\<lambda>(k, v). (k, stamp v)) m)"
  have sorted: "sorted (map snd es)" by (simp add: es_def)
  have old: "oldest stamp n m = take n es" by (simp add: oldest_def es_def)
  have "(k, v) \<in> set m" "k \<notin> fst ` set (take n es)"
    using keep by (auto simp: evict_oldest_filter old)
  then have "(k, stamp v) \<in> set es - set (take n es)" by (force simp: es_def)
  then have new: "(k, stamp v) \<in> set (drop n es)"
    by (metis DiffE UnE append_take_drop_id set_append)
  have "k' \<in> fst ` set (take n es)" using gone by (auto simp: evict_oldest_filter old)
  then obtain t where t: "(k', t) \<in> set (take n es)" by auto
  then have "(k', t) \<in> (\<lambda>(k, v). (k, stamp v)) ` set m"
    using oldest_keys(2) [OF wf, of stamp n] old by auto
  then obtain w where "(k', w) \<in> set m" "t = stamp w" by auto
  then have "t = stamp v'" using gone(1) wf by (metis am_get_in_set option.inject)
  with t have "(k', stamp v') \<in> set (take n es)" by simp
  moreover have "sorted (map snd (take n es) @ map snd (drop n es))"
    using sorted by (metis append_take_drop_id map_append)
  ultimately show ?thesis using new by (fastforce simp: sorted_append)
qed

text \<open>Dropping the entries that are not live, then the oldest beyond a bound: what both stores'
  cleanups do.\<close>

definition retain_evict :: "('v \<Rightarrow> bool) \<Rightarrow> ('v \<Rightarrow> int) \<Rightarrow> nat \<Rightarrow> ('k, 'v) amap \<Rightarrow> ('k, 'v) amap" where
  "retain_evict live stamp cap m =
     (let m1 = am_retain (\<lambda>_. live) m
      in if cap < length m1 then evict_oldest stamp (length m1 - cap) m1 else m1)"

lemma retain_evict_spec:
  assumes wf0: "am_wf m" and m': "m' = retain_evict live stamp cap m"
  shows "am_wf m'" and "length m' \<le> cap" and "length m - length m' + length m' = length m"
    and "\<forall>k e. am_get m' k = Some e \<longrightarrow> am_get m k = Some e \<and> live e"
    and "\<forall>k e. am_get m k = Some e \<longrightarrow> am_get m' k = None \<longrightarrow> \<not> live e \<or> length m' = cap \<and>
           (\<forall>k' e'. am_get m' k' = Some e' \<longrightarrow> stamp e \<le> stamp e')"
proof -
  let ?m1 = "am_retain (\<lambda>_. live) m"
  have m1: "am_wf ?m1" "length ?m1 \<le> length m" "set ?m1 = {e \<in> set m. live (snd e)}"
    using wf0 am.wf_retain by (auto simp: am_retain_def)
  note m' = m' [unfolded retain_evict_def Let_def]
  show wf: "am_wf m'" using m1 by (simp add: m' evict_oldest_wf)
  have len: "length m' = min cap (length ?m1)"
    using evict_oldest_length [OF m1(1), of stamp "length ?m1 - cap"] by (simp add: m' min_def)
  then show "length m' \<le> cap" "length m - length m' + length m' = length m" using m1(2) by auto
  have sub: "set m' \<subseteq> set ?m1" by (auto simp: m' evict_oldest_filter split: if_splits)
  note get = am_get_in_set [OF wf] am_get_in_set [OF wf0]
  show "\<forall>k e. am_get m' k = Some e \<longrightarrow> am_get m k = Some e \<and> live e" using sub m1(3) by (auto simp: get)
  have gone: "length m' = cap" "(k', e') \<in> set m' \<Longrightarrow> stamp e \<le> stamp e'"
    if "(k, e) \<in> set ?m1" "(k, e) \<notin> set m'" for k e k' e'
    using that len evict_oldest_order [OF m1(1), of k' e' stamp "length ?m1 - cap" k e]
    by (auto simp: m' split: if_splits)
  show "\<forall>k e. am_get m k = Some e \<longrightarrow> am_get m' k = None \<longrightarrow> \<not> live e \<or> length m' = cap \<and>
           (\<forall>k' e'. am_get m' k' = Some e' \<longrightarrow> stamp e \<le> stamp e')"
  proof (intro allI impI)
    fix k e assume *: "am_get m k = Some e" "am_get m' k = None"
    have "(k, e) \<notin> set m'" using *(2) get(1) [of k e] by simp
    moreover have "(k, e) \<in> set ?m1 \<or> \<not> live e" using *(1) m1(3) by (auto simp: get)
    ultimately show "\<not> live e \<or> length m' = cap \<and> (\<forall>k' e'. am_get m' k' = Some e' \<longrightarrow> stamp e \<le> stamp e')"
      using gone by (auto simp: get)
  qed
qed

section \<open>Stores shared by many keys\<close>

text \<open>A trace of operations on a shared store; \<open>None\<close> is a panic.\<close>

fun store_run :: "('k \<Rightarrow> 'a \<Rightarrow> 's \<Rightarrow> ('d \<times> 's) option) \<Rightarrow> ('k \<times> 'a) list \<Rightarrow> 's \<Rightarrow>
    (('k \<times> 'a \<times> 'd) list \<times> 's) option" where
  "store_run f [] s = Some ([], s)"
| "store_run f ((k, a) # tr) s =
     (case f k a s of None \<Rightarrow> None
      | Some (d, s') \<Rightarrow> map_option (\<lambda>(ds, s''). ((k, a, d) # ds, s'')) (store_run f tr s'))"

text \<open>The contract of a store whose keys do not interfere: an operation changes only the part of
  the state its key sees, and depends on no other part.\<close>

locale keyed_store =
  fixes upd :: "'k \<Rightarrow> 'a \<Rightarrow> 's \<Rightarrow> ('d \<times> 's) option"
    and view :: "'s \<Rightarrow> 'k \<Rightarrow> 'v"
  assumes frame: "upd k a s = Some (d, s') \<Longrightarrow> k' \<noteq> k \<Longrightarrow> view s' k' = view s k'"
    and local: "view s k = view t k \<Longrightarrow> upd k a s = Some (d, s') \<Longrightarrow>
      \<exists>t'. upd k a t = Some (d, t') \<and> view t' k = view s' k"
begin

text \<open>Operations on other keys can be dropped from a trace without changing the answers for \<open>k\<close>.\<close>

lemma isolated:
  assumes "view s k = view t k" and "store_run upd tr s = Some (ds, s')"
  shows "\<exists>t'. store_run upd (filter (\<lambda>e. fst e = k) tr) t = Some (filter (\<lambda>e. fst e = k) ds, t')
    \<and> view t' k = view s' k"
  using assms
proof (induction tr arbitrary: s t ds)
  case (Cons e tr)
  obtain j a where e: "e = (j, a)" by fastforce
  from Cons.prems(2) obtain d s1 ds1 where step: "upd j a s = Some (d, s1)"
    and run: "store_run upd tr s1 = Some (ds1, s')" and ds: "ds = (j, a, d) # ds1"
    unfolding e by (auto split: option.splits)
  show ?case
  proof (cases "j = k")
    case True
    then obtain t1 where t1: "upd j a t = Some (d, t1)" "view t1 k = view s1 k"
      using local [OF Cons.prems(1), of a d s1] step by auto
    then show ?thesis using Cons.IH [of s1 t1 ds1] run True by (auto simp: e ds)
  next
    case False
    then have "view s1 k = view t k" using frame [OF step] Cons.prems(1) by simp
    then show ?thesis using Cons.IH [of s1 t ds1] run False by (auto simp: e ds)
  qed
qed auto

end

lemma filter_key_map:
  "filter (\<lambda>e. fst e = k) tr = map (Pair k) (map snd (filter (\<lambda>e. fst e = k) tr))"
  by (induction tr) auto

end
