(* ===== verification/IpAddr.thy ===== *)
theory IpAddr
  imports Prelude
begin

unbundle bit_operations_syntax

text \<open>
  \<^verbatim>\<open>std::net::IpAddr\<close> and its \<^verbatim>\<open>Display\<close> text, which the sources splice into every
  counter key.  A v4 address is its four octets, a v6 address its eight segments.
  \<open>show_ip\<close> follows the standard library's formatter (dotted decimal; lower-case hex
  groups with the first longest run of at least two zero groups written \<^verbatim>\<open>::\<close>; the
  v4-mapped form).  The last section proves that the text determines the address.
\<close>

section \<open>Addresses\<close>

type_synonym u8 = "8 word"
type_synonym u16 = "16 word"

datatype ip_addr =
    V4 u8 u8 u8 u8
  | V6 u16 u16 u16 u16 u16 u16 u16 u16

fun segments :: "ip_addr \<Rightarrow> u16 list" where
  "segments (V4 a b c d) = []"
| "segments (V6 a b c d e f g h) = [a, b, c, d, e, f, g, h]"

section \<open>Numbers as text\<close>

definition digit_char :: "nat \<Rightarrow> char" where
  "digit_char d = char_of (if d < 10 then 48 + d else 87 + d)"

definition digit_val :: "char \<Rightarrow> nat" where
  "digit_val c = (if byte c < 58 then byte c - 48 else byte c - 87)"

fun show_base :: "nat \<Rightarrow> nat \<Rightarrow> string" where
  "show_base b n =
     (if b < 2 then []
      else if n < b then [digit_char n]
      else show_base b (n div b) @ [digit_char (n mod b)])"

declare show_base.simps [simp del]

abbreviation show_dec :: "nat \<Rightarrow> string" where "show_dec \<equiv> show_base 10"
abbreviation show_hex :: "nat \<Rightarrow> string" where "show_hex \<equiv> show_base 16"

definition read_base :: "nat \<Rightarrow> string \<Rightarrow> nat" where
  "read_base b s = foldl (\<lambda>acc c. acc * b + digit_val c) 0 s"

lemma byte_digit_char: "d < 16 \<Longrightarrow> byte (digit_char d) = (if d < 10 then 48 + d else 87 + d)"
  by (simp add: digit_char_def byte_def)

lemma digit_char_0: "digit_char 0 = CHR ''0''"
  by code_simp

lemma digit_val_char: "d < 16 \<Longrightarrow> digit_val (digit_char d) = d"
  by (auto simp: digit_val_def byte_digit_char)

lemma read_show_base: "2 \<le> b \<Longrightarrow> b \<le> 16 \<Longrightarrow> read_base b (show_base b n) = n"
proof (induction b n rule: show_base.induct)
  case (1 b n)
  show ?case
  proof (cases "n < b")
    case True
    then show ?thesis using 1 by (simp add: show_base.simps [of b n] read_base_def digit_val_char)
  next
    case False
    have "n mod b < b" using 1 by simp
    then have "n mod b < 16" using 1 by linarith
    then show ?thesis
      using 1 False by (simp add: show_base.simps [of b n] read_base_def digit_val_char)
  qed
qed

lemma show_base_nonempty: "2 \<le> b \<Longrightarrow> show_base b n \<noteq> []"
  by (subst show_base.simps) simp

lemma show_base_chars: "2 \<le> b \<Longrightarrow> b \<le> 16 \<Longrightarrow> c \<in> set (show_base b n) \<Longrightarrow> \<exists>d<b. c = digit_char d"
proof (induction b n rule: show_base.induct)
  case (1 b n)
  show ?case
  proof (cases "n < b")
    case True
    then show ?thesis using 1 by (simp add: show_base.simps [of b n]) blast
  next
    case False
    then have "c \<in> set (show_base b (n div b)) \<or> c = digit_char (n mod b)"
      using 1 by (auto simp: show_base.simps [of b n])
    then show ?thesis
    proof
      assume "c \<in> set (show_base b (n div b))"
      then show ?thesis using 1 False by simp
    next
      assume "c = digit_char (n mod b)"
      moreover have "n mod b < b" using 1 by simp
      ultimately show ?thesis by blast
    qed
  qed
qed

lemma digit_char_not_sep: "d < 16 \<Longrightarrow> digit_char d \<noteq> CHR '':'' \<and> digit_char d \<noteq> CHR ''.''"
proof
  assume d: "d < 16"
  have "byte CHR '':'' = 58" "byte CHR ''.'' = 46" by (simp_all add: byte_def)
  with byte_digit_char [OF d] d show "digit_char d \<noteq> CHR '':''" and "digit_char d \<noteq> CHR ''.''"
    by (auto split: if_splits)
qed

lemma show_base_no_sep:
  "2 \<le> b \<Longrightarrow> b \<le> 16 \<Longrightarrow> CHR '':'' \<notin> set (show_base b n) \<and> CHR ''.'' \<notin> set (show_base b n)"
  using show_base_chars [of b _ n] digit_char_not_sep by (metis order_less_le_trans)

section \<open>Display\<close>

fun show_v4 :: "u8 \<Rightarrow> u8 \<Rightarrow> u8 \<Rightarrow> u8 \<Rightarrow> string" where
  "show_v4 a b c d = join_with CHR ''.'' (map (\<lambda>x. show_dec (unat x)) [a, b, c, d])"

text \<open>The formatter's single pass for the longest zero run: state \<open>(i, current, longest)\<close>,
  a run being (start, length).\<close>

fun zero_span :: "nat \<Rightarrow> nat \<times> nat \<Rightarrow> nat \<times> nat \<Rightarrow> u16 list \<Rightarrow> nat \<times> nat" where
  "zero_span i cur best [] = best"
| "zero_span i cur best (s # ss) =
     (if s = 0 then
        let cur' = (if snd cur = 0 then i else fst cur, snd cur + 1)
        in zero_span (Suc i) cur' (if snd best < snd cur' then cur' else best) ss
      else zero_span (Suc i) (0, 0) best ss)"

definition show_segs :: "u16 list \<Rightarrow> string" where
  "show_segs ss = join_with CHR '':'' (map (\<lambda>s. show_hex (unat s)) ss)"

definition show_v6 :: "u16 list \<Rightarrow> string" where
  "show_v6 ss = (let (start, len) = zero_span 0 (0, 0) (0, 0) ss
                 in if 1 < len then show_segs (take start ss) @ ''::'' @ show_segs (drop (start + len) ss)
                    else show_segs ss)"

fun show_ip :: "ip_addr \<Rightarrow> string" where
  "show_ip (V4 a b c d) = show_v4 a b c d"
| "show_ip (V6 a b c d e f g h) =
     (if a = 0 \<and> b = 0 \<and> c = 0 \<and> d = 0 \<and> e = 0 \<and> f = 65535
      then ''::ffff:'' @ show_v4 (ucast (drop_bit 8 g)) (ucast g) (ucast (drop_bit 8 h)) (ucast h)
      else show_v6 [a, b, c, d, e, f, g, h])"

section \<open>Parsing\<close>

text \<open>\<^verbatim>\<open>IpAddr::from_str\<close> is a recursive-descent parser; each reader returns the value and
  the rest of the input, or nothing.  Decimal octets take at most three digits and no
  leading zero; hex groups at most four; a v6 address may end in a dotted quad and may
  contain one \<^verbatim>\<open>::\<close> that stands for at least one group.\<close>

definition to_digit :: "nat \<Rightarrow> char \<Rightarrow> nat option" where
  "to_digit radix c =
     (let b = byte c;
          d = (if 48 \<le> b \<and> b \<le> 57 then Some (b - 48)
               else if 97 \<le> b \<and> b \<le> 122 then Some (b - 87)
               else if 65 \<le> b \<and> b \<le> 90 then Some (b - 55) else None)
      in case d of Some v \<Rightarrow> if v < radix then Some v else None | None \<Rightarrow> None)"

definition read_number :: "nat \<Rightarrow> nat \<Rightarrow> bool \<Rightarrow> nat \<Rightarrow> string \<Rightarrow> (nat \<times> string) option" where
  "read_number radix max_digits allow_zero_prefix bound s =
     (let ds = takeWhile (\<lambda>c. to_digit radix c \<noteq> None) s;
          v = foldl (\<lambda>acc c. acc * radix + the (to_digit radix c)) 0 ds
      in if max_digits < length ds \<or> ds = []
            \<or> (\<not> allow_zero_prefix \<and> hd ds = CHR ''0'' \<and> 1 < length ds) \<or> bound < v
         then None else Some (v, drop (length ds) s))"

definition read_separator :: "char \<Rightarrow> nat \<Rightarrow> (string \<Rightarrow> 'a option) \<Rightarrow> string \<Rightarrow> 'a option" where
  "read_separator c i f s =
     (if i = 0 then f s
      else case s of [] \<Rightarrow> None | x # t \<Rightarrow> if x = c then f t else None)"

fun read_octets :: "nat \<Rightarrow> nat \<Rightarrow> string \<Rightarrow> (u8 list \<times> string) option" where
  "read_octets 0 i s = Some ([], s)"
| "read_octets (Suc n) i s =
     (case read_separator CHR ''.'' i (read_number 10 3 False 255) s of
        None \<Rightarrow> None
      | Some (v, t) \<Rightarrow>
          (case read_octets n (Suc i) t of
             None \<Rightarrow> None | Some (vs, u) \<Rightarrow> Some (of_nat v # vs, u)))"

definition read_ipv4_addr :: "string \<Rightarrow> (u8 list \<times> string) option" where
  "read_ipv4_addr = read_octets 4 0"

definition be_u16 :: "u8 \<Rightarrow> u8 \<Rightarrow> u16" where
  "be_u16 a b = push_bit 8 (ucast a) OR ucast b"

function read_groups :: "nat \<Rightarrow> nat \<Rightarrow> string \<Rightarrow> u16 list \<times> bool \<times> string" where
  "read_groups limit i s =
     (if limit \<le> i then ([], False, s)
      else case (if i < limit - 1 then read_separator CHR '':'' i read_ipv4_addr s else None) of
        Some (v, t) \<Rightarrow> ([be_u16 (v ! 0) (v ! 1), be_u16 (v ! 2) (v ! 3)], True, t)
      | None \<Rightarrow>
          (case read_separator CHR '':'' i (read_number 16 4 True 65535) s of
             None \<Rightarrow> ([], False, s)
           | Some (g, t) \<Rightarrow>
               (case read_groups limit (Suc i) t of (gs, v4, u) \<Rightarrow> (of_nat g # gs, v4, u))))"
  by pat_completeness auto
termination by (relation "measure (\<lambda>(limit, i, s). limit - i)") auto

declare read_groups.simps [simp del]

definition v6_of :: "u16 list \<Rightarrow> ip_addr" where
  "v6_of g = V6 (g ! 0) (g ! 1) (g ! 2) (g ! 3) (g ! 4) (g ! 5) (g ! 6) (g ! 7)"

definition read_ipv6_addr :: "string \<Rightarrow> (ip_addr \<times> string) option" where
  "read_ipv6_addr s =
     (case read_groups 8 0 s of (head, head_ipv4, t) \<Rightarrow>
        if length head = 8 then Some (v6_of head, t)
        else if head_ipv4 then None
        else if take 2 t \<noteq> ''::'' then None
        else (case read_groups (8 - (length head + 1)) 0 (drop 2 t) of (tail, _, u) \<Rightarrow>
          Some (v6_of (head @ replicate (8 - length head - length tail) 0 @ tail), u)))"

definition ip_from_str :: "string \<Rightarrow> ip_addr option" where
  "ip_from_str s =
     (case (case read_ipv4_addr s of
              Some (v, t) \<Rightarrow> Some (V4 (v ! 0) (v ! 1) (v ! 2) (v ! 3), t)
            | None \<Rightarrow> read_ipv6_addr s) of
        Some (ip, []) \<Rightarrow> Some ip
      | _ \<Rightarrow> None)"

section \<open>The text determines the address\<close>

lemma show_v4_inj:
  "show_v4 a b c d = show_v4 a' b' c' d' \<longleftrightarrow> a = a' \<and> b = b' \<and> c = c' \<and> d = d'"
proof
  let ?f = "\<lambda>x :: u8. show_dec (unat x)"
  assume "show_v4 a b c d = show_v4 a' b' c' d'"
  then have "split_on CHR ''.'' (join_with CHR ''.'' (map ?f [a, b, c, d])) =
             split_on CHR ''.'' (join_with CHR ''.'' (map ?f [a', b', c', d']))"
    by (simp only: show_v4.simps)
  then have "map ?f [a, b, c, d] = map ?f [a', b', c', d']"
    using show_base_no_sep [of 10] by (subst (asm) (1 2) split_join) auto
  then have "map (read_base 10) (map ?f [a, b, c, d]) = map (read_base 10) (map ?f [a', b', c', d'])"
    by (rule arg_cong)
  then show "a = a' \<and> b = b' \<and> c = c' \<and> d = d'" by (simp add: read_show_base word_unat_eq_iff)
qed simp

lemma show_v4_no_colon: "CHR '':'' \<notin> set (show_v4 a b c d)"
  using show_base_no_sep [of 10] by (auto dest!: set_join)

lemma show_v4_dot: "CHR ''.'' \<in> set (show_v4 a b c d)"
  by simp

definition hexes :: "u16 list \<Rightarrow> string list" where
  "hexes ss = map (\<lambda>s. show_hex (unat s)) ss"

lemma hexes_sep: "s \<in> set (hexes ss) \<Longrightarrow> CHR '':'' \<notin> set s \<and> CHR ''.'' \<notin> set s \<and> s \<noteq> []"
  using show_base_no_sep [of 16] show_base_nonempty [of 16] by (auto simp: hexes_def)

lemma hexes_inj: "hexes ss = hexes ts \<longleftrightarrow> ss = ts"
proof
  assume "hexes ss = hexes ts"
  then have "map (read_base 16) (hexes ss) = map (read_base 16) (hexes ts)" by simp
  then have "map unat ss = map unat ts" by (simp add: hexes_def read_show_base comp_def)
  moreover have "inj (unat :: u16 \<Rightarrow> nat)" by (rule injI) (simp add: word_unat_eq_iff)
  ultimately show "ss = ts" by (simp add: inj_map_eq_map)
qed simp

lemma show_segs_no_dot: "CHR ''.'' \<notin> set (show_segs ss)"
  using hexes_sep by (auto simp: show_segs_def hexes_def dest!: set_join)

text \<open>The compressed run is a run of zeros inside the address.\<close>

definition span_ok :: "u16 list \<Rightarrow> nat \<times> nat \<Rightarrow> bool" where
  "span_ok ss sp \<longleftrightarrow> fst sp + snd sp \<le> length ss
     \<and> (\<forall>j. fst sp \<le> j \<and> j < fst sp + snd sp \<longrightarrow> ss ! j = 0)"

lemma zero_span_ok:
  "i + length rest = length ss \<Longrightarrow> drop i ss = rest \<Longrightarrow> span_ok ss best \<Longrightarrow>
   span_ok ss cur \<Longrightarrow> (snd cur \<noteq> 0 \<longrightarrow> fst cur + snd cur = i) \<Longrightarrow>
   span_ok ss (zero_span i cur best rest)"
proof (induction i cur best rest rule: zero_span.induct)
  case (2 i cur best s rest)
  have nth: "ss ! i = s" and len: "i < length ss" and tl: "drop (Suc i) ss = rest"
    using 2(3,4) by (auto simp: nth_via_drop) (metis drop_Suc list.sel(3) tl_drop)
  show ?case
  proof (cases "s = 0")
    case True
    define cur' where "cur' = (if snd cur = 0 then i else fst cur, snd cur + 1)"
    have c: "span_ok ss cur'"
      using 2(6,7) True nth len by (auto simp: cur'_def span_ok_def less_Suc_eq)
    have "zero_span i cur best (s # rest) =
            zero_span (Suc i) cur' (if snd best < snd cur' then cur' else best) rest"
      using True by (simp add: cur'_def Let_def)
    moreover have "span_ok ss (zero_span (Suc i) cur' (if snd best < snd cur' then cur' else best) rest)"
    proof (rule 2(1) [OF True cur'_def])
      show "Suc i + length rest = length ss" using 2(3) by simp
      show "drop (Suc i) ss = rest" by (rule tl)
      show "span_ok ss (if snd best < snd cur' then cur' else best)" using c 2(5) by simp
      show "span_ok ss cur'" by (rule c)
      show "snd cur' \<noteq> 0 \<longrightarrow> fst cur' + snd cur' = Suc i" using 2(7) by (auto simp: cur'_def)
    qed
    ultimately show ?thesis by simp
  next
    case False
    then show ?thesis using 2(2) 2(3,5) tl by (auto simp: span_ok_def)
  qed
qed simp

lemma split_span:
  assumes "span_ok ss (i, n)"
  shows "ss = take i ss @ replicate n 0 @ drop (i + n) ss"
proof -
  have "take n (drop i ss) = replicate n 0"
    using assms by (auto simp: span_ok_def list_eq_iff_nth_eq)
  then show ?thesis by (metis append_take_drop_id drop_drop add.commute)
qed

definition expand :: "string list \<Rightarrow> string list" where
  "expand ws = (if [] \<in> set ws then
      let pre = takeWhile (\<lambda>s. s \<noteq> []) ws; post = rev (takeWhile (\<lambda>s. s \<noteq> []) (rev ws))
      in pre @ replicate (8 - length pre - length post) ''0'' @ post
    else ws)"

lemma split_show_segs:
  "split_on CHR '':'' (show_segs ss) = (if ss = [] then [[]] else hexes ss)"
  "split_on CHR '':'' (show_segs ss @ CHR '':'' # t) = (if ss = [] then [[]] else hexes ss) @ split_on CHR '':'' t"
  using hexes_sep by (auto simp: show_segs_def hexes_def [symmetric] split_join split_join_append)
     (simp_all add: hexes_def split_join split_join_append)

lemma takeWhile_hexes: "takeWhile (\<lambda>s. s \<noteq> []) (hexes ss @ [] # ws) = hexes ss"
  "takeWhile (\<lambda>s. s \<noteq> []) (rev (hexes ss) @ [] # ws) = rev (hexes ss)"
proof -
  have "\<And>s. s \<in> set (hexes ss) \<Longrightarrow> s \<noteq> []" using hexes_sep by blast
  then show "takeWhile (\<lambda>s. s \<noteq> []) (hexes ss @ [] # ws) = hexes ss"
    and "takeWhile (\<lambda>s. s \<noteq> []) (rev (hexes ss) @ [] # ws) = rev (hexes ss)"
    by (subst takeWhile_append2; simp)+
qed

lemma expand_compressed:
  "expand ((if A = [] then [[]] else hexes A) @ [] # (if B = [] then [[]] else hexes B)) =
     hexes A @ replicate (8 - length A - length B) ''0'' @ hexes B"
  using takeWhile_hexes [of A] takeWhile_hexes [of B]
  by (simp add: expand_def Let_def hexes_def)

lemma expand_show_v6:
  assumes "length ss = 8"
  shows "expand (split_on CHR '':'' (show_v6 ss)) = hexes ss"
proof -
  obtain i n where sp: "zero_span 0 (0, 0) (0, 0) ss = (i, n)" by fastforce
  have ok: "span_ok ss (i, n)"
    using zero_span_ok [of 0 ss ss "(0, 0)" "(0, 0)"] by (simp add: sp span_ok_def)
  show ?thesis
  proof (cases "1 < n")
    case True
    let ?A = "take i ss" and ?B = "drop (i + n) ss"
    have ss: "ss = ?A @ replicate n 0 @ ?B" by (rule split_span [OF ok])
    have len: "8 - length ?A - length ?B = n" using ok assms by (auto simp: span_ok_def)
    have "show_v6 ss = show_segs ?A @ CHR '':'' # CHR '':'' # show_segs ?B"
      using True by (simp add: show_v6_def sp)
    then have "split_on CHR '':'' (show_v6 ss) =
        (if ?A = [] then [[]] else hexes ?A) @ [] # (if ?B = [] then [[]] else hexes ?B)"
      by (simp only: split_show_segs split_on.simps) simp
    then have "expand (split_on CHR '':'' (show_v6 ss)) = hexes ?A @ replicate n ''0'' @ hexes ?B"
      by (simp only: expand_compressed len)
    also have "\<dots> = hexes (?A @ replicate n 0 @ ?B)"
      by (simp add: hexes_def show_base.simps [of 16 0] digit_char_0)
    finally show ?thesis using ss by simp
  next
    case False
    then have "split_on CHR '':'' (show_v6 ss) = hexes ss"
      using assms by (auto simp: show_v6_def sp split_show_segs)
    moreover have "[] \<notin> set (hexes ss)" using hexes_sep by blast
    ultimately show ?thesis by (simp add: expand_def)
  qed
qed

lemma show_v6_no_dot: "CHR ''.'' \<notin> set (show_v6 ss)"
  using show_segs_no_dot by (auto simp: show_v6_def Let_def split: prod.splits)

lemma show_v6_colon:
  assumes "length ss = 8"
  shows "CHR '':'' \<in> set (show_v6 ss)"
proof (rule ccontr)
  assume "CHR '':'' \<notin> set (show_v6 ss)"
  then have "split_on CHR '':'' (show_v6 ss) = [show_v6 ss]" by (rule split_on_none)
  then have "length (expand [show_v6 ss]) = length (hexes ss)"
    using expand_show_v6 [OF assms] by simp
  then have "show_v6 ss = []" using assms by (simp add: expand_def hexes_def split: if_splits)
  then have "expand [[]] = hexes ss" using expand_show_v6 [OF assms] by simp
  then have "hexes ss = replicate 8 ''0''" by (simp add: expand_def)
  also have "\<dots> = hexes (replicate 8 0)"
    by (simp add: hexes_def show_base.simps [of 16 0] digit_char_0)
  finally have "ss = replicate 8 0" by (simp only: hexes_inj)
  then have "show_v6 ss = ''::''"
    by (simp add: show_v6_def show_segs_def numeral_eq_Suc)
  then show False using \<open>show_v6 ss = []\<close> by simp
qed

lemma u16_split: "ucast (drop_bit 8 (g::u16)) = (ucast (drop_bit 8 (g'::u16)) :: u8) \<Longrightarrow>
   (ucast g :: u8) = ucast g' \<Longrightarrow> g = g'"
proof (rule bit_word_eqI)
  fix n
  assume hi: "ucast (drop_bit 8 g) = (ucast (drop_bit 8 g') :: u8)"
    and lo: "(ucast g :: u8) = ucast g'" and n: "n < LENGTH(16)"
  show "bit g n = bit g' n"
  proof (cases "n < 8")
    case True
    then show ?thesis using arg_cong [OF lo, of "\<lambda>w. bit w n"] by (simp add: bit_ucast_iff)
  next
    case False
    then have "bit (ucast (drop_bit 8 g) :: u8) (n - 8) = bit (ucast (drop_bit 8 g') :: u8) (n - 8)"
      using hi by simp
    moreover have "n - 8 < 8" using n by simp
    ultimately show ?thesis using False by (simp add: bit_ucast_iff bit_drop_bit_eq)
  qed
qed

lemma show_v6_inj: "length ss = 8 \<Longrightarrow> length ts = 8 \<Longrightarrow> show_v6 ss = show_v6 ts \<Longrightarrow> ss = ts"
  using expand_show_v6 [of ss] expand_show_v6 [of ts] by (metis hexes_inj)

lemma show_v6_ne_v4: "show_v6 ss \<noteq> t @ show_v4 p q r s"
  using show_v6_no_dot [of ss] show_v4_dot [of p q r s] by (metis UnCI set_append)

lemma v6_text_colon: "CHR '':'' \<in> set (show_ip (V6 a b c d e f g h))"
  using show_v6_colon [of "[a,b,c,d,e,f,g,h]"] by (simp del: show_v4.simps)

lemma show_ip_inj:
  assumes eq: "show_ip x = show_ip y"
  shows "x = y"
proof (cases x)
  case x: (V4 a b c d)
  show ?thesis
  proof (cases y)
    case (V4 a' b' c' d')
    then show ?thesis using eq x show_v4_inj by (simp del: show_v4.simps)
  next
    case (V6 a' b' c' d' e' f' g' h')
    then show ?thesis using eq x v6_text_colon show_v4_no_colon by (metis show_ip.simps(1))
  qed
next
  case x: (V6 a b c d e f g h)
  show ?thesis
  proof (cases y)
    case (V4 a' b' c' d')
    then show ?thesis using eq x v6_text_colon show_v4_no_colon by (metis show_ip.simps(1))
  next
    case y: (V6 a' b' c' d' e' f' g' h')
    let ?m = "a = 0 \<and> b = 0 \<and> c = 0 \<and> d = 0 \<and> e = 0 \<and> f = 65535"
    let ?m' = "a' = 0 \<and> b' = 0 \<and> c' = 0 \<and> d' = 0 \<and> e' = 0 \<and> f' = 65535"
    consider "?m" "?m'" | "?m" "\<not> ?m'" | "\<not> ?m" "?m'" | "\<not> ?m" "\<not> ?m'" by blast
    then show ?thesis
    proof cases
      case 1
      then have "g = g'" "h = h'"
        using eq x y u16_split [of g g'] u16_split [of h h'] by (simp_all del: show_v4.simps add: show_v4_inj)
      then show ?thesis using 1 x y by simp
    next
      case 2
      then have "show_v6 [a',b',c',d',e',f',g',h'] = ''::ffff:'' @ show_v4 (ucast (drop_bit 8 g)) (ucast g) (ucast (drop_bit 8 h)) (ucast h)"
        using eq x y by (simp only: show_ip.simps if_True if_False simp_thms)
      then show ?thesis using show_v6_ne_v4 by blast
    next
      case 3
      then have "show_v6 [a,b,c,d,e,f,g,h] = ''::ffff:'' @ show_v4 (ucast (drop_bit 8 g')) (ucast g') (ucast (drop_bit 8 h')) (ucast h')"
        using eq x y by (simp only: show_ip.simps if_True if_False simp_thms)
      then show ?thesis using show_v6_ne_v4 by blast
    next
      case 4
      then have "show_v6 [a,b,c,d,e,f,g,h] = show_v6 [a',b',c',d',e',f',g',h']"
        using eq x y by (simp only: show_ip.simps if_False)
      then have "[a,b,c,d,e,f,g,h] = [a',b',c',d',e',f',g',h']" by (rule show_v6_inj [rotated 2]) simp_all
      then show ?thesis using x y by simp
    qed
  qed
qed

end
