(* ===== verification/F64.thy ===== *)
theory F64
  imports Complex_Main "HOL-Library.Log_Nat"
begin

text \<open>
  The \<^verbatim>\<open>f64\<close> arithmetic the rate limiter uses, as rationals with IEEE-754
  rounding after every operation.  A finite double is the rational it denotes;
  an operation computes the exact result and rounds it with \<open>f64_rnd\<close> to the
  nearest multiple of the unit in the last place (53 significant bits, ties to
  even, gradual underflow at \<open>2 powi (-1074)\<close>).  Overflow to infinity is not
  represented: a rounded value may exceed the largest finite double, and the code
  only ever takes the minimum of such a value with a 32-bit capacity, where an
  infinity and a huge rational behave alike.

  The laws the clients rest on are the locale \<open>rounding\<close> (monotone, exact on the
  integers a double represents); \<open>f64_rnd\<close> is proved to satisfy them.
\<close>

section \<open>Interface: a rounding function\<close>

locale rounding =
  fixes rnd :: "rat \<Rightarrow> rat"
  assumes mono: "x \<le> y \<Longrightarrow> rnd x \<le> rnd y"
    and exact: "n \<le> 2 ^ 53 \<Longrightarrow> rnd (of_nat n) = of_nat n"
begin

lemma zero: "rnd 0 = 0"
  using exact [of 0] by simp

lemma one: "rnd 1 = 1"
  using exact [of 1] by simp

lemma nonneg: "0 \<le> x \<Longrightarrow> 0 \<le> rnd x"
  using mono [of 0 x] by (simp add: zero)

lemma le_nat: "x \<le> of_nat n \<Longrightarrow> n \<le> 2 ^ 53 \<Longrightarrow> rnd x \<le> of_nat n"
  using mono [of x "of_nat n"] by (simp add: exact)

lemma ge_nat: "of_nat n \<le> x \<Longrightarrow> n \<le> 2 ^ 53 \<Longrightarrow> of_nat n \<le> rnd x"
  using mono [of "of_nat n" x] by (simp add: exact)

lemma le_one: "x \<le> 1 \<Longrightarrow> rnd x \<le> 1"
  using le_nat [of x 1] by simp

end

section \<open>Round to nearest, ties to even\<close>

definition rne :: "rat \<Rightarrow> int" where
  "rne r = (let f = \<lfloor>r\<rfloor>; d = r - of_int f
            in if d < 1 / 2 then f else if 1 / 2 < d then f + 1
               else if even f then f else f + 1)"

lemma rne_bounds: "\<lfloor>r\<rfloor> \<le> rne r" "rne r \<le> \<lfloor>r\<rfloor> + 1"
  by (auto simp: rne_def Let_def)

lemma rne_of_int [simp]: "rne (of_int k) = k"
  by (simp add: rne_def)

lemma rne_mono:
  assumes "x \<le> y"
  shows "rne x \<le> rne y"
proof (cases "\<lfloor>x\<rfloor> = \<lfloor>y\<rfloor>")
  case True
  then show ?thesis using assms by (auto simp: rne_def Let_def)
next
  case False
  with assms have "\<lfloor>x\<rfloor> + 1 \<le> \<lfloor>y\<rfloor>"
    using floor_mono [OF assms] by linarith
  then show ?thesis using rne_bounds(2) [of x] rne_bounds(1) [of y] by linarith
qed

lemma rne_le_int: "x \<le> of_int k \<Longrightarrow> rne x \<le> k"
  using rne_mono [of x "of_int k"] by simp

lemma rne_ge_int: "of_int k \<le> x \<Longrightarrow> k \<le> rne x"
  using rne_mono [of "of_int k" x] by simp

section \<open>Binary exponent of a positive rational\<close>

definition exp2 :: "rat \<Rightarrow> int" where
  "exp2 x = (let (p, q) = quotient_of x;
                 d = int (floorlog 2 (nat p)) - int (floorlog 2 (nat q))
             in if 2 powi d \<le> x then d else d - 1)"

lemma floorlog2_bounds:
  assumes "0 < n"
  shows "(2::rat) powi (int (floorlog 2 n) - 1) \<le> of_nat n"
    and "(of_nat n :: rat) < 2 powi int (floorlog 2 n)"
proof -
  have pos: "0 < floorlog 2 n" using assms by (simp add: floorlog_def)
  have b: "2 ^ (floorlog 2 n - 1) \<le> n" "n < 2 ^ floorlog 2 n"
    using floorlog_bounds [of n 2] assms by auto
  have "(2::rat) ^ (floorlog 2 n - 1) \<le> of_nat n"
    using b(1) by (metis of_nat_le_iff of_nat_numeral of_nat_power)
  moreover have "int (floorlog 2 n) - 1 = int (floorlog 2 n - 1)" using pos by simp
  ultimately show "(2::rat) powi (int (floorlog 2 n) - 1) \<le> of_nat n"
    by (simp only: power_int_of_nat)
  show "(of_nat n :: rat) < 2 powi int (floorlog 2 n)"
    using b(2) by (metis of_nat_less_iff of_nat_numeral of_nat_power power_int_of_nat)
qed

lemma exp2_bounds:
  assumes "0 < x"
  shows "2 powi exp2 x \<le> x" and "x < 2 powi (exp2 x + 1)"
proof -
  obtain p q where pq: "quotient_of x = (p, q)" by (cases "quotient_of x")
  have q: "0 < q" using pq by (rule quotient_of_denom_pos)
  have x: "x = of_int p / of_int q" using pq by (rule quotient_of_div)
  then have p: "0 < p" using assms q by (simp add: zero_less_divide_iff)
  define a where "a = int (floorlog 2 (nat p))"
  define b where "b = int (floorlog 2 (nat q))"
  define P where "P = (of_int p :: rat)"
  define Q where "Q = (of_int q :: rat)"
  have PQ: "0 < P" "0 < Q" using p q by (simp_all add: P_def Q_def)
  have P: "2 powi (a - 1) \<le> P" "P < 2 powi a"
    using floorlog2_bounds [of "nat p"] p by (auto simp: a_def P_def)
  have Q: "2 powi (b - 1) \<le> Q" "Q < 2 powi b"
    using floorlog2_bounds [of "nat q"] q by (auto simp: b_def Q_def)
  have e: "exp2 x = (if 2 powi (a - b) \<le> x then a - b else a - b - 1)"
    by (simp add: exp2_def pq a_def b_def)
  have lo: "2 powi (a - b - 1) \<le> x"
  proof -
    have "2 powi (a - b - 1) * Q \<le> 2 powi (a - b - 1) * 2 powi b"
      using Q(2) by (intro mult_left_mono) auto
    also have "\<dots> = 2 powi (a - 1)" by (simp add: power_int_add [symmetric])
    finally show ?thesis using P(1) PQ x by (simp add: pos_le_divide_eq P_def Q_def)
  qed
  have hi: "x < 2 powi (a - b + 1)"
  proof -
    have "P < 2 powi (a - b + 1) * 2 powi (b - 1)"
      using P(2) by (simp add: power_int_add [symmetric])
    also have "\<dots> \<le> 2 powi (a - b + 1) * Q"
      using Q(1) by (intro mult_left_mono) auto
    finally show ?thesis using PQ x by (simp add: pos_divide_less_eq P_def Q_def)
  qed
  show "2 powi exp2 x \<le> x" using e lo by simp
  show "x < 2 powi (exp2 x + 1)" using e hi by (auto simp: not_le)
qed

lemma exp2_mono:
  assumes "0 < x" and "x \<le> y"
  shows "exp2 x \<le> exp2 y"
proof (rule ccontr)
  assume "\<not> exp2 x \<le> exp2 y"
  then have "(2::rat) powi (exp2 y + 1) \<le> 2 powi exp2 x"
    by (intro power_int_increasing) auto
  then show False
    using exp2_bounds(1) [of x] exp2_bounds(2) [of y] assms by linarith
qed

section \<open>Rounding to a double\<close>

definition ulp_exp :: "rat \<Rightarrow> int" where
  "ulp_exp x = max (exp2 x - 52) (-1074)"

definition rnd_pos :: "rat \<Rightarrow> rat" where
  "rnd_pos x = of_int (rne (x / 2 powi ulp_exp x)) * 2 powi ulp_exp x"

definition f64_rnd :: "rat \<Rightarrow> rat" where
  "f64_rnd x = (if x = 0 then 0 else if 0 < x then rnd_pos x else - rnd_pos (- x))"

lemma powi_quot_int:
  assumes "u \<le> e"
  shows "(2::rat) powi e / 2 powi u = of_int (2 ^ nat (e - u))"
proof -
  have "(2::rat) powi e / 2 powi u = 2 powi (e - u)" by (simp add: power_int_diff)
  also have "\<dots> = 2 ^ nat (e - u)" using assms by (simp add: power_int_def)
  finally show ?thesis by simp
qed

lemma rnd_pos_le_power:
  assumes "x \<le> 2 powi e" and "ulp_exp x \<le> e"
  shows "rnd_pos x \<le> 2 powi e"
proof -
  let ?u = "2 powi ulp_exp x :: rat"
  have "x / ?u \<le> of_int (2 ^ nat (e - ulp_exp x))"
    using assms by (subst powi_quot_int [symmetric]) (auto intro: divide_right_mono)
  then have "rne (x / ?u) \<le> 2 ^ nat (e - ulp_exp x)" by (rule rne_le_int)
  then have "(of_int (rne (x / ?u)) :: rat) \<le> of_int (2 ^ nat (e - ulp_exp x))" by (simp only: of_int_le_iff)
  then have "(of_int (rne (x / ?u)) :: rat) \<le> 2 powi e / ?u"
    using assms(2) by (simp only: powi_quot_int)
  then show ?thesis by (simp add: rnd_pos_def pos_le_divide_eq)
qed

lemma rnd_pos_ge_power:
  assumes "2 powi e \<le> x" and "ulp_exp x \<le> e"
  shows "2 powi e \<le> rnd_pos x"
proof -
  let ?u = "2 powi ulp_exp x :: rat"
  have "of_int (2 ^ nat (e - ulp_exp x)) \<le> x / ?u"
    using assms by (subst powi_quot_int [symmetric]) (auto intro: divide_right_mono)
  then have "2 ^ nat (e - ulp_exp x) \<le> rne (x / ?u)" by (rule rne_ge_int)
  then have "(of_int (2 ^ nat (e - ulp_exp x)) :: rat) \<le> of_int (rne (x / ?u))" by (simp only: of_int_le_iff)
  then have "2 powi e / ?u \<le> (of_int (rne (x / ?u)) :: rat)"
    using assms(2) by (simp only: powi_quot_int)
  then show ?thesis by (simp add: rnd_pos_def pos_divide_le_eq)
qed

lemma rnd_pos_nonneg: "0 \<le> x \<Longrightarrow> 0 \<le> rnd_pos x"
  using rne_ge_int [of 0 "x / 2 powi ulp_exp x"] by (simp add: rnd_pos_def)

lemma rnd_pos_mono:
  assumes "0 < x" and "x \<le> y"
  shows "rnd_pos x \<le> rnd_pos y"
proof (cases "ulp_exp x = ulp_exp y")
  case True
  have "rne (x / 2 powi ulp_exp y) \<le> rne (y / 2 powi ulp_exp y)"
    using assms by (intro rne_mono divide_right_mono) auto
  then show ?thesis by (simp add: rnd_pos_def True)
next
  case False
  have e: "exp2 x \<le> exp2 y" using assms by (rule exp2_mono)
  with False have lt: "exp2 x < exp2 y" and y: "ulp_exp y = exp2 y - 52"
    by (auto simp: ulp_exp_def max_def split: if_splits)
  have ux: "ulp_exp x \<le> exp2 y" using lt y False e by (auto simp: ulp_exp_def)
  have "x < 2 powi (exp2 x + 1)" using exp2_bounds(2) assms(1) by blast
  also have "\<dots> \<le> 2 powi exp2 y" using lt by (intro power_int_increasing) auto
  finally have "rnd_pos x \<le> 2 powi exp2 y" using ux by (intro rnd_pos_le_power) auto
  also have "\<dots> \<le> rnd_pos y"
    using exp2_bounds(1) [of y] assms y by (intro rnd_pos_ge_power) auto
  finally show ?thesis .
qed

lemma f64_rnd_mono:
  assumes "x \<le> y"
  shows "f64_rnd x \<le> f64_rnd y"
proof -
  consider "0 < x" | "y < 0" | "x \<le> 0" "0 \<le> y" by linarith
  then show ?thesis
  proof cases
    case 1
    then show ?thesis using assms rnd_pos_mono by (simp add: f64_rnd_def)
  next
    case 2
    then show ?thesis using assms rnd_pos_mono [of "- y" "- x"] by (simp add: f64_rnd_def)
  next
    case 3
    then show ?thesis
      using rnd_pos_nonneg [of y] rnd_pos_nonneg [of "- x"] by (auto simp: f64_rnd_def)
  qed
qed

lemma f64_rnd_exact:
  assumes "n \<le> 2 ^ 53"
  shows "f64_rnd (of_nat n) = of_nat n"
proof (cases "n = 0")
  case True
  then show ?thesis by (simp add: f64_rnd_def)
next
  case False
  define x where "x = (of_nat n :: rat)"
  have x: "0 < x" using False by (simp add: x_def)
  show ?thesis
  proof (cases "ulp_exp x \<le> 0")
    case True
    define u where "u = (2 powi ulp_exp x :: rat)"
    define k where "k = (2::int) ^ nat (- ulp_exp x)"
    have uk: "u * of_int k = 1"
      using powi_quot_int [OF True] by (simp add: u_def k_def field_simps)
    then have "x / u = of_int (int n * k)"
      by (simp add: x_def u_def field_simps)
    then have "rnd_pos x = of_int (int n * k) * u"
      by (simp only: rnd_pos_def u_def [symmetric] rne_of_int)
    also have "\<dots> = x" using uk by (simp add: x_def mult.assoc mult.commute [of _ u])
    finally show ?thesis using x by (simp add: f64_rnd_def x_def)
  next
    case False
    then have "1 \<le> ulp_exp x" by simp
    then have "53 \<le> exp2 x" by (simp add: ulp_exp_def max_def split: if_splits)
    then have "(2::rat) powi 53 \<le> x"
      using exp2_bounds(1) [OF x] power_int_increasing [of 53 "exp2 x" "2::rat"] by linarith
    moreover have "x \<le> of_nat (2 ^ 53)" using assms by (simp only: x_def of_nat_le_iff)
    ultimately have eq: "x = 2 powi 53" by (simp add: power_int_def)
    then have "(2::rat) powi exp2 x \<le> 2 powi 53" using exp2_bounds(1) [OF x] by simp
    then have "exp2 x \<le> 53"
      using power_int_strict_increasing [of 53 "exp2 x" "2::rat"] by linarith
    then have "ulp_exp x \<le> 53" by (simp add: ulp_exp_def)
    then have "rnd_pos x = 2 powi 53"
      using rnd_pos_le_power [of x 53] rnd_pos_ge_power [of 53 x] eq by simp
    then show ?thesis using x eq by (simp add: f64_rnd_def x_def)
  qed
qed

section \<open>Rounding error\<close>

lemma rne_error: "of_int (rne r) - r \<le> 1 / 2" "r - of_int (rne r) \<le> 1 / 2"
proof -
  have "of_int \<lfloor>r\<rfloor> \<le> r" "r < of_int \<lfloor>r\<rfloor> + 1" by linarith+
  then show "of_int (rne r) - r \<le> 1 / 2" "r - of_int (rne r) \<le> 1 / 2"
    unfolding rne_def Let_def by (auto simp: field_simps; linarith)+
qed

lemma rnd_pos_error: "\<bar>rnd_pos x - x\<bar> \<le> 2 powi ulp_exp x / 2"
proof -
  let ?u = "2 powi ulp_exp x :: rat"
  have u: "0 < ?u" by simp
  have "rnd_pos x - x = (of_int (rne (x / ?u)) - x / ?u) * ?u"
    using u by (simp add: rnd_pos_def field_simps)
  moreover have "\<bar>of_int (rne (x / ?u)) - x / ?u\<bar> \<le> 1 / 2"
    using rne_error [of "x / ?u"] by linarith
  ultimately have "\<bar>rnd_pos x - x\<bar> = \<bar>of_int (rne (x / ?u)) - x / ?u\<bar> * ?u" by (simp add: abs_mult)
  also have "\<dots> \<le> 1 / 2 * ?u"
    using \<open>\<bar>of_int (rne (x / ?u)) - x / ?u\<bar> \<le> 1 / 2\<close> u by (intro mult_right_mono) auto
  finally show ?thesis by simp
qed

text \<open>Absolute error below a power of two, relative error above the subnormals.\<close>

lemma f64_rnd_abs_error:
  assumes "0 \<le> x" and "x < 2 powi k" and "-1021 \<le> k"
  shows "f64_rnd x \<le> x + 2 powi (k - 54)"
proof (cases "x = 0")
  case True
  then show ?thesis by (simp add: f64_rnd_def)
next
  case False
  with assms have x: "0 < x" by simp
  have "(2::rat) powi exp2 x < 2 powi k" using exp2_bounds(1) [OF x] assms(2) by linarith
  then have "exp2 x < k"
    using power_int_increasing [of k "exp2 x" "2::rat"] by linarith
  then have "ulp_exp x \<le> k - 53" using assms(3) by (simp add: ulp_exp_def)
  then have "(2::rat) powi ulp_exp x \<le> 2 powi (k - 53)" by (intro power_int_increasing) auto
  also have "\<dots> = 2 * 2 powi (k - 54)"
    using power_int_add [of "2::rat" 1 "k - 54"] by (simp add: algebra_simps)
  finally have "2 powi ulp_exp x / 2 \<le> (2::rat) powi (k - 54)" by simp
  then have "\<bar>rnd_pos x - x\<bar> \<le> 2 powi (k - 54)" using rnd_pos_error [of x] by (rule order_trans [rotated])
  then have "rnd_pos x \<le> x + 2 powi (k - 54)" by linarith
  then show ?thesis using x by (simp add: f64_rnd_def)
qed

lemma f64_rnd_rel_error:
  assumes "2 powi (-1000) \<le> x"
  shows "f64_rnd x \<le> x + x * 2 powi (-53)"
proof -
  have x: "0 < x" using assms by (meson less_le_trans zero_less_numeral zero_less_power_int)
  have "(2::rat) powi (-1000) < 2 powi (exp2 x + 1)" using assms exp2_bounds(2) [OF x] by linarith
  then have "-1000 < exp2 x + 1"
    using power_int_increasing [of "exp2 x + 1" "-1000" "2::rat"] by linarith
  then have "ulp_exp x = exp2 x - 52" by (simp add: ulp_exp_def)
  then have "2 powi ulp_exp x / 2 = (2::rat) powi (exp2 x) * 2 powi (-53)"
    using power_int_add [of "2::rat" "exp2 x" "-53"] power_int_add [of "2::rat" "exp2 x - 53" 1]
    by simp
  also have "\<dots> \<le> x * 2 powi (-53)" using exp2_bounds(1) [OF x] by (intro mult_right_mono) auto
  finally have "\<bar>rnd_pos x - x\<bar> \<le> x * 2 powi (-53)"
    using rnd_pos_error [of x] by (rule order_trans [rotated])
  then have "rnd_pos x \<le> x + x * 2 powi (-53)" by linarith
  then show ?thesis using x by (simp add: f64_rnd_def del: power_int_minus)
qed

interpretation f64: rounding f64_rnd
  by unfold_locales (rule f64_rnd_mono, assumption, rule f64_rnd_exact)

end
