(* ===== verification/Common.thy ===== *)
theory Common
  imports IpAddr F64
begin

text \<open>
  The data model of the \<^verbatim>\<open>waf-common\<close> crate: protection tiers and their policies
  (\<^verbatim>\<open>tier.rs\<close>, \<^verbatim>\<open>tier_match.rs\<close>), and the request context, host configuration and
  decisions every check exchanges (\<^verbatim>\<open>types.rs\<close>).  The lemmas give the meaning of a
  configuration that passes \<^verbatim>\<open>TierConfig::validate\<close> and of the cookie parser.
\<close>

section \<open>Tiers and policies\<close>

datatype tier = Critical | High | Medium | CatchAll

definition tier_ALL :: "tier list" where
  "tier_ALL = [Critical, High, Medium, CatchAll]"

lemma set_tier_ALL [simp]: "set tier_ALL = UNIV"
  by (auto simp: tier_ALL_def intro: tier.exhaust)

datatype fail_mode = Close | Open

datatype cache_policy =
    NoCache | ShortTtl nat | Aggressive nat | DefaultTtl nat

record risk_thresholds =
  rt_allow :: nat
  rt_challenge :: nat
  rt_block :: nat

datatype http_method =
    Get | Head | Post | Put | Delete | Connect | Options | Trace | Patch

record tier_policy =
  tp_fail_mode :: fail_mode
  tp_ddos_threshold_rps :: nat
  tp_cache_policy :: cache_policy
  tp_risk_thresholds :: risk_thresholds

definition tier_policy_default :: tier_policy where
  "tier_policy_default =
     \<lparr>tp_fail_mode = Open, tp_ddos_threshold_rps = u32_max, tp_cache_policy = NoCache,
      tp_risk_thresholds = \<lparr>rt_allow = 30, rt_challenge = 70, rt_block = 90\<rparr>\<rparr>"

section \<open>Classifier rules and their validation\<close>

datatype path_match = PathExact string | PathPrefix string | PathRegex string

datatype host_match = HostExact string | HostSuffix string | HostRegex string

record header_match =
  hm_name :: string
  hm_value :: string

fun path_regex_source :: "path_match \<Rightarrow> string option" where
  "path_regex_source (PathRegex v) = Some v"
| "path_regex_source _ = None"

fun host_regex_source :: "host_match \<Rightarrow> string option" where
  "host_regex_source (HostRegex v) = Some v"
| "host_regex_source _ = None"

record tier_classifier_rule =
  tr_priority :: nat
  tr_tier :: tier
  tr_host :: "host_match option"
  tr_path :: "path_match option"
  tr_method :: "http_method list option"
  tr_headers :: "header_match list option"

record tier_config =
  tc_default_tier :: tier
  tc_classifier_rules :: "tier_classifier_rule list"
  tc_policies :: "tier \<rightharpoonup> tier_policy"

datatype 'e tier_config_error =
    MissingPolicy tier
  | InvalidThresholds tier
  | BadRegex nat 'e

text \<open>The regex crate is a parameter: \<open>compile src\<close> is the error of
  \<^verbatim>\<open>regex::Regex::new\<close>, or the compiled expression.\<close>

fun validate_policies ::
  "(tier \<rightharpoonup> tier_policy) \<Rightarrow> tier list \<Rightarrow> 'e tier_config_error + unit" where
  "validate_policies ps [] = Inr ()"
| "validate_policies ps (t # ts) =
     (case ps t of
        None \<Rightarrow> Inl (MissingPolicy t)
      | Some p \<Rightarrow>
          let rt = tp_risk_thresholds p
          in if \<not> (rt_allow rt < rt_challenge rt \<and> rt_challenge rt < rt_block rt)
             then Inl (InvalidThresholds t)
             else validate_policies ps ts)"

definition check_regex ::
  "(string \<Rightarrow> 'e + 're) \<Rightarrow> nat \<Rightarrow> string option \<Rightarrow> 'e tier_config_error + unit" where
  "check_regex compile idx src =
     (case src of None \<Rightarrow> Inr ()
      | Some s \<Rightarrow> (case compile s of Inl e \<Rightarrow> Inl (BadRegex idx e) | Inr _ \<Rightarrow> Inr ()))"

fun validate_rules ::
  "(string \<Rightarrow> 'e + 're) \<Rightarrow> nat \<Rightarrow> tier_classifier_rule list \<Rightarrow> 'e tier_config_error + unit" where
  "validate_rules compile idx [] = Inr ()"
| "validate_rules compile idx (r # rs) =
     (case check_regex compile idx (Option.bind (tr_path r) path_regex_source) of
        Inl e \<Rightarrow> Inl e
      | Inr _ \<Rightarrow>
          (case check_regex compile idx (Option.bind (tr_host r) host_regex_source) of
             Inl e \<Rightarrow> Inl e
           | Inr _ \<Rightarrow> validate_rules compile (Suc idx) rs))"

definition tier_config_validate ::
  "(string \<Rightarrow> 'e + 're) \<Rightarrow> tier_config \<Rightarrow> 'e tier_config_error + unit" where
  "tier_config_validate compile c =
     (case validate_policies (tc_policies c) tier_ALL of
        Inl e \<Rightarrow> Inl e
      | Inr _ \<Rightarrow> validate_rules compile 0 (tc_classifier_rules c))"

text \<open>What a valid configuration is, independently of the order of the checks.\<close>

definition thresholds_ok :: "tier_policy \<Rightarrow> bool" where
  "thresholds_ok p \<longleftrightarrow> rt_allow (tp_risk_thresholds p) < rt_challenge (tp_risk_thresholds p)
     \<and> rt_challenge (tp_risk_thresholds p) < rt_block (tp_risk_thresholds p)"

definition rule_sources :: "tier_classifier_rule \<Rightarrow> string set" where
  "rule_sources r = {s. tr_path r = Some (PathRegex s) \<or> tr_host r = Some (HostRegex s)}"

lemma validate_policies_ok:
  "validate_policies ps ts = Inr () \<longleftrightarrow> (\<forall>t\<in>set ts. \<exists>p. ps t = Some p \<and> thresholds_ok p)"
  by (induction ts) (auto simp: Let_def thresholds_ok_def split: option.splits)

lemma regex_source_iff:
  "Option.bind (tr_path r) path_regex_source = Some s \<longleftrightarrow> tr_path r = Some (PathRegex s)"
  "Option.bind (tr_host r) host_regex_source = Some s \<longleftrightarrow> tr_host r = Some (HostRegex s)"
  by (auto simp: bind_eq_Some_conv elim: path_regex_source.elims host_regex_source.elims)

lemma check_regex_ok:
  "check_regex compile i src = Inr () \<longleftrightarrow> (\<forall>s. src = Some s \<longrightarrow> \<not> isl (compile s))"
  by (auto simp: check_regex_def isl_def split: option.splits sum.splits)

lemma validate_rules_ok:
  "validate_rules compile i rs = Inr () \<longleftrightarrow> (\<forall>r\<in>set rs. \<forall>s\<in>rule_sources r. \<not> isl (compile s))"
proof (induction rs arbitrary: i)
  case (Cons r rs)
  have "validate_rules compile i (r # rs) = Inr () \<longleftrightarrow>
      check_regex compile i (Option.bind (tr_path r) path_regex_source) = Inr () \<and>
      check_regex compile i (Option.bind (tr_host r) host_regex_source) = Inr () \<and>
      validate_rules compile (Suc i) rs = Inr ()"
    by (auto split: sum.splits)
  also have "\<dots> \<longleftrightarrow> (\<forall>s\<in>rule_sources r. \<not> isl (compile s)) \<and> (\<forall>r\<in>set rs. \<forall>s\<in>rule_sources r. \<not> isl (compile s))"
    unfolding check_regex_ok regex_source_iff Cons.IH rule_sources_def by auto
  finally show ?case by simp
qed simp

lemma tier_config_validate_ok:
  "tier_config_validate compile c = Inr () \<longleftrightarrow>
     (\<forall>t. \<exists>p. tc_policies c t = Some p \<and> thresholds_ok p) \<and>
     (\<forall>r\<in>set (tc_classifier_rules c). \<forall>s\<in>rule_sources r. \<not> isl (compile s))"
proof -
  have "tier_config_validate compile c = Inr () \<longleftrightarrow>
      (validate_policies (tc_policies c) tier_ALL :: 'a tier_config_error + unit) = Inr () \<and>
      validate_rules compile 0 (tc_classifier_rules c) = Inr ()"
    by (auto simp: tier_config_validate_def split: sum.splits)
  then show ?thesis by (simp add: validate_policies_ok validate_rules_ok)
qed

section \<open>Host configuration\<close>

datatype load_balance_strategy = RoundRobin | IpHash | WeightedRoundRobin | LeastConnections

record defense_config =
  dc_bot :: bool
  dc_sqli :: bool
  dc_xss :: bool
  dc_scan :: bool
  dc_rce :: bool
  dc_sensitive :: bool
  dc_dir_traversal :: bool
  dc_owasp_set :: bool
  dc_cc :: bool
  dc_cc_rps :: rat
  dc_cc_burst :: nat
  dc_cc_ban_threshold :: nat
  dc_cc_ban_duration_secs :: nat
  dc_owasp_paranoia :: nat
  dc_block_scripted_clients :: bool

definition defense_config_default :: defense_config where
  "defense_config_default =
     \<lparr>dc_bot = True, dc_sqli = True, dc_xss = True, dc_scan = True, dc_rce = True,
      dc_sensitive = True, dc_dir_traversal = True, dc_owasp_set = False, dc_cc = True,
      dc_cc_rps = 100, dc_cc_burst = 200, dc_cc_ban_threshold = 10,
      dc_cc_ban_duration_secs = 300, dc_owasp_paranoia = 1, dc_block_scripted_clients = False\<rparr>"

record host_config =
  hc_code :: string
  hc_host :: string
  hc_port :: nat
  hc_ssl :: bool
  hc_guard_status :: bool
  hc_remote_host :: string
  hc_remote_port :: nat
  hc_remote_ip :: "string option"
  hc_cert_file :: "string option"
  hc_key_file :: "string option"
  hc_remarks :: "string option"
  hc_start_status :: bool
  hc_exclude_url_log :: "string list"
  hc_is_enable_load_balance :: bool
  hc_load_balance_strategy :: load_balance_strategy
  hc_defense_config :: defense_config
  hc_log_only_mode :: bool
  hc_block_page_template :: "string option"
  hc_preserve_host :: bool
  hc_strip_server_header :: bool
  hc_header_blocklist :: "string list"
  hc_internal_patterns :: "string list"
  hc_mask_token :: string
  hc_body_mask_max_bytes :: nat

definition host_config_default :: host_config where
  "host_config_default =
     \<lparr>hc_code = [], hc_host = [], hc_port = 80, hc_ssl = False, hc_guard_status = True,
      hc_remote_host = [], hc_remote_port = 8080, hc_remote_ip = None, hc_cert_file = None,
      hc_key_file = None, hc_remarks = None, hc_start_status = True, hc_exclude_url_log = [],
      hc_is_enable_load_balance = False, hc_load_balance_strategy = RoundRobin,
      hc_defense_config = defense_config_default, hc_log_only_mode = False,
      hc_block_page_template = None, hc_preserve_host = True, hc_strip_server_header = False,
      hc_header_blocklist = [''x-powered-by-waf'', ''x-waf-version''], hc_internal_patterns = [],
      hc_mask_token = ''[redacted]'', hc_body_mask_max_bytes = 1024 * 1024\<rparr>"

section \<open>Requests and decisions\<close>

record geo_ip_info =
  geo_country :: string
  geo_province :: string
  geo_city :: string
  geo_isp :: string
  geo_iso_code :: string

record request_ctx =
  ctx_req_id :: string
  ctx_client_ip :: ip_addr
  ctx_client_port :: nat
  ctx_method :: string
  ctx_host :: string
  ctx_port :: nat
  ctx_path :: string
  ctx_query :: string
  ctx_headers :: "string \<rightharpoonup> string"
  ctx_body_preview :: string
  ctx_content_length :: nat
  ctx_is_tls :: bool
  ctx_host_config :: host_config
  ctx_geo :: "geo_ip_info option"
  ctx_tier :: tier
  ctx_tier_policy :: tier_policy
  ctx_cookies :: "string \<rightharpoonup> string"

datatype phase =
    IpWhitelist | IpBlacklist | UrlWhitelist | UrlBlacklist | SqlInjection | Xss | Rce | Scanner
  | DirTraversal | Bot | RateLimit | CustomRule | Owasp | Sensitive | AntiHotlink | CrowdSec
  | GeoIp | Community | Ddos

primrec phase_str :: "phase \<Rightarrow> string" where
  "phase_str IpWhitelist = ''IP Whitelist''"
| "phase_str IpBlacklist = ''IP Blacklist''"
| "phase_str UrlWhitelist = ''URL Whitelist''"
| "phase_str UrlBlacklist = ''URL Blacklist''"
| "phase_str SqlInjection = ''SQL Injection''"
| "phase_str Xss = ''XSS''"
| "phase_str Rce = ''RCE''"
| "phase_str Scanner = ''Scanner''"
| "phase_str DirTraversal = ''Directory Traversal''"
| "phase_str Bot = ''Bot''"
| "phase_str RateLimit = ''Rate Limit''"
| "phase_str CustomRule = ''Custom Rule''"
| "phase_str Owasp = ''OWASP CRS''"
| "phase_str Sensitive = ''Sensitive Data''"
| "phase_str AntiHotlink = ''Anti-Hotlink''"
| "phase_str CrowdSec = ''CrowdSec''"
| "phase_str GeoIp = ''GeoIP''"
| "phase_str Community = ''Community''"
| "phase_str Ddos = ''DDoS''"

record detection_result =
  dr_rule_id :: "string option"
  dr_rule_name :: string
  dr_phase :: phase
  dr_detail :: string

datatype waf_action =
    Allow | Block nat "string option" | LogOnly | Redirect string

record waf_decision =
  wd_action :: waf_action
  wd_result :: "detection_result option"

definition waf_allow :: waf_decision where
  "waf_allow = \<lparr>wd_action = Allow, wd_result = None\<rparr>"

definition waf_block :: "nat \<Rightarrow> string option \<Rightarrow> detection_result \<Rightarrow> waf_decision" where
  "waf_block status body res = \<lparr>wd_action = Block status body, wd_result = Some res\<rparr>"

definition is_allowed :: "waf_decision \<Rightarrow> bool" where
  "is_allowed d = (case wd_action d of Allow \<Rightarrow> True | LogOnly \<Rightarrow> True | _ \<Rightarrow> False)"

section \<open>Cookie header\<close>

definition parse_pair :: "string \<Rightarrow> (string \<times> string) option" where
  "parse_pair raw =
     (let pair = trim_str raw
      in if pair = [] then None
         else (case split_once CHR ''='' pair of
                 None \<Rightarrow> None
               | Some (name, value) \<Rightarrow>
                   let name = trim_str name
                   in if name = [] then None else Some (name, trim_str value)))"

definition parse_cookie_header :: "string \<Rightarrow> (string \<rightharpoonup> string)" where
  "parse_cookie_header header =
     foldl (\<lambda>out raw. case parse_pair raw of None \<Rightarrow> out | Some (n, v) \<Rightarrow> out(n \<mapsto> v))
       Map.empty (split_on CHR '';'' header)"

text \<open>The header a client sends for a list of cookies, and the pairs it can carry.\<close>

definition cookie_text :: "string \<times> string \<Rightarrow> string" where
  "cookie_text c = fst c @ CHR ''='' # snd c"

definition clean_cookie :: "string \<times> string \<Rightarrow> bool" where
  "clean_cookie c \<longleftrightarrow> fst c \<noteq> [] \<and> CHR ''='' \<notin> set (fst c) \<and> CHR '';'' \<notin> set (fst c @ snd c)
     \<and> \<not> has_ws (fst c) \<and> \<not> has_ws (snd c) \<and> \<not> has_ws (cookie_text c)"

definition render_cookies :: "(string \<times> string) list \<Rightarrow> string" where
  "render_cookies cs = (case cs of [] \<Rightarrow> []
     | c # cs \<Rightarrow> join_with CHR '';'' (cookie_text c # map (\<lambda>c. CHR '' '' # cookie_text c) cs))"

lemma trim_space: "\<not> has_ws s \<Longrightarrow> trim_str (CHR '' '' # s) = s"
proof -
  assume s: "\<not> has_ws s"
  have "trim_start (CHR '' '' # s) = trim_start s"
    by (cases s rule: trim_start.cases) (simp_all add: ws1_def byte_def)
  then show ?thesis using s by (simp add: trim_str_def trim_start_id trim_back_id)
qed

lemma parse_pair_clean:
  assumes "clean_cookie c"
  shows "parse_pair (cookie_text c) = Some c"
    and "parse_pair (CHR '' '' # cookie_text c) = Some c"
proof -
  have "(let name = trim_str (fst c) in if name = [] then None else Some (name, trim_str (snd c))) = Some c"
    and "split_once CHR ''='' (cookie_text c) = Some (fst c, snd c)"
    and "cookie_text c \<noteq> []" and "\<not> has_ws (cookie_text c)"
    using assms by (auto simp: clean_cookie_def trim_str_id cookie_text_def split_once_append)
  then show "parse_pair (cookie_text c) = Some c" "parse_pair (CHR '' '' # cookie_text c) = Some c"
    by (simp_all add: parse_pair_def trim_str_id trim_space Let_def case_prod_beta)
qed

definition cookie_put :: "(string \<rightharpoonup> string) \<Rightarrow> string \<Rightarrow> (string \<rightharpoonup> string)" where
  "cookie_put out raw = (case parse_pair raw of None \<Rightarrow> out | Some (n, v) \<Rightarrow> out(n \<mapsto> v))"

lemma foldl_cookie_put:
  "list_all2 (\<lambda>raw c. parse_pair raw = Some c) raws cs \<Longrightarrow>
   foldl cookie_put m raws = m ++ map_of (rev cs)"
  by (induction arbitrary: m rule: list_all2_induct) (auto simp: cookie_put_def)

lemma cookie_roundtrip_map:
  assumes "\<forall>c\<in>set cs. clean_cookie c"
  shows "parse_cookie_header (render_cookies cs) = map_of (rev cs)"
proof (cases cs)
  case Nil
  then show ?thesis by (simp add: render_cookies_def parse_cookie_header_def parse_pair_def trim_str_def)
next
  case (Cons c ds)
  let ?raws = "cookie_text c # map (\<lambda>c. CHR '' '' # cookie_text c) ds"
  have "split_on CHR '';'' (render_cookies cs) = ?raws"
    unfolding Cons render_cookies_def list.case
    using assms Cons by (subst split_join) (auto simp: clean_cookie_def cookie_text_def)
  moreover have "list_all2 (\<lambda>raw c. parse_pair raw = Some c) ?raws cs"
    using assms Cons by (simp add: parse_pair_clean list.rel_map list_all2_same)
  ultimately show ?thesis
    using foldl_cookie_put [of ?raws cs Map.empty]
    by (simp only: parse_cookie_header_def cookie_put_def [abs_def]) simp
qed

end
