(* ===== verification/Access.thy ===== *)
theory Access
  imports Common
begin

text \<open>
  FR-008, the Phase-0 access gate (\<^verbatim>\<open>waf-engine/src/access\<close>): the per-tier host
  allow-list (\<^verbatim>\<open>host_gate.rs\<close>), the CIDR tables (\<^verbatim>\<open>ip_table.rs\<close>), the YAML schema with
  its validation and compilation (\<^verbatim>\<open>config.rs\<close>), the three-stage evaluator
  (\<^verbatim>\<open>evaluator.rs\<close>) and the fail-soft hot reload (\<^verbatim>\<open>reload.rs\<close>).

  The crates \<^verbatim>\<open>ipnet\<close>, \<^verbatim>\<open>ip_network\<close>, \<^verbatim>\<open>ip_network_table\<close> and \<^verbatim>\<open>serde_yaml\<close> are parameters
  (\<open>net_lib\<close>, \<open>yaml\<close>); \<open>longest_match_law\<close> is the documented meaning of
  a longest-prefix lookup: it finds a network exactly when an inserted one contains the
  address.
\<close>

section \<open>Host gate\<close>

record host_gate =
  hg_critical :: "string list"
  hg_high :: "string list"
  hg_medium :: "string list"
  hg_catch_all :: "string list"

definition hg_new :: host_gate where
  "hg_new = \<lparr>hg_critical = [], hg_high = [], hg_medium = [], hg_catch_all = []\<rparr>"

fun hg_set :: "host_gate \<Rightarrow> tier \<Rightarrow> string list" where
  "hg_set g Critical = hg_critical g"
| "hg_set g High = hg_high g"
| "hg_set g Medium = hg_medium g"
| "hg_set g CatchAll = hg_catch_all g"

fun hg_set_mut :: "host_gate \<Rightarrow> tier \<Rightarrow> (string list \<Rightarrow> string list) \<Rightarrow> host_gate" where
  "hg_set_mut g Critical f = g\<lparr>hg_critical := f (hg_critical g)\<rparr>"
| "hg_set_mut g High f = g\<lparr>hg_high := f (hg_high g)\<rparr>"
| "hg_set_mut g Medium f = g\<lparr>hg_medium := f (hg_medium g)\<rparr>"
| "hg_set_mut g CatchAll f = g\<lparr>hg_catch_all := f (hg_catch_all g)\<rparr>"

definition hg_insert :: "tier \<Rightarrow> string \<Rightarrow> host_gate \<Rightarrow> host_gate" where
  "hg_insert t h g = hg_set_mut g t (List.insert (to_ascii_lowercase (trim_str h)))"

definition hg_lookup_key :: "string \<Rightarrow> string" where
  "hg_lookup_key host_header =
     to_ascii_lowercase (trim_str (hd (split_on CHR '':'' host_header)))"

definition hg_is_allowed :: "host_gate \<Rightarrow> tier \<Rightarrow> string \<Rightarrow> bool" where
  "hg_is_allowed g t host_header =
     (if hg_set g t = [] then True else hg_lookup_key host_header \<in> set (hg_set g t))"

definition hg_is_disabled_for :: "host_gate \<Rightarrow> tier \<Rightarrow> bool" where
  "hg_is_disabled_for g t \<longleftrightarrow> hg_set g t = []"

lemma hg_set_new [simp]: "hg_set hg_new t = []"
  by (cases t) (simp_all add: hg_new_def)

lemma hg_set_insert:
  "hg_set (hg_insert t h g) t' =
     (if t' = t then List.insert (to_ascii_lowercase (trim_str h)) (hg_set g t') else hg_set g t')"
  by (cases t; cases t') (simp_all add: hg_insert_def)

section \<open>CIDR tables\<close>

record ('n, 't) net_lib =
  ipnet_from_str_ok :: "string \<Rightarrow> bool"
  net_from_str :: "string \<Rightarrow> 'n option"
  net_new :: "ip_addr \<Rightarrow> nat \<Rightarrow> 'n option"
  tbl_new :: 't
  tbl_insert :: "'t \<Rightarrow> 'n \<Rightarrow> 't"
  tbl_longest_match :: "'t \<Rightarrow> ip_addr \<Rightarrow> 'n option"

record 't ip_cidr_table =
  ict_table :: 't
  ict_len :: nat

definition ict_new :: "('n, 't) net_lib \<Rightarrow> 't ip_cidr_table" where
  "ict_new lib = \<lparr>ict_table = tbl_new lib, ict_len = 0\<rparr>"

definition parse_network :: "('n, 't) net_lib \<Rightarrow> string \<Rightarrow> 'n option" where
  "parse_network lib raw =
     (case net_from_str lib raw of
        Some net \<Rightarrow> Some net
      | None \<Rightarrow>
          (case ip_from_str raw of
             None \<Rightarrow> None
           | Some ip \<Rightarrow> net_new lib ip (case ip of V4 _ _ _ _ \<Rightarrow> 32 | V6 _ _ _ _ _ _ _ _ \<Rightarrow> 128)))"

definition ict_insert_str ::
  "('n, 't) net_lib \<Rightarrow> string \<Rightarrow> 't ip_cidr_table \<Rightarrow> 't ip_cidr_table option" where
  "ict_insert_str lib raw t =
     (case parse_network lib raw of
        None \<Rightarrow> None
      | Some net \<Rightarrow> Some \<lparr>ict_table = tbl_insert lib (ict_table t) net, ict_len = ict_len t + 1\<rparr>)"

definition ict_contains :: "('n, 't) net_lib \<Rightarrow> 't ip_cidr_table \<Rightarrow> ip_addr \<Rightarrow> bool" where
  "ict_contains lib t ip \<longleftrightarrow> tbl_longest_match lib (ict_table t) ip \<noteq> None"

section \<open>Configuration\<close>

datatype whitelist_mode = FullBypass | BlacklistOnly

record access_config =
  ac_version :: nat
  ac_dry_run :: bool
  ac_ip_whitelist :: "string list"
  ac_ip_blacklist :: "string list"
  ac_host_whitelist :: "(tier, string list) amap"
  ac_tier_whitelist_mode :: "tier \<rightharpoonup> whitelist_mode"

datatype host_error = EmptyHost | PortSuffix | Whitespace | Uppercase

datatype 'y access_error =
    YamlError 'y
  | UnsupportedVersion nat
  | TooManyEntries nat
  | BadWhitelistEntry nat string
  | BadBlacklistEntry nat string
  | BadHost tier nat string host_error
  | WhitelistInsert string
  | BlacklistInsert string
  | ReadError

definition supported_version :: nat where "supported_version = 1"
definition hard_reject_entries :: nat where "hard_reject_entries = 500000"

definition parse_cidr_or_ip_ok :: "('n, 't) net_lib \<Rightarrow> string \<Rightarrow> bool" where
  "parse_cidr_or_ip_ok lib s \<longleftrightarrow> ipnet_from_str_ok lib s \<or> ip_from_str s \<noteq> None"

definition validate_host :: "string \<Rightarrow> host_error option" where
  "validate_host h =
     (if h = [] then Some EmptyHost
      else if CHR '':'' \<in> set h then Some PortSuffix
      else if has_ws h then Some Whitespace
      else if \<exists>c\<in>set h. is_upper c then Some Uppercase
      else None)"

fun validate_entries ::
  "(string \<Rightarrow> bool) \<Rightarrow> (nat \<Rightarrow> string \<Rightarrow> 'y access_error) \<Rightarrow> nat \<Rightarrow> string list \<Rightarrow> 'y access_error option" where
  "validate_entries ok err idx [] = None"
| "validate_entries ok err idx (e # es) =
     (if ok e then validate_entries ok err (Suc idx) es else Some (err idx e))"

fun validate_hosts :: "tier \<Rightarrow> nat \<Rightarrow> string list \<Rightarrow> 'y access_error option" where
  "validate_hosts t idx [] = None"
| "validate_hosts t idx (h # hs) =
     (case validate_host h of
        Some e \<Rightarrow> Some (BadHost t idx h e)
      | None \<Rightarrow> validate_hosts t (Suc idx) hs)"

fun validate_host_lists :: "(tier, string list) amap \<Rightarrow> 'y access_error option" where
  "validate_host_lists [] = None"
| "validate_host_lists ((t, hs) # m) =
     (case validate_hosts t 0 hs of Some e \<Rightarrow> Some e | None \<Rightarrow> validate_host_lists m)"

definition access_validate :: "('n, 't) net_lib \<Rightarrow> access_config \<Rightarrow> 'y access_error option" where
  "access_validate lib c =
     (if ac_version c \<noteq> supported_version then Some (UnsupportedVersion (ac_version c))
      else let total = length (ac_ip_whitelist c) + length (ac_ip_blacklist c)
      in if hard_reject_entries < total then Some (TooManyEntries total)
      else case validate_entries (parse_cidr_or_ip_ok lib) BadWhitelistEntry 0 (ac_ip_whitelist c) of
        Some e \<Rightarrow> Some e
      | None \<Rightarrow>
      (case validate_entries (parse_cidr_or_ip_ok lib) BadBlacklistEntry 0 (ac_ip_blacklist c) of
        Some e \<Rightarrow> Some e
      | None \<Rightarrow> validate_host_lists (ac_host_whitelist c)))"

record 't access_lists =
  al_config :: access_config
  al_ip_whitelist :: "'t ip_cidr_table"
  al_ip_blacklist :: "'t ip_cidr_table"
  al_host_gate :: host_gate

definition access_config_default :: access_config where
  "access_config_default =
     \<lparr>ac_version = 0, ac_dry_run = False, ac_ip_whitelist = [], ac_ip_blacklist = [],
      ac_host_whitelist = [], ac_tier_whitelist_mode = Map.empty\<rparr>"

definition access_lists_empty :: "('n, 't) net_lib \<Rightarrow> 't access_lists" where
  "access_lists_empty lib =
     \<lparr>al_config = access_config_default\<lparr>ac_version := supported_version\<rparr>,
      al_ip_whitelist = ict_new lib, al_ip_blacklist = ict_new lib, al_host_gate = hg_new\<rparr>"

fun insert_entries ::
  "('n, 't) net_lib \<Rightarrow> (string \<Rightarrow> 'y access_error) \<Rightarrow> string list \<Rightarrow> 't ip_cidr_table \<Rightarrow>
     'y access_error + 't ip_cidr_table" where
  "insert_entries lib err [] t = Inr t"
| "insert_entries lib err (e # es) t =
     (case ict_insert_str lib e t of
        None \<Rightarrow> Inl (err e)
      | Some t' \<Rightarrow> insert_entries lib err es t')"

definition insert_hosts :: "(tier, string list) amap \<Rightarrow> host_gate \<Rightarrow> host_gate" where
  "insert_hosts m g = foldl (\<lambda>g (t, hs). foldl (\<lambda>g h. hg_insert t h g) g hs) g m"

definition from_yaml_str ::
  "('n, 't) net_lib \<Rightarrow> (string \<Rightarrow> 'y + access_config) \<Rightarrow> string \<Rightarrow> 'y access_error + 't access_lists" where
  "from_yaml_str lib yaml s =
     (case yaml s of
        Inl e \<Rightarrow> Inl (YamlError e)
      | Inr config \<Rightarrow>
          (case access_validate lib config of
             Some e \<Rightarrow> Inl e
           | None \<Rightarrow>
               (case insert_entries lib WhitelistInsert (ac_ip_whitelist config) (ict_new lib) of
                  Inl e \<Rightarrow> Inl e
                | Inr wl \<Rightarrow>
                    (case insert_entries lib BlacklistInsert (ac_ip_blacklist config) (ict_new lib) of
                       Inl e \<Rightarrow> Inl e
                     | Inr bl \<Rightarrow>
                         Inr \<lparr>al_config = config, al_ip_whitelist = wl, al_ip_blacklist = bl,
                              al_host_gate = insert_hosts (ac_host_whitelist config) hg_new\<rparr>))))"

definition tier_mode :: "'t access_lists \<Rightarrow> tier \<Rightarrow> whitelist_mode" where
  "tier_mode l t = (case ac_tier_whitelist_mode (al_config l) t of Some m \<Rightarrow> m | None \<Rightarrow> BlacklistOnly)"

text \<open>\<^verbatim>\<open>reload\<close>: the file system is the parameter \<open>read\<close>; the store is the live snapshot.\<close>

definition reload ::
  "('n, 't) net_lib \<Rightarrow> (string \<Rightarrow> 'y + access_config) \<Rightarrow> (string \<Rightarrow> string option) \<Rightarrow> string \<Rightarrow>
     't access_lists \<Rightarrow> 't access_lists" where
  "reload lib yaml read path store =
     (case (case read path of None \<Rightarrow> Inl ReadError | Some body \<Rightarrow> from_yaml_str lib yaml body) of
        Inr new \<Rightarrow> new
      | Inl _ \<Rightarrow> store)"

section \<open>Evaluator\<close>

datatype block_reason = HostGate | IpBlacklistHit

datatype access_decision =
    Continue
  | BypassAll string
  | AccessBlock block_reason string bool nat

record access_view =
  av_client_ip :: ip_addr
  av_host :: string
  av_tier :: tier

definition block_status :: nat where "block_status = 403"

definition evaluate :: "('n, 't) net_lib \<Rightarrow> 't access_lists \<Rightarrow> access_view \<Rightarrow> access_decision" where
  "evaluate lib l v =
     (let dry_run = ac_dry_run (al_config l) in
      if \<not> hg_is_allowed (al_host_gate l) (av_tier v) (av_host v)
      then AccessBlock HostGate (av_host v) dry_run block_status
      else if ict_contains lib (al_ip_blacklist l) (av_client_ip v)
      then AccessBlock IpBlacklistHit (show_ip (av_client_ip v)) dry_run block_status
      else if ict_contains lib (al_ip_whitelist l) (av_client_ip v)
      then (case tier_mode l (av_tier v) of
              FullBypass \<Rightarrow> BypassAll (show_ip (av_client_ip v))
            | BlacklistOnly \<Rightarrow> Continue)
      else Continue)"

fun block_reason_str :: "block_reason \<Rightarrow> string" where
  "block_reason_str HostGate = ''host_gate''"
| "block_reason_str IpBlacklistHit = ''ip_blacklist''"

fun audit_fields :: "access_decision \<Rightarrow> string \<times> string" where
  "audit_fields Continue = (''continue'', [])"
| "audit_fields (BypassAll m) = (''bypass_all'', m)"
| "audit_fields (AccessBlock r m _ _) = (block_reason_str r, m)"

section \<open>What a loaded configuration means\<close>

definition longest_match_law :: "('n, 't) net_lib \<Rightarrow> ('n \<Rightarrow> ip_addr \<Rightarrow> bool) \<Rightarrow> bool" where
  "longest_match_law lib covers \<longleftrightarrow>
     (\<forall>ns ip. tbl_longest_match lib (foldl (tbl_insert lib) (tbl_new lib) ns) ip \<noteq> None
        \<longleftrightarrow> (\<exists>n\<in>set ns. covers n ip))"

definition entry_covers ::
  "('n, 't) net_lib \<Rightarrow> ('n \<Rightarrow> ip_addr \<Rightarrow> bool) \<Rightarrow> string \<Rightarrow> ip_addr \<Rightarrow> bool" where
  "entry_covers lib covers e ip \<longleftrightarrow> (\<exists>n. parse_network lib e = Some n \<and> covers n ip)"

lemma insert_entries_networks:
  "insert_entries lib err es t = Inr t' \<Longrightarrow>
   \<exists>ns. list_all2 (\<lambda>e n. parse_network lib e = Some n) es ns
      \<and> ict_table t' = foldl (tbl_insert lib) (ict_table t) ns
      \<and> ict_len t' = ict_len t + length es"
proof (induction es arbitrary: t)
  case (Cons e es)
  then obtain n where n: "parse_network lib e = Some n"
    and rest: "insert_entries lib err es
        \<lparr>ict_table = tbl_insert lib (ict_table t) n, ict_len = ict_len t + 1\<rparr> = Inr t'"
    by (auto simp: ict_insert_str_def split: option.splits)
  from Cons.IH [OF rest] obtain ns where
    "list_all2 (\<lambda>e n. parse_network lib e = Some n) es ns"
    "ict_table t' = foldl (tbl_insert lib) (tbl_insert lib (ict_table t) n) ns"
    "ict_len t' = ict_len t + 1 + length es" by auto
  with n show ?case by (intro exI [of _ "n # ns"]) simp
qed auto

lemma insert_entries_contains:
  assumes law: "longest_match_law lib covers"
    and ok: "insert_entries lib err es (ict_new lib) = Inr t"
  shows "ict_contains lib t ip \<longleftrightarrow> (\<exists>e\<in>set es. entry_covers lib covers e ip)"
proof -
  obtain ns where ns: "list_all2 (\<lambda>e n. parse_network lib e = Some n) es ns"
    and t: "ict_table t = foldl (tbl_insert lib) (tbl_new lib) ns"
    using insert_entries_networks [OF ok] by (auto simp: ict_new_def)
  have "ict_contains lib t ip \<longleftrightarrow> (\<exists>n\<in>set ns. covers n ip)"
    using law by (simp add: ict_contains_def t longest_match_law_def)
  also have "\<dots> \<longleftrightarrow> (\<exists>e\<in>set es. entry_covers lib covers e ip)"
    using ns by (induction rule: list_all2_induct) (auto simp: entry_covers_def)
  finally show ?thesis .
qed

lemma set_insert_hosts_aux:
  "set (hg_set (foldl (\<lambda>g h. hg_insert t h g) g hs) t') =
     set (hg_set g t') \<union> (if t' = t then (\<lambda>h. to_ascii_lowercase (trim_str h)) ` set hs else {})"
  by (induction hs arbitrary: g) (auto simp: hg_set_insert)

lemma set_insert_hosts:
  "set (hg_set (insert_hosts m g) t) =
     set (hg_set g t) \<union> {to_ascii_lowercase (trim_str h) | h hs. (t, hs) \<in> set m \<and> h \<in> set hs}"
proof (induction m arbitrary: g)
  case (Cons p m)
  obtain t' hs' where p: "p = (t', hs')" by (cases p)
  have "insert_hosts (p # m) g = insert_hosts m (foldl (\<lambda>g h. hg_insert t' h g) g hs')"
    by (simp add: insert_hosts_def p)
  then show ?case by (auto simp: Cons.IH set_insert_hosts_aux p)
qed (simp add: insert_hosts_def)

definition configured_hosts :: "access_config \<Rightarrow> tier \<Rightarrow> string set" where
  "configured_hosts c t = {h. \<exists>hs. (t, hs) \<in> set (ac_host_whitelist c) \<and> h \<in> set hs}"

lemma validate_hosts_None: "validate_hosts t i hs = None \<longleftrightarrow> (\<forall>h\<in>set hs. validate_host h = None)"
  by (induction hs arbitrary: i) (auto split: option.splits)

lemma validate_host_lists_None:
  "validate_host_lists m = (None :: 'y access_error option) \<longleftrightarrow> (\<forall>(t, hs)\<in>set m. \<forall>h\<in>set hs. validate_host h = None)"
proof (induction m)
  case (Cons p m)
  obtain t hs where p: "p = (t, hs)" by (cases p)
  show ?case
  proof (cases "validate_hosts t 0 hs :: 'y access_error option")
    case None
    then have "\<forall>h\<in>set hs. validate_host h = None" by (simp only: validate_hosts_None)
    then show ?thesis using Cons None by (simp add: p)
  next
    case (Some e)
    then have "\<not> (\<forall>h\<in>set hs. validate_host h = None)"
      by (metis option.distinct(1) validate_hosts_None)
    then show ?thesis using Some by (simp add: p)
  qed
qed simp

lemma validate_entries_None: "validate_entries ok err i es = None \<longleftrightarrow> (\<forall>e\<in>set es. ok e)"
  by (induction es arbitrary: i) auto

lemma access_validate_None:
  "access_validate lib c = (None :: 'y access_error option) \<longleftrightarrow>
     ac_version c = supported_version
   \<and> length (ac_ip_whitelist c) + length (ac_ip_blacklist c) \<le> hard_reject_entries
   \<and> (\<forall>e\<in>set (ac_ip_whitelist c) \<union> set (ac_ip_blacklist c). parse_cidr_or_ip_ok lib e)
   \<and> (\<forall>t. \<forall>h\<in>configured_hosts c t. validate_host h = None)"
proof -
  have "access_validate lib c = (None :: 'y access_error option) \<longleftrightarrow>
     ac_version c = supported_version
   \<and> length (ac_ip_whitelist c) + length (ac_ip_blacklist c) \<le> hard_reject_entries
   \<and> validate_entries (parse_cidr_or_ip_ok lib) BadWhitelistEntry 0 (ac_ip_whitelist c) = (None :: 'y access_error option)
   \<and> validate_entries (parse_cidr_or_ip_ok lib) BadBlacklistEntry 0 (ac_ip_blacklist c) = (None :: 'y access_error option)
   \<and> validate_host_lists (ac_host_whitelist c) = (None :: 'y access_error option)"
    by (auto simp: access_validate_def Let_def split: option.splits)
  then show ?thesis
    unfolding validate_entries_None validate_host_lists_None configured_hosts_def by auto
qed

lemma validate_host_normal: "validate_host h = None \<Longrightarrow> to_ascii_lowercase (trim_str h) = h"
  by (auto simp: validate_host_def trim_str_id lower_id split: if_splits)

lemma from_yaml_strD:
  fixes yaml :: "string \<Rightarrow> 'y + access_config"
  assumes "from_yaml_str lib yaml s = Inr l"
  shows "yaml s = Inr (al_config l)"
    and "access_validate lib (al_config l) = (None :: 'y access_error option)"
    and "insert_entries lib (WhitelistInsert :: string \<Rightarrow> 'y access_error)
           (ac_ip_whitelist (al_config l)) (ict_new lib) = Inr (al_ip_whitelist l)"
    and "insert_entries lib (BlacklistInsert :: string \<Rightarrow> 'y access_error)
           (ac_ip_blacklist (al_config l)) (ict_new lib) = Inr (al_ip_blacklist l)"
    and "al_host_gate l = insert_hosts (ac_host_whitelist (al_config l)) hg_new"
  using assms by (auto simp: from_yaml_str_def split: sum.splits option.splits)

lemma loaded_tables:
  fixes yaml :: "string \<Rightarrow> 'y + access_config"
  assumes "longest_match_law lib covers" and "from_yaml_str lib yaml s = Inr l"
  shows "ict_contains lib (al_ip_blacklist l) ip \<longleftrightarrow>
           (\<exists>e\<in>set (ac_ip_blacklist (al_config l)). entry_covers lib covers e ip)"
    and "ict_contains lib (al_ip_whitelist l) ip \<longleftrightarrow>
           (\<exists>e\<in>set (ac_ip_whitelist (al_config l)). entry_covers lib covers e ip)"
  using insert_entries_contains [OF assms(1)] from_yaml_strD(3,4) [OF assms(2)] by blast+

lemma loaded_hosts:
  fixes yaml :: "string \<Rightarrow> 'y + access_config"
  assumes "from_yaml_str lib yaml s = Inr l"
  shows "set (hg_set (al_host_gate l) t) = configured_hosts (al_config l) t"
proof -
  have ok: "\<forall>h\<in>configured_hosts (al_config l) t. to_ascii_lowercase (trim_str h) = h"
    using from_yaml_strD(2) [OF assms] by (auto simp: access_validate_None validate_host_normal)
  have "set (hg_set (al_host_gate l) t) =
      (\<lambda>h. to_ascii_lowercase (trim_str h)) ` configured_hosts (al_config l) t"
    unfolding from_yaml_strD(5) [OF assms] set_insert_hosts configured_hosts_def by auto
  also have "\<dots> = configured_hosts (al_config l) t" using ok by force
  finally show ?thesis .
qed

lemma loaded_gate:
  fixes yaml :: "string \<Rightarrow> 'y + access_config"
  assumes "from_yaml_str lib yaml s = Inr l"
  shows "hg_is_allowed (al_host_gate l) t h \<longleftrightarrow>
           configured_hosts (al_config l) t = {} \<or> hg_lookup_key h \<in> configured_hosts (al_config l) t"
  using loaded_hosts [OF assms, of t] by (auto simp: hg_is_allowed_def)

section \<open>Properties\<close>

text \<open>C9. A loaded access list decides exactly as its configuration says: a request is
  denied at the host gate when its tier lists hosts and the normalised Host header is not
  among them; otherwise denied when a configured blacklist entry covers the client address,
  whatever the whitelist says; otherwise bypassed only when a whitelist entry covers it and
  the tier opted into full bypass; otherwise it continues to the rule pipeline.\<close>

theorem loaded_access_decision:
  fixes yaml :: "string \<Rightarrow> 'y + access_config"
  assumes law: "longest_match_law lib covers" and load: "from_yaml_str lib yaml s = Inr l"
  defines "c \<equiv> al_config l"
  shows "evaluate lib l v =
     (if configured_hosts c (av_tier v) \<noteq> {} \<and> hg_lookup_key (av_host v) \<notin> configured_hosts c (av_tier v)
      then AccessBlock HostGate (av_host v) (ac_dry_run c) 403
      else if \<exists>e\<in>set (ac_ip_blacklist c). entry_covers lib covers e (av_client_ip v)
      then AccessBlock IpBlacklistHit (show_ip (av_client_ip v)) (ac_dry_run c) 403
      else if (\<exists>e\<in>set (ac_ip_whitelist c). entry_covers lib covers e (av_client_ip v))
              \<and> ac_tier_whitelist_mode c (av_tier v) = Some FullBypass
      then BypassAll (show_ip (av_client_ip v))
      else Continue)"
  unfolding evaluate_def Let_def loaded_gate [OF load] loaded_tables [OF law load] tier_mode_def
    block_status_def c_def
  by (auto split: option.splits whitelist_mode.splits)

text \<open>Every host an operator configures for a tier is admitted by the loaded gate, sent
  as configured, with a port suffix, in any ASCII case or padded with spaces.\<close>

theorem configured_host_admitted:
  fixes yaml :: "string \<Rightarrow> 'y + access_config"
  assumes load: "from_yaml_str lib yaml s = Inr l"
    and host: "h \<in> configured_hosts (al_config l) t"
    and sent: "to_ascii_lowercase (trim_str h') = h" "CHR '':'' \<notin> set h'"
  shows "hg_is_allowed (al_host_gate l) t h' \<and> hg_is_allowed (al_host_gate l) t (h' @ CHR '':'' # port)
     \<and> to_ascii_lowercase (trim_str h) = h"
proof -
  have "hg_lookup_key h' = h" "hg_lookup_key (h' @ CHR '':'' # port) = h"
    using sent by (simp_all add: hg_lookup_key_def split_on_none split_on_append)
  moreover have "to_ascii_lowercase (trim_str h) = h"
    using from_yaml_strD(2) [OF load] host by (auto simp: access_validate_None validate_host_normal)
  ultimately show ?thesis using loaded_gate [OF load] host by simp
qed

text \<open>C28. Hot reload is fail-soft: the live snapshot is replaced only by lists compiled from
  a configuration that passed validation, and is kept unchanged on any read, parse,
  validation or compilation error.\<close>

theorem reload_fail_soft:
  fixes yaml :: "string \<Rightarrow> 'y + access_config"
  shows "(reload lib yaml read path store = store
            \<and> (\<forall>body l. read path = Some body \<longrightarrow> from_yaml_str lib yaml body = Inr l \<longrightarrow> l = store))
       \<or> (\<exists>body c. read path = Some body \<and> yaml body = Inr c
            \<and> from_yaml_str lib yaml body = Inr (reload lib yaml read path store)
            \<and> al_config (reload lib yaml read path store) = c
            \<and> access_validate lib c = (None :: 'y access_error option))"
proof (cases "read path")
  case None
  then show ?thesis by (simp add: reload_def)
next
  case (Some body)
  show ?thesis
  proof (cases "from_yaml_str lib yaml body")
    case (Inl e)
    then show ?thesis using Some by (simp add: reload_def)
  next
    case (Inr l)
    then have "reload lib yaml read path store = l" using Some by (simp add: reload_def)
    then show ?thesis using Some Inr from_yaml_strD(1,2) [OF Inr] by auto
  qed
qed

section \<open>Witnesses\<close>

text \<open>A table library that stores host routes only.\<close>

definition host_lib :: "(ip_addr, ip_addr list) net_lib" where
  "host_lib = \<lparr>ipnet_from_str_ok = (\<lambda>_. False), net_from_str = (\<lambda>_. None),
     net_new = (\<lambda>ip _. Some ip), tbl_new = [], tbl_insert = (\<lambda>t n. n # t),
     tbl_longest_match = (\<lambda>t ip. if ip \<in> set t then Some ip else None)\<rparr>"

definition sample_config :: access_config where
  "sample_config = \<lparr>ac_version = 1, ac_dry_run = False, ac_ip_whitelist = [''10.0.0.1''],
     ac_ip_blacklist = [''10.0.0.1''], ac_host_whitelist = [(Critical, [''shop''])],
     ac_tier_whitelist_mode = [Critical \<mapsto> FullBypass]\<rparr>"

definition sample_yaml :: "string \<Rightarrow> unit + access_config" where
  "sample_yaml s = Inr sample_config"

lemma host_lib_law: "longest_match_law host_lib (=)"
proof -
  have "set (foldl (\<lambda>t n. n # t) t ns) = set ns \<union> set t" for t and ns :: "ip_addr list"
    by (induction ns arbitrary: t) auto
  then show ?thesis by (auto simp: longest_match_law_def host_lib_def)
qed

definition sample_lists :: "ip_addr list access_lists" where
  "sample_lists = \<lparr>al_config = sample_config,
     al_ip_whitelist = \<lparr>ict_table = [V4 10 0 0 1], ict_len = 1\<rparr>,
     al_ip_blacklist = \<lparr>ict_table = [V4 10 0 0 1], ict_len = 1\<rparr>,
     al_host_gate = hg_new\<lparr>hg_critical := [''shop'']\<rparr>\<rparr>"

lemma ten_parses: "ip_from_str ''10.0.0.1'' = Some (V4 10 0 0 1)"
  by code_simp

lemma shop_normal: "to_ascii_lowercase (trim_str ''shop'') = ''shop''" "validate_host ''shop'' = None"
  by code_simp+

lemma sample_loads: "from_yaml_str host_lib sample_yaml [] = Inr sample_lists"
  by (simp add: from_yaml_str_def sample_yaml_def sample_config_def sample_lists_def access_validate_def
      supported_version_def hard_reject_entries_def parse_cidr_or_ip_ok_def ten_parses shop_normal
      ict_insert_str_def parse_network_def ict_new_def host_lib_def insert_hosts_def hg_insert_def hg_new_def)

theorem loaded_access_decision_witness:
  "longest_match_law host_lib (=) \<and> from_yaml_str host_lib sample_yaml [] = Inr sample_lists
   \<and> evaluate host_lib sample_lists \<lparr>av_client_ip = V4 10 0 0 1, av_host = ''shop'', av_tier = Critical\<rparr>
       = AccessBlock IpBlacklistHit ''10.0.0.1'' False 403"
proof -
  have e: "entry_covers host_lib (=) ''10.0.0.1'' (V4 10 0 0 1)"
    by (simp add: entry_covers_def parse_network_def host_lib_def ten_parses)
  have k: "hg_lookup_key ''shop'' = ''shop''" by code_simp
  have i: "show_ip (V4 10 0 0 1) = ''10.0.0.1''" by code_simp
  show ?thesis
    using host_lib_law sample_loads e k i
      loaded_access_decision [OF host_lib_law sample_loads,
        of "\<lparr>av_client_ip = V4 10 0 0 1, av_host = ''shop'', av_tier = Critical\<rparr>"]
    by (simp add: sample_lists_def sample_config_def configured_hosts_def)
qed

theorem configured_host_admitted_witness:
  "hg_is_allowed (al_host_gate sample_lists) Critical ''SHOP''
   \<and> hg_is_allowed (al_host_gate sample_lists) Critical ''SHOP:8443''"
proof -
  have h: "''shop'' \<in> configured_hosts (al_config sample_lists) Critical"
    by (simp add: configured_hosts_def sample_lists_def sample_config_def)
  have n: "to_ascii_lowercase (trim_str ''SHOP'') = ''shop''" by code_simp
  show ?thesis
    using configured_host_admitted [OF sample_loads h n, of "''8443''"] by simp
qed

theorem reload_fail_soft_witness:
  "reload host_lib sample_yaml (\<lambda>_. None) [] sample_lists = sample_lists
   \<and> reload host_lib sample_yaml (\<lambda>_. Some []) [] (access_lists_empty host_lib) = sample_lists"
  using reload_fail_soft [of host_lib sample_yaml "\<lambda>_. None" "[]" sample_lists]
    reload_fail_soft [of host_lib sample_yaml "\<lambda>_. Some []" "[]" "access_lists_empty host_lib"] sample_loads
  by (auto simp: reload_def)

end
