(* ===== verification/RateAlgo.thy ===== *)
theory RateAlgo
  imports Common
begin

text \<open>
  The two rate-limit algorithms of \<^verbatim>\<open>checks/rate_limit/algo\<close>, as pure state transformers:
  the token bucket (\<^verbatim>\<open>token_bucket.rs\<close>) and the two-bucket sliding window
  (\<^verbatim>\<open>sliding_window.rs\<close>).  Floating-point operations round by \<^const>\<open>f64_rnd\<close> where the
  code's \<open>f64\<close> operations round.  Clock values are \<open>i64\<close> milliseconds; they come from the
  epoch clock, so their differences stay within \<open>i64\<close>.  The lemmas bound what each algorithm
  admits, rounding included, and show what a window of zero length does.
\<close>

section \<open>Limits\<close>

record limit_cfg =
  lc_burst_capacity :: nat
  lc_burst_refill_per_s :: rat
  lc_window_secs :: nat
  lc_window_limit :: nat

text \<open>The values a \<open>u32\<close> and a non-negative finite \<open>f64\<close> can take.\<close>

definition limit_ok :: "limit_cfg \<Rightarrow> bool" where
  "limit_ok c \<longleftrightarrow> lc_burst_capacity c \<le> u32_max \<and> 0 \<le> lc_burst_refill_per_s c
     \<and> lc_window_secs c \<le> u32_max \<and> lc_window_limit c \<le> u32_max"

section \<open>Token bucket\<close>

record token_bucket =
  tb_tokens :: rat
  tb_last_check_ms :: int

definition tb_new_full :: "limit_cfg \<Rightarrow> int \<Rightarrow> token_bucket" where
  "tb_new_full cfg now = \<lparr>tb_tokens = of_nat (lc_burst_capacity cfg), tb_last_check_ms = now\<rparr>"

definition tb_refill :: "limit_cfg \<Rightarrow> int \<Rightarrow> rat" where
  "tb_refill cfg delta_ms =
     (let seconds = f64_rnd (f64_rnd (of_int delta_ms) / 1000)
      in f64_rnd (seconds * lc_burst_refill_per_s cfg))"

definition tb_try_consume :: "limit_cfg \<Rightarrow> int \<Rightarrow> token_bucket \<Rightarrow> bool \<times> token_bucket" where
  "tb_try_consume cfg now tb =
     (let delta_ms = max (now - tb_last_check_ms tb) 0;
          capacity = of_nat (lc_burst_capacity cfg);
          tokens = min (f64_rnd (tb_tokens tb + tb_refill cfg delta_ms)) capacity
      in if 1 \<le> tokens
         then (True, \<lparr>tb_tokens = f64_rnd (tokens - 1), tb_last_check_ms = now\<rparr>)
         else (False, \<lparr>tb_tokens = tokens, tb_last_check_ms = now\<rparr>))"

text \<open>The bucket never holds a negative amount or more than its capacity.\<close>

definition tb_ok :: "limit_cfg \<Rightarrow> token_bucket \<Rightarrow> bool" where
  "tb_ok cfg tb \<longleftrightarrow> 0 \<le> tb_tokens tb \<and> tb_tokens tb \<le> of_nat (lc_burst_capacity cfg)"

lemma u32_exact: "n \<le> u32_max \<Longrightarrow> n \<le> 2 ^ 53"
  by (simp add: u32_max_def)

lemma tb_refill_nonneg: "limit_ok cfg \<Longrightarrow> 0 \<le> d \<Longrightarrow> 0 \<le> tb_refill cfg d"
  by (simp add: tb_refill_def limit_ok_def f64.nonneg)

lemma tb_refill_0 [simp]: "tb_refill cfg 0 = 0"
  by (simp add: tb_refill_def f64.zero)

lemma tb_new_full_ok: "tb_ok cfg (tb_new_full cfg now)"
  by (simp add: tb_ok_def tb_new_full_def)

lemma tb_try_consume_ok:
  assumes "limit_ok cfg" and "tb_ok cfg tb"
  shows "tb_ok cfg (snd (tb_try_consume cfg now tb))"
proof -
  let ?c = "lc_burst_capacity cfg"
  let ?t = "min (f64_rnd (tb_tokens tb + tb_refill cfg (max (now - tb_last_check_ms tb) 0))) (of_nat ?c)"
  have "0 \<le> tb_tokens tb + tb_refill cfg (max (now - tb_last_check_ms tb) 0)"
    using assms tb_refill_nonneg [of cfg "max (now - tb_last_check_ms tb) 0"] by (simp add: tb_ok_def)
  then have t: "0 \<le> ?t" "?t \<le> of_nat ?c" using f64.nonneg by auto
  moreover have "1 \<le> ?t \<Longrightarrow> 0 \<le> f64_rnd (?t - 1) \<and> f64_rnd (?t - 1) \<le> of_nat ?c"
    using assms(1) t f64.nonneg [of "?t - 1"] f64.le_nat [of "?t - 1" ?c]
    by (auto simp: limit_ok_def dest: u32_exact)
  ultimately show ?thesis by (auto simp: tb_try_consume_def tb_ok_def Let_def)
qed

lemma tb_consume_at_rest:
  assumes "limit_ok cfg" and "n \<le> lc_burst_capacity cfg"
  shows "tb_try_consume cfg now \<lparr>tb_tokens = of_nat n, tb_last_check_ms = now\<rparr> =
     (0 < n, \<lparr>tb_tokens = of_nat (n - 1), tb_last_check_ms = now\<rparr>)"
proof -
  have n: "n \<le> 2 ^ 53" using assms by (simp add: limit_ok_def u32_max_def)
  then have "f64_rnd (of_nat n) = of_nat n" "f64_rnd (of_nat (n - 1)) = of_nat (n - 1)"
    by (intro f64.exact; simp)+
  moreover have "min (of_nat n) (of_nat (lc_burst_capacity cfg)) = (of_nat n :: rat)"
    using assms(2) by simp
  moreover have "0 < n \<Longrightarrow> of_nat n - 1 = (of_nat (n - 1) :: rat)" by (simp add: of_nat_diff)
  moreover have "1 \<le> (of_nat n :: rat) \<longleftrightarrow> 0 < n" by (cases n) auto
  ultimately show ?thesis by (auto simp: tb_try_consume_def Let_def)
qed

text \<open>A sequence of attempts on one bucket.\<close>

fun tb_run :: "limit_cfg \<Rightarrow> int list \<Rightarrow> token_bucket \<Rightarrow> bool list \<times> token_bucket" where
  "tb_run cfg [] tb = ([], tb)"
| "tb_run cfg (t # ts) tb =
     (let (b, tb') = tb_try_consume cfg t tb; (bs, tb'') = tb_run cfg ts tb' in (b # bs, tb''))"

definition admitted :: "bool list \<Rightarrow> nat" where
  "admitted bs = length (filter id bs)"

lemma admitted_simps [simp]:
  "admitted [] = 0" "admitted (b # bs) = of_bool b + admitted bs"
  by (simp_all add: admitted_def)

text \<open>What a refill adds beyond the exact amount, and what one attempt adds to the budget.\<close>

lemma tb_refill_upper:
  assumes ok: "limit_ok cfg" and d: "0 \<le> d" "d \<le> 2 ^ 53"
    and r: "of_int d / 1000 * lc_burst_refill_per_s cfg < 2 powi 32"
  shows "tb_refill cfg d \<le> of_int d / 1000 * lc_burst_refill_per_s cfg + 1 / 2 ^ 20"
proof (cases "d = 0")
  case False
  let ?s = "of_int d / 1000 :: rat" and ?rate = "lc_burst_refill_per_s cfg"
  have rate: "0 \<le> ?rate" using ok by (simp add: limit_ok_def)
  have ex: "f64_rnd (of_int d) = of_int d" using d f64.exact [of "nat d"] by simp
  have "(2::rat) powi (-1000) \<le> 2 powi (-10)" by (intro power_int_increasing) auto
  also have "\<dots> \<le> ?s" using False d by (simp add: power_int_minus divide_simps)
  finally have s: "f64_rnd ?s \<le> ?s + ?s * 2 powi (-53)" by (rule f64_rnd_rel_error)
  have "f64_rnd ?s * ?rate \<le> (?s + ?s * 2 powi (-53)) * ?rate"
    using s rate by (rule mult_right_mono)
  also have "\<dots> = ?s * ?rate + ?s * ?rate * 2 powi (-53)" by (simp add: algebra_simps)
  also have "\<dots> \<le> ?s * ?rate + 2 powi 32 * 2 powi (-53)"
    using r by (intro add_left_mono mult_right_mono) auto
  finally have m: "f64_rnd ?s * ?rate \<le> ?s * ?rate + 1 / 2 ^ 21" by (simp add: power_int_minus)
  have nn: "0 \<le> f64_rnd ?s * ?rate" using rate d f64.nonneg [of ?s] by simp
  have "f64_rnd ?s * ?rate < 2 powi 33" using m r by simp
  then have "f64_rnd (f64_rnd ?s * ?rate) \<le> f64_rnd ?s * ?rate + 2 powi (33 - 54)"
    using nn by (intro f64_rnd_abs_error) auto
  then show ?thesis using m by (simp add: tb_refill_def Let_def ex power_int_minus)
qed simp

lemma tb_round_sum:
  assumes "limit_ok cfg" and "0 \<le> x"
  shows "min (f64_rnd x) (of_nat (lc_burst_capacity cfg)) \<le> x + 1 / 2 ^ 22"
proof (cases "of_nat (lc_burst_capacity cfg) \<le> x")
  case False
  have "of_nat (lc_burst_capacity cfg) < (2::rat) powi 32"
    using assms(1) by (simp add: limit_ok_def u32_max_def)
  with False have "f64_rnd x \<le> x + 2 powi (32 - 54)" using assms(2) by (intro f64_rnd_abs_error) auto
  then show ?thesis by (simp add: power_int_minus min_le_iff_disj)
qed (simp add: min_le_iff_disj)

lemma tb_step_budget:
  assumes ok: "limit_ok cfg" and tb: "tb_ok cfg tb"
    and t: "tb_last_check_ms tb \<le> now" "now - tb_last_check_ms tb \<le> 2 ^ 53"
    and step: "tb_try_consume cfg now tb = (b, tb')"
  shows "of_bool b + tb_tokens tb' \<le>
     tb_tokens tb + of_int (now - tb_last_check_ms tb) / 1000 * lc_burst_refill_per_s cfg + 1 / 2 ^ 19"
proof -
  let ?d = "now - tb_last_check_ms tb" and ?cap = "of_nat (lc_burst_capacity cfg) :: rat"
  let ?r = "of_int ?d / 1000 * lc_burst_refill_per_s cfg"
  let ?x = "tb_tokens tb + tb_refill cfg ?d"
  let ?t = "min (f64_rnd ?x) ?cap"
  have nn: "0 \<le> tb_tokens tb" "0 \<le> ?r" "0 \<le> ?x"
    using ok tb t tb_refill_nonneg [of cfg ?d] by (auto simp: tb_ok_def limit_ok_def)
  have cap: "?cap < 2 powi 32" using ok by (simp add: limit_ok_def u32_max_def)
  have le: "?t \<le> tb_tokens tb + ?r + 1 / 2 ^ 20 + 1 / 2 ^ 22"
  proof (cases "?r < 2 powi 32")
    case True
    then have "tb_refill cfg ?d \<le> ?r + 1 / 2 ^ 20" using ok t by (intro tb_refill_upper) auto
    then show ?thesis using tb_round_sum [OF ok nn(3)] by linarith
  next
    case False
    then have "?cap \<le> ?r" using cap by (simp only: not_less)
    then have "?t \<le> ?r" by (rule min.coboundedI2)
    moreover have "t \<le> r \<Longrightarrow> 0 \<le> a \<Longrightarrow> t \<le> a + r + 1 / 2 ^ 20 + 1 / 2 ^ 22" for t r a :: rat by simp
    ultimately show ?thesis using nn(1) by blast
  qed
  have "1 \<le> ?t \<Longrightarrow> f64_rnd (?t - 1) \<le> ?t - 1 + 2 powi (32 - 54)"
    using cap by (intro f64_rnd_abs_error) auto
  then have "1 \<le> ?t \<Longrightarrow> f64_rnd (?t - 1) \<le> ?t - 1 + 1 / 2 ^ 22" by (simp add: power_int_minus)
  with le step t show ?thesis
    by (auto simp: tb_try_consume_def Let_def max_def split: if_splits)
qed

lemma tb_try_consume_clock [simp]: "tb_last_check_ms (snd (tb_try_consume cfg now tb)) = now"
  by (simp add: tb_try_consume_def Let_def)

text \<open>Over any run with a clock that does not go back, the bucket admits at most the tokens it
  started with plus what the configured rate produces in that time; each attempt adds at most
  \<open>2\<^sup>-\<^sup>1\<^sup>9\<close> of rounding.\<close>

lemma tb_run_budget:
  assumes "limit_ok cfg" and "tb_ok cfg tb" and "sorted (tb_last_check_ms tb # ts)"
    and "last (tb_last_check_ms tb # ts) - tb_last_check_ms tb \<le> 2 ^ 53"
  shows "of_nat (admitted (fst (tb_run cfg ts tb))) \<le> tb_tokens tb
     + of_int (last (tb_last_check_ms tb # ts) - tb_last_check_ms tb) / 1000 * lc_burst_refill_per_s cfg
     + of_nat (length ts) / 2 ^ 19"
  using assms(2-)
proof (induction ts arbitrary: tb)
  case Nil
  then show ?case by (simp add: tb_ok_def)
next
  case (Cons t ts)
  obtain b tb' where step: "tb_try_consume cfg t tb = (b, tb')" by fastforce
  obtain bs tb'' where run: "tb_run cfg ts tb' = (bs, tb'')" by fastforce
  let ?l = "last (t # ts)" and ?rate = "lc_burst_refill_per_s cfg"
  have clk: "tb_last_check_ms tb' = t" using tb_try_consume_clock [of cfg t tb] step by simp
  have le: "tb_last_check_ms tb \<le> t" "t \<le> ?l" "sorted (t # ts)"
    using Cons.prems(2) by (auto simp: last_in_set)
  have "tb_ok cfg tb'" using tb_try_consume_ok [OF assms(1) Cons.prems(1), of t] step by simp
  with Cons.IH [of tb'] Cons.prems(3) clk le run
  have ih: "of_nat (admitted bs) \<le> tb_tokens tb' + of_int (?l - t) / 1000 * ?rate
      + of_nat (length ts) / 2 ^ 19" by simp
  have "of_bool b + tb_tokens tb' \<le> tb_tokens tb
      + of_int (t - tb_last_check_ms tb) / 1000 * ?rate + 1 / 2 ^ 19"
    using Cons.prems(3) le by (intro tb_step_budget [OF assms(1) Cons.prems(1) _ _ step]) auto
  with ih have "of_bool b + of_nat (admitted bs) \<le> tb_tokens tb
      + (of_int (t - tb_last_check_ms tb) / 1000 * ?rate + of_int (?l - t) / 1000 * ?rate)
      + (1 / 2 ^ 19 + of_nat (length ts) / 2 ^ 19)" by linarith
  also have "of_int (t - tb_last_check_ms tb) / 1000 * ?rate + of_int (?l - t) / 1000 * ?rate
      = of_int (?l - tb_last_check_ms tb) / 1000 * ?rate" by (simp add: field_simps)
  also have "1 / 2 ^ 19 + of_nat (length ts) / 2 ^ 19 = of_nat (length (t # ts)) / (2 ^ 19 :: rat)"
    by (simp add: field_simps)
  finally show ?case using step run by simp
qed

text \<open>At one instant a full bucket admits exactly its capacity.\<close>

lemma tb_run_at_rest:
  assumes "limit_ok cfg" and "n \<le> lc_burst_capacity cfg"
  shows "fst (tb_run cfg (replicate k now) \<lparr>tb_tokens = of_nat n, tb_last_check_ms = now\<rparr>) =
     replicate (min k n) True @ replicate (k - n) False"
  using assms(2)
proof (induction k arbitrary: n)
  case (Suc k)
  then show ?case using tb_consume_at_rest [OF assms(1) Suc.prems, of now] Suc.IH [of "n - 1"]
    by (cases n) (auto simp: case_prod_beta)
qed simp

section \<open>Sliding window\<close>

record sliding_window =
  sw_curr_count :: nat
  sw_prev_count :: nat
  sw_curr_window_start_ms :: int

text \<open>\<open>None\<close> is the panic of a division by zero, for a grid of zero.\<close>

definition align_floor :: "int \<Rightarrow> int \<Rightarrow> int option" where
  "align_floor t grid = (if grid = 0 then None else Some (div_euclid t grid * grid))"

definition sw_new :: "int \<Rightarrow> nat \<Rightarrow> sliding_window option" where
  "sw_new now window_secs =
     map_option (\<lambda>start. \<lparr>sw_curr_count = 0, sw_prev_count = 0, sw_curr_window_start_ms = start\<rparr>)
       (align_floor now (int window_secs * 1000))"

definition sw_roll :: "int \<Rightarrow> int \<Rightarrow> sliding_window \<Rightarrow> sliding_window" where
  "sw_roll advance bucket_now sw =
     (if advance = 0 then sw
      else if advance = 1
      then \<lparr>sw_curr_count = 0, sw_prev_count = sw_curr_count sw, sw_curr_window_start_ms = bucket_now\<rparr>
      else \<lparr>sw_curr_count = 0, sw_prev_count = 0, sw_curr_window_start_ms = bucket_now\<rparr>)"

definition sw_estimate :: "int \<Rightarrow> int \<Rightarrow> sliding_window \<Rightarrow> rat" where
  "sw_estimate win_ms now sw =
     (let elapsed_in_curr = max (now - sw_curr_window_start_ms sw) 0;
          ratio = f64_rnd (f64_rnd (of_int elapsed_in_curr) / f64_rnd (of_int win_ms));
          weight_prev = f64_rnd (1 - max 0 (min 1 ratio))
      in f64_rnd (of_nat (sw_prev_count sw) * weight_prev + of_nat (sw_curr_count sw)))"

definition sw_try_consume ::
  "limit_cfg \<Rightarrow> int \<Rightarrow> sliding_window \<Rightarrow> (bool \<times> sliding_window) option" where
  "sw_try_consume cfg now sw =
     (let win_ms = int (lc_window_secs cfg) * 1000
      in case align_floor now win_ms of
           None \<Rightarrow> None
         | Some bucket_now \<Rightarrow>
             let advance = max (trunc_div (bucket_now - sw_curr_window_start_ms sw) win_ms) 0;
                 sw = sw_roll advance bucket_now sw
             in Some (if of_nat (lc_window_limit cfg) < f64_rnd (sw_estimate win_ms now sw + 1)
                      then (False, sw)
                      else (True, sw\<lparr>sw_curr_count := u32_sat_add (sw_curr_count sw) 1\<rparr>)))"

text \<open>Counters stay within the limit and windows stay on the grid.\<close>

definition sw_ok :: "limit_cfg \<Rightarrow> sliding_window \<Rightarrow> bool" where
  "sw_ok cfg sw \<longleftrightarrow> sw_curr_count sw \<le> lc_window_limit cfg \<and> sw_prev_count sw \<le> lc_window_limit cfg
     \<and> sw_curr_window_start_ms sw mod (int (lc_window_secs cfg) * 1000) = 0"

text \<open>One attempt on a window of positive length, with the panic branch and the truncating
  division gone: the window first rolls to the one that contains \<open>now\<close>, never back.\<close>

definition sw_rolled :: "limit_cfg \<Rightarrow> int \<Rightarrow> sliding_window \<Rightarrow> sliding_window" where
  "sw_rolled cfg now sw =
     (let win_ms = int (lc_window_secs cfg) * 1000; bucket_now = now div win_ms * win_ms
      in sw_roll (max ((bucket_now - sw_curr_window_start_ms sw) div win_ms) 0) bucket_now sw)"

lemma sw_try_consume_eq:
  assumes "0 < lc_window_secs cfg"
  shows "sw_try_consume cfg now sw =
    (let sw' = sw_rolled cfg now sw
     in Some (if of_nat (lc_window_limit cfg) < f64_rnd (sw_estimate (int (lc_window_secs cfg) * 1000) now sw' + 1)
              then (False, sw')
              else (True, sw'\<lparr>sw_curr_count := u32_sat_add (sw_curr_count sw') 1\<rparr>)))"
  using assms
  by (simp add: sw_try_consume_def align_floor_def Let_def max_trunc_div div_euclid_def sw_rolled_def)

lemma sw_try_consume_panic: "sw_try_consume cfg now sw = None \<longleftrightarrow> lc_window_secs cfg = 0"
  by (auto simp: sw_try_consume_def align_floor_def Let_def)

lemma sw_roll_ok:
  assumes "sw_ok cfg sw"
  shows "sw_ok cfg (sw_rolled cfg now sw)"
  using assms by (auto simp: sw_ok_def sw_roll_def sw_rolled_def Let_def)

text \<open>The estimate lies between the current count and the sum of both counts.\<close>

lemma sw_weight_bounds:
  "0 \<le> f64_rnd (1 - max 0 (min 1 r))" "f64_rnd (1 - max 0 (min 1 r)) \<le> 1"
  by (simp_all add: f64.nonneg f64.le_one)

lemma sw_estimate_bounds:
  assumes "sw_curr_count sw \<le> u32_max" and "sw_prev_count sw \<le> u32_max"
  shows "of_nat (sw_curr_count sw) \<le> sw_estimate w now sw"
    and "sw_estimate w now sw \<le> of_nat (sw_curr_count sw + sw_prev_count sw)"
proof -
  obtain wt where wt: "0 \<le> wt" "wt \<le> 1"
    and est: "sw_estimate w now sw = f64_rnd (of_nat (sw_prev_count sw) * wt + of_nat (sw_curr_count sw))"
    unfolding sw_estimate_def Let_def using sw_weight_bounds by blast
  have "of_nat (sw_prev_count sw) * wt \<le> of_nat (sw_prev_count sw)" "0 \<le> of_nat (sw_prev_count sw) * wt"
    using wt by (simp_all add: mult_left_le)
  then show "of_nat (sw_curr_count sw) \<le> sw_estimate w now sw"
    and "sw_estimate w now sw \<le> of_nat (sw_curr_count sw + sw_prev_count sw)"
    unfolding est using assms by (intro f64.ge_nat f64.le_nat; simp add: u32_max_def)+
qed

lemma sw_admit_below_limit:
  assumes "limit_ok cfg" and "sw_ok cfg sw"
    and "\<not> of_nat (lc_window_limit cfg) < f64_rnd (sw_estimate w now sw + 1)"
  shows "sw_curr_count sw < lc_window_limit cfg"
proof -
  have "sw_curr_count sw \<le> u32_max" "sw_prev_count sw \<le> u32_max"
    using assms by (auto simp: limit_ok_def sw_ok_def)
  then have "of_nat (Suc (sw_curr_count sw)) \<le> sw_estimate w now sw + 1"
    using sw_estimate_bounds(1) [of sw w now] by simp
  then have "of_nat (Suc (sw_curr_count sw)) \<le> f64_rnd (sw_estimate w now sw + 1)"
    using \<open>sw_curr_count sw \<le> u32_max\<close> by (intro f64.ge_nat) (simp_all add: u32_max_def)
  with assms(3) have "(of_nat (Suc (sw_curr_count sw)) :: rat) \<le> of_nat (lc_window_limit cfg)" by linarith
  then show ?thesis unfolding of_nat_le_iff by simp
qed

lemma sw_admit_when_room:
  assumes "limit_ok cfg" and "sw_ok cfg sw"
    and "sw_curr_count sw + sw_prev_count sw < lc_window_limit cfg"
  shows "\<not> of_nat (lc_window_limit cfg) < f64_rnd (sw_estimate w now sw + 1)"
proof -
  have lim: "lc_window_limit cfg \<le> u32_max" using assms(1) by (simp add: limit_ok_def)
  then have "sw_curr_count sw \<le> u32_max" "sw_prev_count sw \<le> u32_max" using assms(3) by auto
  then have "sw_estimate w now sw + 1 \<le> of_nat (sw_curr_count sw + sw_prev_count sw) + 1"
    using sw_estimate_bounds(2) [of sw w now] by simp
  also have "\<dots> \<le> (of_nat (lc_window_limit cfg) :: rat)"
    using assms(3) by (metis Suc_leI of_nat_Suc of_nat_le_iff add.commute)
  finally show ?thesis using f64.le_nat [OF _ u32_exact [OF lim]] by (simp add: not_less)
qed

lemma sw_try_consume_ok:
  assumes "limit_ok cfg" and "sw_ok cfg sw" and "sw_try_consume cfg now sw = Some (b, sw')"
  shows "sw_ok cfg sw'"
proof -
  have "0 < lc_window_secs cfg" using assms(3) by (metis gr0I option.distinct(1) sw_try_consume_panic)
  then show ?thesis
    using assms(3) sw_roll_ok [OF assms(2), of now]
      sw_admit_below_limit [OF assms(1) sw_roll_ok [OF assms(2), of now], of "int (lc_window_secs cfg) * 1000" now]
    by (auto simp: sw_try_consume_eq Let_def sw_ok_def u32_sat_add_def min_le_iff_disj split: if_splits)
qed

lemma sw_rolled_cases:
  assumes "0 < lc_window_secs cfg"
  obtains "sw_rolled cfg now sw = sw"
  | "sw_curr_window_start_ms sw < sw_curr_window_start_ms (sw_rolled cfg now sw)"
    "sw_curr_count (sw_rolled cfg now sw) = 0"
proof -
  let ?w = "int (lc_window_secs cfg) * 1000" and ?s = "sw_curr_window_start_ms sw"
  let ?b = "now div ?w * ?w"
  have w: "0 < ?w" using assms by simp
  show thesis
  proof (cases "0 < (?b - ?s) div ?w")
    case True
    then have "?s < ?b" using w pos_imp_zdiv_pos_iff [OF w, of "?b - ?s"] by simp
    then show thesis using that(2) True
      by (simp add: sw_rolled_def Let_def sw_roll_def max_def)
  next
    case False
    then show thesis using that(1) by (simp add: sw_rolled_def Let_def sw_roll_def max_def)
  qed
qed

text \<open>Either the attempt stays in the window and is counted, or it opens a later window.\<close>

lemma sw_try_consume_step:
  assumes "limit_ok cfg" and "sw_ok cfg sw" and "sw_try_consume cfg now sw = Some (b, sw')"
  shows "sw_curr_window_start_ms sw' = sw_curr_window_start_ms sw \<and> sw_curr_count sw' = sw_curr_count sw + of_bool b
    \<or> sw_curr_window_start_ms sw < sw_curr_window_start_ms sw' \<and> sw_curr_count sw' = of_bool b"
proof -
  let ?r = "sw_rolled cfg now sw"
  have pos: "0 < lc_window_secs cfg" using assms(3) by (metis gr0I option.distinct(1) sw_try_consume_panic)
  have "sw_curr_window_start_ms sw' = sw_curr_window_start_ms ?r \<and> sw_curr_count sw' = sw_curr_count ?r + of_bool b"
  proof (cases b)
    case True
    then have "sw' = ?r\<lparr>sw_curr_count := u32_sat_add (sw_curr_count ?r) 1\<rparr>"
      and "\<not> of_nat (lc_window_limit cfg) < f64_rnd (sw_estimate (int (lc_window_secs cfg) * 1000) now ?r + 1)"
      using assms(3) by (auto simp: sw_try_consume_eq [OF pos] Let_def split: if_splits)
    moreover from this(2) have "sw_curr_count ?r < lc_window_limit cfg"
      using assms(1,2) by (intro sw_admit_below_limit [OF _ sw_roll_ok])
    ultimately show ?thesis using True assms(1) by (simp add: u32_sat_add_def limit_ok_def)
  next
    case False
    then show ?thesis using assms(3) by (auto simp: sw_try_consume_eq [OF pos] Let_def split: if_splits)
  qed
  then show ?thesis by (cases rule: sw_rolled_cases [OF pos, of now sw]) auto
qed

text \<open>A sequence of attempts, each recorded with the window it was counted in.\<close>

fun sw_run ::
  "limit_cfg \<Rightarrow> int list \<Rightarrow> sliding_window \<Rightarrow> ((int \<times> bool) list \<times> sliding_window) option" where
  "sw_run cfg [] sw = Some ([], sw)"
| "sw_run cfg (t # ts) sw =
     (case sw_try_consume cfg t sw of None \<Rightarrow> None
      | Some (b, sw') \<Rightarrow>
          map_option (\<lambda>(tr, sw''). ((sw_curr_window_start_ms sw', b) # tr, sw'')) (sw_run cfg ts sw'))"

definition admitted_in :: "int \<Rightarrow> (int \<times> bool) list \<Rightarrow> nat" where
  "admitted_in w tr = length (filter (\<lambda>e. e = (w, True)) tr)"

lemma admitted_in_simps [simp]:
  "admitted_in w [] = 0" "admitted_in w ((v, b) # tr) = of_bool (v = w \<and> b) + admitted_in w tr"
  by (simp_all add: admitted_in_def)

lemma sw_run_window:
  assumes "limit_ok cfg" and "sw_ok cfg sw" and "sw_run cfg ts sw = Some (tr, sw')"
  shows "admitted_in w tr + (if w = sw_curr_window_start_ms sw then sw_curr_count sw else 0)
    \<le> (if sw_curr_window_start_ms sw \<le> w then lc_window_limit cfg else 0)"
  using assms(2,3)
proof (induction ts arbitrary: sw tr)
  case Nil
  then show ?case by (auto simp: sw_ok_def)
next
  case (Cons t ts)
  from Cons.prems(2) obtain b sw1 tr1 where
    step: "sw_try_consume cfg t sw = Some (b, sw1)" and run: "sw_run cfg ts sw1 = Some (tr1, sw')"
    and tr: "tr = (sw_curr_window_start_ms sw1, b) # tr1"
    by (auto split: option.splits)
  have ok1: "sw_ok cfg sw1" using sw_try_consume_ok [OF assms(1) Cons.prems(1) step] .
  have "sw_curr_count sw \<le> lc_window_limit cfg" using Cons.prems(1) by (simp add: sw_ok_def)
  then show ?case
    using Cons.IH [OF ok1 run] sw_try_consume_step [OF assms(1) Cons.prems(1) step]
    by (auto simp: tr split: if_splits)
qed

lemma sw_run_total: "0 < lc_window_secs cfg \<Longrightarrow> \<exists>r. sw_run cfg ts sw = Some r"
proof (induction ts arbitrary: sw)
  case (Cons t ts)
  then show ?case using sw_try_consume_panic [of cfg t sw]
    by (cases "sw_try_consume cfg t sw") (auto, metis option.simps(9))
qed simp

lemma sw_new_ok:
  "sw_new now (lc_window_secs cfg) = Some sw \<Longrightarrow> sw_ok cfg sw \<and> sw_curr_count sw = 0"
  by (auto simp: sw_new_def align_floor_def sw_ok_def div_euclid_def split: if_splits)

text \<open>A client that has been quiet for two whole windows starts afresh.\<close>

lemma sw_rolled_idle:
  assumes "0 < lc_window_secs cfg" and "sw_ok cfg sw"
    and "sw_curr_window_start_ms sw + 2 * (int (lc_window_secs cfg) * 1000) \<le> now"
  shows "sw_curr_count (sw_rolled cfg now sw) = 0" "sw_prev_count (sw_rolled cfg now sw) = 0"
proof -
  let ?w = "int (lc_window_secs cfg) * 1000" and ?s = "sw_curr_window_start_ms sw"
  have w: "0 < ?w" using assms(1) by simp
  have c: "?w * x div ?w = x" for x using w by (intro nonzero_mult_div_cancel_left) linarith
  obtain k where k: "?s = ?w * k" using assms(2) by (auto simp: sw_ok_def mod_eq_0_iff_dvd)
  have "?w * (k + 2) \<le> now" using assms(3) k by (simp add: algebra_simps)
  then have "?w * (k + 2) div ?w \<le> now div ?w" using w by (rule zdiv_mono1)
  then have "k + 2 \<le> now div ?w" by (simp only: c)
  moreover have "(now div ?w * ?w - ?s) div ?w = now div ?w - k"
  proof -
    have "now div ?w * ?w - ?s = ?w * (now div ?w - k)" using k by (simp only: algebra_simps)
    then show ?thesis by (simp only: c)
  qed
  ultimately have "2 \<le> (now div ?w * ?w - ?s) div ?w" by simp
  then show "sw_curr_count (sw_rolled cfg now sw) = 0" "sw_prev_count (sw_rolled cfg now sw) = 0"
    by (simp_all add: sw_rolled_def Let_def sw_roll_def)
qed

end
