(* ===== verification/RateStore.thy ===== *)
theory RateStore
  imports RateAlgo
begin

text \<open>
  The rate-limit stores of \<^verbatim>\<open>checks/rate_limit/store\<close>: the in-memory map with its background
  cleanup (\<^verbatim>\<open>memory.rs\<close>), the Redis store with its Lua script and failure counter
  (\<^verbatim>\<open>redis.rs\<close>), and the breaker that composes them (\<^verbatim>\<open>breaker.rs\<close>).  A store operation
  returns \<open>None\<close> where the code panics, \<open>Inl\<close> where it returns an error.  The Redis server
  and the network are a parameter; the script the code ships to it is modelled.
\<close>

section \<open>Decisions\<close>

datatype decision = RlAllow | BurstExceeded | SustainedExceeded

section \<open>The in-memory store\<close>

definition MAX_ENTRIES :: nat where "MAX_ENTRIES = 100000"
definition ENTRY_TTL_ms :: int where "ENTRY_TTL_ms = 600 * 1000"

record rl_entry =
  re_tb :: token_bucket
  re_sw :: sliding_window
  re_last_touch_ms :: int

type_synonym memory_store = "(string, rl_entry) amap"

definition rl_fresh :: "limit_cfg \<Rightarrow> int \<Rightarrow> rl_entry option" where
  "rl_fresh cfg now =
     map_option (\<lambda>sw. \<lparr>re_tb = tb_new_full cfg now, re_sw = sw, re_last_touch_ms = now\<rparr>)
       (sw_new now (lc_window_secs cfg))"

definition rl_consume :: "limit_cfg \<Rightarrow> int \<Rightarrow> rl_entry \<Rightarrow> (decision \<times> rl_entry) option" where
  "rl_consume cfg now e =
     (let e = e\<lparr>re_last_touch_ms := now\<rparr>;
          (ok, tb) = tb_try_consume cfg now (re_tb e);
          e = e\<lparr>re_tb := tb\<rparr>
      in if \<not> ok then Some (BurstExceeded, e)
         else (case sw_try_consume cfg now (re_sw e) of
                 None \<Rightarrow> None
               | Some (ok, sw) \<Rightarrow>
                   let e = e\<lparr>re_sw := sw\<rparr>
                   in Some (if \<not> ok then (SustainedExceeded, e) else (RlAllow, e))))"

definition check_and_consume_inner ::
  "string \<Rightarrow> limit_cfg \<Rightarrow> int \<Rightarrow> memory_store \<Rightarrow> (decision \<times> memory_store) option" where
  "check_and_consume_inner key cfg now m =
     (case (case am_get m key of Some e \<Rightarrow> Some e | None \<Rightarrow> rl_fresh cfg now) of
        None \<Rightarrow> None
      | Some e \<Rightarrow>
          map_option (\<lambda>(d, e'). (d, am_put key e' m)) (rl_consume cfg now e))"

definition memory_check_and_consume ::
  "string \<Rightarrow> limit_cfg \<Rightarrow> int \<Rightarrow> memory_store \<Rightarrow> (('e + decision) \<times> memory_store) option" where
  "memory_check_and_consume key cfg now m =
     map_option (\<lambda>(d, m'). (Inr d, m')) (check_and_consume_inner key cfg now m)"

definition cleanup :: "int \<Rightarrow> memory_store \<Rightarrow> nat \<times> memory_store" where
  "cleanup now m =
     (let before = length m;
          m1 = am_retain (\<lambda>_ e. i64_sat_sub now (re_last_touch_ms e) < ENTRY_TTL_ms) m;
          m2 = (if MAX_ENTRIES < length m1
                then evict_oldest re_last_touch_ms (length m1 - MAX_ENTRIES) m1 else m1)
      in (before - length m2, m2))"

subsection \<open>Isolation of keys\<close>

abbreviation memory_upd ::
  "string \<Rightarrow> limit_cfg \<times> int \<Rightarrow> memory_store \<Rightarrow> (decision \<times> memory_store) option" where
  "memory_upd k a \<equiv> check_and_consume_inner k (fst a) (snd a)"

interpretation rlmem: keyed_store memory_upd am_get
proof
  fix k a s d s' k'
  assume "memory_upd k a s = Some (d, s')" and "k' \<noteq> (k :: string)"
  then show "am_get s' k' = am_get s k'"
    by (auto simp: check_and_consume_inner_def map_simps split: option.splits)
next
  fix s t :: memory_store and k a d s'
  assume "am_get s k = am_get t k" and "memory_upd k a s = Some (d, s')"
  then show "\<exists>t'. memory_upd k a t = Some (d, t') \<and> am_get t' k = am_get s' k"
    by (auto simp: check_and_consume_inner_def map_simps split: option.splits)
qed

subsection \<open>Invariant\<close>

definition rl_entry_ok :: "limit_cfg \<Rightarrow> rl_entry \<Rightarrow> bool" where
  "rl_entry_ok cfg e \<longleftrightarrow> tb_ok cfg (re_tb e) \<and> sw_ok cfg (re_sw e)"

lemma rl_fresh_ok: "rl_fresh cfg now = Some e \<Longrightarrow> rl_entry_ok cfg e"
  by (auto simp: rl_fresh_def rl_entry_ok_def tb_new_full_ok dest: sw_new_ok)

lemma rl_consume_ok:
  assumes "limit_ok cfg" and "rl_entry_ok cfg e" and "rl_consume cfg now e = Some (d, e')"
  shows "rl_entry_ok cfg e'"
proof -
  obtain ok tb where tb: "tb_try_consume cfg now (re_tb e) = (ok, tb)" by fastforce
  then have tb': "tb_ok cfg tb"
    using tb_try_consume_ok [OF assms(1), of "re_tb e" now] assms(2) by (simp add: rl_entry_ok_def)
  have sw: "sw_ok cfg (re_sw e)" using assms(2) by (simp add: rl_entry_ok_def)
  consider "re_tb e' = tb" "re_sw e' = re_sw e"
    | b where "re_tb e' = tb" "sw_try_consume cfg now (re_sw e) = Some (b, re_sw e')"
    using assms(3) by (auto simp: rl_consume_def Let_def tb split: option.splits if_splits)
  then show ?thesis
    by cases (simp_all add: rl_entry_ok_def tb' sw sw_try_consume_ok [OF assms(1) sw])
qed

lemma rl_consume_total: "0 < lc_window_secs cfg \<Longrightarrow> \<exists>r. rl_consume cfg now e = Some r"
  using sw_try_consume_panic [of cfg now "re_sw e"]
  by (auto simp: rl_consume_def Let_def case_prod_beta split: option.splits)

lemma rl_fresh_total: "0 < lc_window_secs cfg \<Longrightarrow> \<exists>e. rl_fresh cfg now = Some e"
  by (simp add: rl_fresh_def sw_new_def align_floor_def)

lemma check_and_consume_total:
  "0 < lc_window_secs cfg \<Longrightarrow> \<exists>r. check_and_consume_inner k cfg now m = Some r"
  using rl_fresh_total [of cfg now] rl_consume_total [of cfg now]
  by (auto simp: check_and_consume_inner_def split: option.splits)

lemma check_and_consume_wf:
  "am_wf m \<Longrightarrow> check_and_consume_inner k cfg now m = Some (d, m') \<Longrightarrow> am_wf m'"
  by (auto simp: check_and_consume_inner_def map_simps split: option.splits)

subsection \<open>What a key is granted\<close>

text \<open>The entry a request on \<open>key\<close> works on, and how one request moves it.\<close>

definition rl_entry_at :: "limit_cfg \<Rightarrow> int \<Rightarrow> memory_store \<Rightarrow> string \<Rightarrow> rl_entry option" where
  "rl_entry_at cfg now m key = (case am_get m key of Some e \<Rightarrow> Some e | None \<Rightarrow> rl_fresh cfg now)"

lemma check_and_consume_entry:
  "check_and_consume_inner k cfg now m = Some (d, m') \<longleftrightarrow>
     (\<exists>e e'. rl_entry_at cfg now m k = Some e \<and> rl_consume cfg now e = Some (d, e') \<and> m' = am_put k e' m)"
  by (auto simp: check_and_consume_inner_def rl_entry_at_def split: option.splits)

lemma rl_entry_at_put [simp]: "rl_entry_at cfg now (am_put k e m) k = Some e"
  by (simp add: rl_entry_at_def map_simps)

definition allowed_for :: "string \<Rightarrow> (string \<times> 'a \<times> decision) list \<Rightarrow> nat" where
  "allowed_for k ds = length (filter (\<lambda>(k', _, d). k' = k \<and> d = RlAllow) ds)"

definition allowed_in :: "int \<Rightarrow> int \<Rightarrow> string \<Rightarrow> (string \<times> ('a \<times> int) \<times> decision) list \<Rightarrow> nat" where
  "allowed_in start width k ds =
     length (filter (\<lambda>(k', (_, t), d). k' = k \<and> d = RlAllow \<and> start \<le> t \<and> t < start + width) ds)"

definition times_of :: "string \<Rightarrow> (string \<times> 'a \<times> int) list \<Rightarrow> int list" where
  "times_of k tr = map (snd \<circ> snd) (filter (\<lambda>e. fst e = k) tr)"

lemma allowed_filter:
  "allowed_for k (filter (\<lambda>e. fst e = k) ds) = allowed_for k ds"
  "allowed_in s w k (filter (\<lambda>e. fst e = k) ds) = allowed_in s w k ds"
  by (induction ds) (auto simp: allowed_for_def allowed_in_def)

lemma key_trace:
  assumes "\<forall>e\<in>set tr. fst e = k \<longrightarrow> fst (snd e) = cfg"
  shows "filter (\<lambda>e. fst e = k) tr = map (\<lambda>t. (k, cfg, t)) (times_of k tr)"
  using assms by (induction tr) (auto simp: times_of_def)

lemma key_run_tokens:
  assumes "ts \<noteq> [] \<Longrightarrow> rl_entry_at cfg (hd ts) m k = Some e"
    and "store_run memory_upd (map (\<lambda>t. (k, cfg, t)) ts) m = Some (ds, m')"
  shows "allowed_for k ds \<le> admitted (fst (tb_run cfg ts (re_tb e)))"
  using assms
proof (induction ts arbitrary: m e ds)
  case Nil
  then show ?case by (simp add: allowed_for_def)
next
  case (Cons t ts)
  from Cons.prems obtain d e1 ds1 where cons: "rl_consume cfg t e = Some (d, e1)"
    and run: "store_run memory_upd (map (\<lambda>t. (k, cfg, t)) ts) (am_put k e1 m) = Some (ds1, m')"
    and ds: "ds = (k, (cfg, t), d) # ds1"
    by (auto simp: check_and_consume_entry split: option.splits)
  have ih: "allowed_for k ds1 \<le> admitted (fst (tb_run cfg ts (re_tb e1)))"
    using Cons.IH [OF _ run] by simp
  have "re_tb e1 = snd (tb_try_consume cfg t (re_tb e))" and "d = RlAllow \<Longrightarrow> fst (tb_try_consume cfg t (re_tb e))"
    using cons by (auto simp: rl_consume_def Let_def case_prod_beta split: option.splits if_splits)
  then show ?case using ih by (auto simp: ds allowed_for_def case_prod_beta)
qed

text \<open>With a clock that does not go back, the window of an attempt is the one that contains it.\<close>

lemma sw_window_of:
  assumes "0 < lc_window_secs cfg" and "sw_ok cfg sw" and "sw_curr_window_start_ms sw \<le> now"
    and "sw_try_consume cfg now sw = Some (b, sw')"
  shows "sw_curr_window_start_ms sw' = now div (int (lc_window_secs cfg) * 1000) * (int (lc_window_secs cfg) * 1000)"
proof -
  let ?w = "int (lc_window_secs cfg) * 1000" and ?s = "sw_curr_window_start_ms sw"
  have w: "0 < ?w" using assms(1) by simp
  have c: "?w * x div ?w = x" for x using w by (intro nonzero_mult_div_cancel_left) linarith
  obtain k where k: "?s = ?w * k" using assms(2) by (auto simp: sw_ok_def mod_eq_0_iff_dvd)
  have kle: "k \<le> now div ?w" using zdiv_mono1 [OF assms(3) w] by (simp only: k c)
  have adv: "(now div ?w * ?w - ?s) div ?w = now div ?w - k"
  proof -
    have "now div ?w * ?w - ?s = ?w * (now div ?w - k)" using k by (simp only: algebra_simps)
    then show ?thesis by (simp only: c)
  qed
  have "sw_curr_window_start_ms (sw_rolled cfg now sw) = now div ?w * ?w"
  proof (cases "k = now div ?w")
    case True
    then show ?thesis using adv k by (simp add: sw_rolled_def sw_roll_def Let_def mult.commute)
  next
    case False
    then have "0 < now div ?w - k" using kle by linarith
    then show ?thesis unfolding sw_rolled_def Let_def adv by (simp add: sw_roll_def max_def)
  qed
  then show ?thesis using assms(4) by (auto simp: sw_try_consume_eq [OF assms(1)] Let_def split: if_splits)
qed

lemma grid_floor_le: "0 < w \<Longrightarrow> t div w * w \<le> (t::int)"
  using pos_mod_sign [of w t] by (simp flip: minus_mod_eq_div_mult)

lemma in_window_iff:
  assumes "0 < (w::int)" and "s mod w = 0"
  shows "s \<le> t \<and> t < s + w \<longleftrightarrow> t div w * w = s"
proof
  assume "s \<le> t \<and> t < s + w"
  moreover obtain k where "s = w * k" using assms(2) by auto
  ultimately have "t div w = k" using assms(1) by (intro int_div_pos_eq [of _ _ _ "t - s"]) auto
  then show "t div w * w = s" using \<open>s = w * k\<close> by (simp add: mult.commute)
next
  assume "t div w * w = s"
  then show "s \<le> t \<and> t < s + w"
    using assms(1) by (metis add_le_cancel_left mult_div_mod_eq mult.commute pos_mod_bound pos_mod_sign
        add.right_neutral add_strict_left_mono)
qed

lemma rl_consume_window:
  assumes "limit_ok cfg" and "0 < lc_window_secs cfg" and "rl_entry_ok cfg e"
    and "sw_curr_window_start_ms (re_sw e) \<le> t" and "rl_consume cfg t e = Some (d, e1)"
  shows "re_sw e1 = re_sw e \<and> d \<noteq> RlAllow
    \<or> sw_curr_window_start_ms (re_sw e1) = t div (int (lc_window_secs cfg) * 1000) * (int (lc_window_secs cfg) * 1000)
      \<and> (sw_curr_window_start_ms (re_sw e1) = sw_curr_window_start_ms (re_sw e)
           \<and> sw_curr_count (re_sw e1) = sw_curr_count (re_sw e) + of_bool (d = RlAllow)
         \<or> sw_curr_window_start_ms (re_sw e) < sw_curr_window_start_ms (re_sw e1)
           \<and> sw_curr_count (re_sw e1) = of_bool (d = RlAllow))"
proof (cases "fst (tb_try_consume cfg t (re_tb e))")
  case True
  then obtain b where sw: "sw_try_consume cfg t (re_sw e) = Some (b, re_sw e1)" and "b \<longleftrightarrow> d = RlAllow"
    using assms(5) by (auto simp: rl_consume_def Let_def case_prod_beta split: option.splits if_splits)
  then show ?thesis
    using sw_window_of [OF assms(2) _ assms(4) sw] sw_try_consume_step [OF assms(1) _ sw] assms(3)
    by (simp add: rl_entry_ok_def)
next
  case False
  then show ?thesis using assms(5) by (auto simp: rl_consume_def Let_def case_prod_beta)
qed

lemma window_step_arith:
  fixes s s1 w :: int
  assumes "n + (if w = s1 then c1 else 0) \<le> (if s1 \<le> w then l else 0)" and "c \<le> (l::nat)"
    and "s1 = s \<and> c1 = c + of_bool b \<or> s < s1 \<and> c1 = of_bool b"
  shows "of_bool (b \<and> s1 = w) + n + (if w = s then c else 0) \<le> (if s \<le> w then l else 0)"
  using assms by (auto split: if_splits)

lemma key_run_window:
  assumes ok: "limit_ok cfg" "0 < lc_window_secs cfg" and w: "w mod (int (lc_window_secs cfg) * 1000) = 0"
    and "rl_entry_ok cfg e" and "sorted (sw_curr_window_start_ms (re_sw e) # ts)"
    and "ts \<noteq> [] \<Longrightarrow> rl_entry_at cfg (hd ts) m k = Some e"
    and "store_run memory_upd (map (\<lambda>t. (k, cfg, t)) ts) m = Some (ds, m')"
  shows "allowed_in w (int (lc_window_secs cfg) * 1000) k ds
      + (if w = sw_curr_window_start_ms (re_sw e) then sw_curr_count (re_sw e) else 0)
    \<le> (if sw_curr_window_start_ms (re_sw e) \<le> w then lc_window_limit cfg else 0)"
  using assms(4-)
proof (induction ts arbitrary: m e ds)
  case Nil
  then show ?case by (simp add: allowed_in_def rl_entry_ok_def sw_ok_def)
next
  case (Cons t ts)
  let ?w = "int (lc_window_secs cfg) * 1000"
  from Cons.prems(3,4) obtain d e1 ds1 where cons: "rl_consume cfg t e = Some (d, e1)"
    and run: "store_run memory_upd (map (\<lambda>t. (k, cfg, t)) ts) (am_put k e1 m) = Some (ds1, m')"
    and ds: "ds = (k, (cfg, t), d) # ds1"
    by (auto simp: check_and_consume_entry split: option.splits)
  have e1: "rl_entry_ok cfg e1" using rl_consume_ok [OF ok(1) Cons.prems(1) cons] .
  have st: "sw_curr_window_start_ms (re_sw e) \<le> t" using Cons.prems(2) by simp
  note win = rl_consume_window [OF ok Cons.prems(1) st cons]
  have "t div ?w * ?w \<le> t" using ok(2) by (intro grid_floor_le) simp
  then have "sw_curr_window_start_ms (re_sw e1) \<le> t" using win st by metis
  then have "sorted (sw_curr_window_start_ms (re_sw e1) # ts)" using Cons.prems(2) by auto
  then have ih: "allowed_in w ?w k ds1
      + (if w = sw_curr_window_start_ms (re_sw e1) then sw_curr_count (re_sw e1) else 0)
    \<le> (if sw_curr_window_start_ms (re_sw e1) \<le> w then lc_window_limit cfg else 0)"
    by (rule Cons.IH [OF e1 _ _ run]) simp
  have "w \<le> t \<and> t < w + ?w \<longleftrightarrow> t div ?w * ?w = w" using ok(2) by (intro in_window_iff [OF _ w]) simp
  then have add: "allowed_in w ?w k ds = of_bool (d = RlAllow \<and> t div ?w * ?w = w) + allowed_in w ?w k ds1"
    by (simp add: ds allowed_in_def)
  have le: "sw_curr_count (re_sw e) \<le> lc_window_limit cfg"
    using Cons.prems(1) by (simp add: rl_entry_ok_def sw_ok_def)
  from win show ?case
  proof
    assume "re_sw e1 = re_sw e \<and> d \<noteq> RlAllow"
    then have sw: "re_sw e1 = re_sw e" and "allowed_in w ?w k ds = allowed_in w ?w k ds1"
      by (simp_all add: add)
    then show ?thesis using ih by (simp only: sw)
  next
    assume r: "sw_curr_window_start_ms (re_sw e1) = t div ?w * ?w \<and>
      (sw_curr_window_start_ms (re_sw e1) = sw_curr_window_start_ms (re_sw e)
         \<and> sw_curr_count (re_sw e1) = sw_curr_count (re_sw e) + of_bool (d = RlAllow)
       \<or> sw_curr_window_start_ms (re_sw e) < sw_curr_window_start_ms (re_sw e1)
         \<and> sw_curr_count (re_sw e1) = of_bool (d = RlAllow))"
    show ?thesis
      unfolding add conjunct1 [OF r, symmetric] by (rule window_step_arith [OF ih le conjunct2 [OF r]])
  qed
qed

text \<open>The same two bounds for one key of a trace in which any keys interleave.\<close>

lemma fresh_entry:
  assumes "am_get m k = None" and "rl_entry_at cfg now m k = Some e"
  shows "re_tb e = tb_new_full cfg now" and "rl_entry_ok cfg e"
    and "0 < lc_window_secs cfg \<Longrightarrow> sw_curr_window_start_ms (re_sw e) \<le> now \<and> sw_curr_count (re_sw e) = 0"
  using assms rl_fresh_ok [of cfg now e] grid_floor_le [of "int (lc_window_secs cfg) * 1000" now]
  by (auto simp: rl_entry_at_def rl_fresh_def sw_new_def align_floor_def div_euclid_def)

lemma trace_first_entry:
  assumes run: "store_run memory_upd tr m = Some (ds, m')"
    and cfg: "\<forall>e\<in>set tr. fst e = k \<longrightarrow> fst (snd e) = cfg" and ts: "times_of k tr = t0 # ts"
  shows "\<exists>e m''. rl_entry_at cfg t0 m k = Some e \<and>
    store_run memory_upd (map (\<lambda>t. (k, cfg, t)) (t0 # ts)) m = Some (filter (\<lambda>e. fst e = k) ds, m'')"
proof -
  from rlmem.isolated [OF refl run, of k] obtain m'' where
    r: "store_run memory_upd (map (\<lambda>t. (k, cfg, t)) (t0 # ts)) m = Some (filter (\<lambda>e. fst e = k) ds, m'')"
    unfolding key_trace [OF cfg] ts by blast
  then obtain d m1 where "check_and_consume_inner k cfg t0 m = Some (d, m1)"
    by (cases "check_and_consume_inner k cfg t0 m") auto
  then have "\<exists>e. rl_entry_at cfg t0 m k = Some e" unfolding check_and_consume_entry by blast
  with r show ?thesis by blast
qed

lemma memory_run_total:
  "\<forall>e\<in>set tr. 0 < lc_window_secs (fst (snd e)) \<Longrightarrow> \<exists>ds m'. store_run memory_upd tr m = Some (ds, m')"
proof (induction tr arbitrary: m)
  case (Cons e tr)
  obtain k cfg t where e: "e = (k, cfg, t)" by (metis prod.collapse)
  obtain d m1 where "check_and_consume_inner k cfg t m = Some (d, m1)"
    using check_and_consume_total [of cfg k t m] Cons.prems e by auto
  moreover obtain ds m2 where "store_run memory_upd tr m1 = Some (ds, m2)"
    using Cons.IH [of m1] Cons.prems by auto
  ultimately show ?case by (simp add: e)
qed simp

lemma window_bound:
  assumes "limit_ok cfg" and "\<forall>e\<in>set tr. 0 < lc_window_secs (fst (snd e))"
    and "\<forall>e\<in>set tr. fst e = k \<longrightarrow> fst (snd e) = cfg" and "am_get m k = None"
    and "sorted (times_of k tr)" and "w mod (int (lc_window_secs cfg) * 1000) = 0"
  shows "\<exists>ds m'. store_run memory_upd tr m = Some (ds, m')
    \<and> allowed_in w (int (lc_window_secs cfg) * 1000) k ds \<le> lc_window_limit cfg"
proof -
  obtain ds m' where run: "store_run memory_upd tr m = Some (ds, m')"
    using memory_run_total [OF assms(2), of m] by blast
  have "allowed_in w (int (lc_window_secs cfg) * 1000) k ds \<le> lc_window_limit cfg"
  proof (cases "times_of k tr")
    case Nil
    then have "filter (\<lambda>e. fst e = k) tr = []" by (simp add: times_of_def)
    with rlmem.isolated [OF refl run, of k] have "filter (\<lambda>e. fst e = k) ds = []" by auto
    then show ?thesis
      by (subst allowed_filter(2) [symmetric]) (simp add: allowed_in_def)
  next
    case (Cons t ts)
    then have "filter (\<lambda>e. fst e = k) tr \<noteq> []" by (auto simp: times_of_def)
    then obtain e0 where "e0 \<in> set tr" "fst e0 = k" by (meson filter_empty_conv)
    then have pos: "0 < lc_window_secs cfg" using assms(2,3) by metis
    obtain e m'' where e: "rl_entry_at cfg t m k = Some e" and
      r: "store_run memory_upd (map (\<lambda>t. (k, cfg, t)) (t # ts)) m = Some (filter (\<lambda>e. fst e = k) ds, m'')"
      using trace_first_entry [OF run assms(3) Cons] by blast
    note fresh = fresh_entry [OF assms(4) e]
    have "sorted (sw_curr_window_start_ms (re_sw e) # t # ts)"
      using fresh(3) [OF pos] assms(5) unfolding Cons by (meson order_trans sorted2)
    then have "allowed_in w (int (lc_window_secs cfg) * 1000) k (filter (\<lambda>e. fst e = k) ds)
      + (if w = sw_curr_window_start_ms (re_sw e) then sw_curr_count (re_sw e) else 0)
      \<le> (if sw_curr_window_start_ms (re_sw e) \<le> w then lc_window_limit cfg else 0)"
      using key_run_window [OF assms(1) pos assms(6) fresh(2) _ _ r] e by (simp del: store_run.simps)
    then show ?thesis unfolding allowed_filter by (cases "sw_curr_window_start_ms (re_sw e) \<le> w") simp_all
  qed
  with run show ?thesis by blast
qed

definition sample_limit :: limit_cfg where
  "sample_limit = \<lparr>lc_burst_capacity = 2, lc_burst_refill_per_s = 1, lc_window_secs = 10, lc_window_limit = 2\<rparr>"

definition sample_trace :: "(string \<times> limit_cfg \<times> int) list" where
  "sample_trace = [(''a'', sample_limit, 1000), (''b'', sample_limit, 1000), (''a'', sample_limit, 1000),
     (''a'', sample_limit, 1500), (''a'', sample_limit, 3000)]"

lemmas sample_defs = sample_limit_def sample_trace_def limit_ok_def u32_max_def times_of_def am_get_def

text \<open>C5. The sustained limit holds: over any interleaving of requests on any keys, a key that
  starts without an entry and whose requests carry one limit and a clock that does not go back is
  allowed at most \<^verbatim>\<open>window_limit\<close> requests in every aligned window, and no request
  panics.\<close>

theorem rl_window_bound:
  assumes "limit_ok cfg" and "\<forall>e\<in>set tr. 0 < lc_window_secs (fst (snd e))"
    and "\<forall>e\<in>set tr. fst e = k \<longrightarrow> fst (snd e) = cfg" and "am_get m k = None"
    and "sorted (times_of k tr)" and "w mod (int (lc_window_secs cfg) * 1000) = 0"
  shows "\<exists>ds m'. store_run memory_upd tr m = Some (ds, m')
    \<and> allowed_in w (int (lc_window_secs cfg) * 1000) k ds \<le> lc_window_limit cfg"
  using assms by (rule window_bound)

theorem rl_window_bound_witness:
  "\<exists>ds m'. store_run memory_upd sample_trace [] = Some (ds, m') \<and> allowed_in 0 10000 ''a'' ds \<le> 2"
  using rl_window_bound [of sample_limit sample_trace "''a''" "[]" 0]
  by (simp add: sample_defs del: store_run.simps)

text \<open>C6. The burst limit holds, rounding included: under the same conditions a key is allowed at
  most \<^verbatim>\<open>burst_capacity\<close> requests plus what \<^verbatim>\<open>burst_refill_per_s\<close> yields between its first and
  its last request, with at most \<open>2\<^sup>-\<^sup>1\<^sup>9\<close> of a request per attempt for the rounding of
  the \<open>f64\<close> operations.\<close>

theorem rl_rate_bound:
  assumes "limit_ok cfg" and "\<forall>e\<in>set tr. 0 < lc_window_secs (fst (snd e))"
    and "\<forall>e\<in>set tr. fst e = k \<longrightarrow> fst (snd e) = cfg" and "am_get m k = None"
    and "times_of k tr = t0 # ts" and "sorted (t0 # ts)" and "last (t0 # ts) - t0 \<le> 2 ^ 53"
  shows "\<exists>ds m'. store_run memory_upd tr m = Some (ds, m')
    \<and> of_nat (allowed_for k ds) \<le> of_nat (lc_burst_capacity cfg)
        + of_int (last (t0 # ts) - t0) / 1000 * lc_burst_refill_per_s cfg + of_nat (length (t0 # ts)) / 2 ^ 19"
proof -
  obtain ds m' where run: "store_run memory_upd tr m = Some (ds, m')"
    using memory_run_total [OF assms(2), of m] by blast
  obtain e m'' where e: "rl_entry_at cfg t0 m k = Some e" and
    r: "store_run memory_upd (map (\<lambda>t. (k, cfg, t)) (t0 # ts)) m = Some (filter (\<lambda>e. fst e = k) ds, m'')"
    using trace_first_entry [OF run assms(3,5)] by blast
  note tb = fresh_entry(1) [OF assms(4) e]
  have "allowed_for k ds \<le> admitted (fst (tb_run cfg (t0 # ts) (tb_new_full cfg t0)))"
    using key_run_tokens [OF _ r, of e] e by (simp add: allowed_filter tb)
  then have "(of_nat (allowed_for k ds) :: rat) \<le> of_nat (admitted (fst (tb_run cfg (t0 # ts) (tb_new_full cfg t0))))"
    by (simp only: of_nat_le_iff)
  also have "\<dots> \<le> of_nat (lc_burst_capacity cfg)
      + of_int (last (t0 # ts) - t0) / 1000 * lc_burst_refill_per_s cfg + of_nat (length (t0 # ts)) / 2 ^ 19"
    using tb_run_budget [OF assms(1) tb_new_full_ok [of cfg t0], of "t0 # ts"] assms(6,7)
    by (simp add: tb_new_full_def del: tb_run.simps)
  finally show ?thesis using run by blast
qed

theorem rl_rate_bound_witness:
  "\<exists>ds m'. store_run memory_upd sample_trace [] = Some (ds, m') \<and>
     of_nat (allowed_for ''a'' ds) \<le> 2 + 2000 / 1000 * 1 + 4 / (2 ^ 19 :: rat)"
  using rl_rate_bound [of sample_limit sample_trace "''a''" "[]" 1000 "[1000, 1500, 3000]"]
  by (simp add: sample_defs del: store_run.simps)

subsection \<open>Cleanup\<close>

text \<open>The background cleanup keeps the store bounded and never evicts the wrong entry: it
  leaves at most \<^verbatim>\<open>MAX_ENTRIES\<close>, all of them touched within the TTL and unchanged; an entry it
  drops was idle past the TTL, or the store was over the cap and every kept entry was touched at
  least as recently; the returned count is the number of entries dropped.\<close>

theorem cleanup_spec:
  assumes "am_wf m" and "cleanup now m = (n, m')"
  shows "am_wf m' \<and> length m' \<le> MAX_ENTRIES \<and> n + length m' = length m
    \<and> (\<forall>k e. am_get m' k = Some e \<longrightarrow> am_get m k = Some e \<and> i64_sat_sub now (re_last_touch_ms e) < ENTRY_TTL_ms)
    \<and> (\<forall>k e. am_get m k = Some e \<longrightarrow> am_get m' k = None \<longrightarrow> ENTRY_TTL_ms \<le> i64_sat_sub now (re_last_touch_ms e)
          \<or> length m' = MAX_ENTRIES
            \<and> (\<forall>k' e'. am_get m' k' = Some e' \<longrightarrow> re_last_touch_ms e \<le> re_last_touch_ms e'))"
proof -
  have "m' = retain_evict (\<lambda>e. i64_sat_sub now (re_last_touch_ms e) < ENTRY_TTL_ms) re_last_touch_ms MAX_ENTRIES m"
    and "n = length m - length m'"
    using assms(2) by (auto simp: cleanup_def retain_evict_def Let_def)
  with retain_evict_spec [OF assms(1) this(1)] show ?thesis by (simp add: not_less)
qed

definition sample_store :: memory_store where
  "sample_store = [(''a'', \<lparr>re_tb = \<lparr>tb_tokens = 1, tb_last_check_ms = 0\<rparr>,
     re_sw = \<lparr>sw_curr_count = 1, sw_prev_count = 0, sw_curr_window_start_ms = 0\<rparr>, re_last_touch_ms = 0\<rparr>),
    (''b'', \<lparr>re_tb = \<lparr>tb_tokens = 1, tb_last_check_ms = 500000\<rparr>,
     re_sw = \<lparr>sw_curr_count = 1, sw_prev_count = 0, sw_curr_window_start_ms = 500000\<rparr>, re_last_touch_ms = 500000\<rparr>)]"

theorem cleanup_spec_witness:
  "cleanup 700000 sample_store = (1, tl sample_store) \<and> am_wf (tl sample_store)"
proof -
  have "cleanup 700000 sample_store = (1, tl sample_store)" and "am_wf sample_store"
    by (simp_all add: cleanup_def sample_store_def am_retain_def am_wf_def Let_def machine_simps
        MAX_ENTRIES_def ENTRY_TTL_ms_def)
  then show ?thesis using cleanup_spec [of sample_store 700000 1 "tl sample_store"] by simp
qed

end
