(* ===== verification/RedisStore.thy ===== *)
theory RedisStore
  imports RateStore
begin

text \<open>
  The Redis backend of the rate limiter (\<^verbatim>\<open>store/redis.rs\<close>): the Lua script the code sends,
  the arguments it sends with it, the reading of the reply with its failure counter, and the
  breaker that falls back to the in-memory store (\<^verbatim>\<open>store/breaker.rs\<close>).  The connection and the
  server are the parameter \<open>invoke\<close>, which answers an invocation and changes a state of its
  own.  Lua numbers are doubles: divisions, products and sums of fractional values round by
  \<^const>\<open>f64_rnd\<close>; integer sums and differences of clock values below \<open>2\<^sup>5\<^sup>3\<close> are exact.
\<close>

section \<open>The Lua script\<close>

record lua_hash =
  lh_tb_tokens :: "rat option"
  lh_tb_last_ms :: "int option"
  lh_sw_curr :: "nat option"
  lh_sw_prev :: "nat option"
  lh_sw_win_start_ms :: "int option"

definition lua_or :: "'a option \<Rightarrow> 'a \<Rightarrow> 'a" where
  "lua_or v d = (case v of Some x \<Rightarrow> x | None \<Rightarrow> d)"

definition lua_align :: "int \<Rightarrow> int \<Rightarrow> int" where
  "lua_align now win_ms = \<lfloor>f64_rnd (of_int now / of_int win_ms)\<rfloor> * win_ms"

definition lua_weight :: "int \<Rightarrow> int \<Rightarrow> rat" where
  "lua_weight elapsed win_ms =
     f64_rnd (1 - min 1 (max 0 (f64_rnd (of_int elapsed / of_int win_ms))))"

definition lua_check_and_consume ::
  "int \<Rightarrow> nat \<Rightarrow> int \<Rightarrow> nat \<Rightarrow> nat \<Rightarrow> lua_hash \<Rightarrow> int \<times> lua_hash" where
  "lua_check_and_consume now cap refill_e3 win_s limit h =
     (let tb_tokens = lua_or (lh_tb_tokens h) (of_nat cap);
          tb_last_ms = lua_or (lh_tb_last_ms h) now;
          sw_curr = lua_or (lh_sw_curr h) 0;
          sw_prev = lua_or (lh_sw_prev h) 0;
          win_ms = int win_s * 1000;
          sw_start = lua_or (lh_sw_win_start_ms h) (lua_align now win_ms);
          elapsed_s = f64_rnd (of_int (max 0 (now - tb_last_ms)) / 1000);
          tb_tokens = min (of_nat cap)
            (f64_rnd (tb_tokens + f64_rnd (elapsed_s * f64_rnd (of_int refill_e3 / 1000))))
      in if tb_tokens < 1
         then (1, h\<lparr>lh_tb_tokens := Some tb_tokens, lh_tb_last_ms := Some now\<rparr>)
         else
           let tb_tokens = f64_rnd (tb_tokens - 1);
               bucket_now = lua_align now win_ms;
               advance = \<lfloor>f64_rnd (of_int (bucket_now - sw_start) / of_int win_ms)\<rfloor>;
               (sw_prev, sw_curr, sw_start) =
                 (if advance = 1 then (sw_curr, 0, bucket_now)
                  else if 2 \<le> advance then (0, 0, bucket_now)
                  else (sw_prev, sw_curr, sw_start));
               estimated = f64_rnd (of_nat sw_curr
                 + f64_rnd (of_nat sw_prev * lua_weight (now - sw_start) win_ms));
               h' = \<lambda>c. \<lparr>lh_tb_tokens = Some tb_tokens, lh_tb_last_ms = Some now, lh_sw_curr = Some c,
                         lh_sw_prev = Some sw_prev, lh_sw_win_start_ms = Some sw_start\<rparr>
           in if of_nat limit < f64_rnd (estimated + 1) then (2, h' sw_curr) else (0, h' (sw_curr + 1)))"

section \<open>The store\<close>

record redis_config =
  rc_url :: string
  rc_key_prefix :: string
  rc_op_timeout_ms :: nat
  rc_breaker_threshold :: "32 word"

definition redis_config_default :: redis_config where
  "redis_config_default = \<lparr>rc_url = ''redis://127.0.0.1:6379'', rc_key_prefix = ''wafrl:'',
     rc_op_timeout_ms = 50, rc_breaker_threshold = 5\<rparr>"

record redis_args =
  ra_key :: string
  ra_now_ms :: int
  ra_burst_capacity :: nat
  ra_refill_e3 :: int
  ra_window_secs :: nat
  ra_window_limit :: nat
  ra_ttl :: int

datatype invoke_result = Reply int | RedisError | RedisTimeout

datatype redis_error = UnexpectedReturn int | RedisFailure | RedisTimedOut

record 'w redis_store =
  rs_conn :: 'w
  rs_cfg :: redis_config
  rs_consecutive_fails :: "32 word"

text \<open>\<^verbatim>\<open>f64::round\<close> rounds half away from zero; the cast to \<open>i64\<close> saturates.\<close>

definition f64_round :: "rat \<Rightarrow> int" where
  "f64_round x = (if 0 \<le> x then \<lfloor>x + 1 / 2\<rfloor> else - \<lfloor>1 / 2 - x\<rfloor>)"

definition redis_new :: "'w \<Rightarrow> redis_config \<Rightarrow> 'w redis_store" where
  "redis_new conn cfg = \<lparr>rs_conn = conn, rs_cfg = cfg, rs_consecutive_fails = 0\<rparr>"

definition breaker_open :: "'w redis_store \<Rightarrow> bool" where
  "breaker_open s \<longleftrightarrow> rc_breaker_threshold (rs_cfg s) \<le> rs_consecutive_fails s"

definition record_ok :: "'w redis_store \<Rightarrow> 'w redis_store" where
  "record_ok s = s\<lparr>rs_consecutive_fails := 0\<rparr>"

definition record_fail :: "'w redis_store \<Rightarrow> 'w redis_store" where
  "record_fail s = s\<lparr>rs_consecutive_fails := rs_consecutive_fails s + 1\<rparr>"

definition redis_invocation :: "redis_config \<Rightarrow> string \<Rightarrow> limit_cfg \<Rightarrow> int \<Rightarrow> redis_args" where
  "redis_invocation c key cfg now =
     \<lparr>ra_key = rc_key_prefix c @ key, ra_now_ms = now, ra_burst_capacity = lc_burst_capacity cfg,
      ra_refill_e3 = i64_clamp (f64_round (f64_rnd (lc_burst_refill_per_s cfg * 1000))),
      ra_window_secs = lc_window_secs cfg, ra_window_limit = lc_window_limit cfg,
      ra_ttl = max (i64_clamp (int (lc_window_secs cfg) * 4)) 60\<rparr>"

definition redis_check_and_consume ::
  "(redis_args \<Rightarrow> 'w \<Rightarrow> invoke_result \<times> 'w) \<Rightarrow> string \<Rightarrow> limit_cfg \<Rightarrow> int \<Rightarrow> 'w redis_store \<Rightarrow>
   (redis_error + decision) \<times> 'w redis_store" where
  "redis_check_and_consume invoke key cfg now s =
     (let (res, conn) = invoke (redis_invocation (rs_cfg s) key cfg now) (rs_conn s);
          s = s\<lparr>rs_conn := conn\<rparr>
      in case res of
           Reply c \<Rightarrow>
             if c = 0 then (Inr RlAllow, record_ok s)
             else if c = 1 then (Inr BurstExceeded, record_ok s)
             else if c = 2 then (Inr SustainedExceeded, record_ok s)
             else (Inl (UnexpectedReturn c), record_fail s)
         | RedisError \<Rightarrow> (Inl RedisFailure, record_fail s)
         | RedisTimeout \<Rightarrow> (Inl RedisTimedOut, record_fail s))"

section \<open>The breaker\<close>

record 'w breaker_store =
  bs_redis :: "'w redis_store"
  bs_memory :: memory_store

definition breaker_check_and_consume ::
  "(redis_args \<Rightarrow> 'w \<Rightarrow> invoke_result \<times> 'w) \<Rightarrow> string \<Rightarrow> limit_cfg \<Rightarrow> int \<Rightarrow> 'w breaker_store \<Rightarrow>
   ((redis_error + decision) \<times> 'w breaker_store) option" where
  "breaker_check_and_consume invoke key cfg now b =
     (let from_memory = \<lambda>b. map_option (\<lambda>(r, m). (r, b\<lparr>bs_memory := m\<rparr>))
            (memory_check_and_consume key cfg now (bs_memory b))
      in if breaker_open (bs_redis b) then from_memory b
         else
           let (r, redis) = redis_check_and_consume invoke key cfg now (bs_redis b);
               b = b\<lparr>bs_redis := redis\<rparr>
           in case r of Inr d \<Rightarrow> Some (Inr d, b) | Inl e \<Rightarrow> from_memory b)"

definition breaker_purge_expired :: "int \<Rightarrow> 'w breaker_store \<Rightarrow> nat \<times> 'w breaker_store" where
  "breaker_purge_expired now b =
     (let (n, m) = cleanup now (bs_memory b) in (n, b\<lparr>bs_memory := m\<rparr>))"

abbreviation breaker_upd where
  "breaker_upd invoke k a \<equiv> breaker_check_and_consume invoke k (fst a) (snd a)"

lemma breaker_total:
  assumes "0 < lc_window_secs cfg"
  shows "\<exists>d b'. breaker_check_and_consume invoke key cfg now b = Some (Inr d, b')"
proof -
  obtain d m where "check_and_consume_inner key cfg now (bs_memory b) = Some (d, m)"
    using check_and_consume_total [OF assms, of key now "bs_memory b"] by auto
  then show ?thesis
    by (auto simp: breaker_check_and_consume_def memory_check_and_consume_def Let_def case_prod_beta
        split: sum.splits)
qed

text \<open>The breaker never surfaces a Redis failure: whatever the server answers, a request with
  a window of positive length gets a decision, and when Redis fails or the breaker is open it is
  the decision of the in-memory store.\<close>

theorem breaker_masks_errors:
  assumes "0 < lc_window_secs cfg"
  shows "\<exists>d b'. breaker_check_and_consume invoke key cfg now b = Some (Inr d, b')
    \<and> (breaker_open (bs_redis b) \<or> isl (fst (redis_check_and_consume invoke key cfg now (bs_redis b)))
        \<longrightarrow> check_and_consume_inner key cfg now (bs_memory b) = Some (d, bs_memory b'))"
proof -
  obtain d b' where r: "breaker_check_and_consume invoke key cfg now b = Some (Inr d, b')"
    using breaker_total [OF assms] by blast
  then have "breaker_open (bs_redis b) \<or> isl (fst (redis_check_and_consume invoke key cfg now (bs_redis b)))
      \<Longrightarrow> check_and_consume_inner key cfg now (bs_memory b) = Some (d, bs_memory b')"
    by (auto simp: breaker_check_and_consume_def memory_check_and_consume_def Let_def case_prod_beta
        split: sum.splits if_splits)
  with r show ?thesis by blast
qed

theorem breaker_masks_errors_witness:
  "\<exists>d b'. breaker_check_and_consume (\<lambda>_ w. (RedisTimeout, w)) ''k'' sample_limit 0
      \<lparr>bs_redis = redis_new () redis_config_default, bs_memory = []\<rparr> = Some (Inr d, b')"
  using breaker_masks_errors [of sample_limit "\<lambda>_ w. (RedisTimeout, w)" "''k''" 0
      "\<lparr>bs_redis = redis_new () redis_config_default, bs_memory = []\<rparr>"]
  by (auto simp: sample_limit_def)

lemma breaker_open_step:
  assumes "breaker_open (bs_redis b)" and "breaker_check_and_consume invoke k cfg now b = Some (r, b')"
  shows "bs_redis b' = bs_redis b"
    and "\<exists>d. r = Inr d \<and> check_and_consume_inner k cfg now (bs_memory b) = Some (d, bs_memory b')"
  using assms by (auto simp: breaker_check_and_consume_def memory_check_and_consume_def)


definition sample_breaker :: "unit breaker_store" where
  "sample_breaker =
     \<lparr>bs_redis = \<lparr>rs_conn = (), rs_cfg = redis_config_default, rs_consecutive_fails = 5\<rparr>, bs_memory = []\<rparr>"


section \<open>The script and the in-memory store\<close>

definition hash_of :: "rl_entry \<Rightarrow> lua_hash" where
  "hash_of e = \<lparr>lh_tb_tokens = Some (tb_tokens (re_tb e)), lh_tb_last_ms = Some (tb_last_check_ms (re_tb e)),
     lh_sw_curr = Some (sw_curr_count (re_sw e)), lh_sw_prev = Some (sw_prev_count (re_sw e)),
     lh_sw_win_start_ms = Some (sw_curr_window_start_ms (re_sw e))\<rparr>"

definition code_of :: "decision \<Rightarrow> int" where
  "code_of d = (case d of RlAllow \<Rightarrow> 0 | BurstExceeded \<Rightarrow> 1 | SustainedExceeded \<Rightarrow> 2)"

lemma f64_exact_int: "\<bar>i\<bar> \<le> 2 ^ 53 \<Longrightarrow> f64_rnd (of_int i) = of_int i"
proof -
  assume i: "\<bar>i\<bar> \<le> 2 ^ 53"
  have "f64_rnd (of_nat (nat \<bar>i\<bar>)) = of_nat (nat \<bar>i\<bar>)" using i by (intro f64.exact) simp
  then show ?thesis by (cases "0 \<le> i") (simp_all add: f64_rnd_def split: if_splits)
qed

text \<open>Division of clock values in doubles has the exact floor.\<close>

lemma floor_f64_quot:
  assumes "0 \<le> a" and "a < 2 ^ 53" and "0 < b" and "b < 2 ^ 53"
  shows "\<lfloor>f64_rnd (of_int a / of_int b)\<rfloor> = a div b"
proof (cases "a = 0")
  case True
  then show ?thesis by (simp add: f64.zero)
next
  case False
  let ?x = "of_int a / of_int b :: rat"
  have dm: "a = a div b * b + a mod b" by simp
  have mb: "a mod b \<le> b - 1" "0 \<le> a mod b" using assms(3) by (simp_all add: pos_mod_bound)
  have lo: "of_int (a div b) \<le> ?x"
    using assms(3) by (metis floor_divide_of_int_eq of_int_floor_le)
  have "of_nat (nat (a div b)) \<le> f64_rnd ?x"
  proof (rule f64.ge_nat)
    have nn: "0 \<le> a div b" using assms by (simp add: pos_imp_zdiv_nonneg_iff)
    show "of_nat (nat (a div b)) \<le> ?x" using lo nn by simp
    have "a div b \<le> a" using zdiv_mono2 [of a 1 b] assms by simp
    then show "nat (a div b) \<le> 2 ^ 53" using assms(2) by simp
  qed
  then have ge: "of_int (a div b) \<le> f64_rnd ?x"
    using assms by (simp add: pos_imp_zdiv_nonneg_iff)
  have "(2::rat) powi (-1000) \<le> 2 powi (-53)" by (intro power_int_increasing) auto
  also have "\<dots> \<le> ?x"
  proof -
    have "of_int b \<le> (2 ^ 53 :: rat)" using assms(4) by (metis less_imp_le of_int_le_iff of_int_numeral of_int_power)
    moreover have "1 \<le> (of_int a :: rat)" using False assms(1) by simp
    moreover from this have "2 ^ 53 * 1 \<le> 2 ^ 53 * (of_int a :: rat)" by (intro mult_left_mono) auto
    ultimately have "of_int b \<le> 2 ^ 53 * (of_int a :: rat)" by linarith
    then show ?thesis using assms(3) by (simp add: power_int_minus field_simps)
  qed
  finally have "f64_rnd ?x \<le> ?x + ?x * 2 powi (-53)" by (rule f64_rnd_rel_error)
  also have "?x * 2 powi (-53) < 1 / of_int b"
  proof -
    have "(of_int a :: rat) < 2 ^ 53" using assms(2) by (metis of_int_less_iff of_int_numeral of_int_power)
    then show ?thesis using assms(3) by (simp add: power_int_minus field_simps)
  qed
  also have "?x + 1 / of_int b = (of_int (a + 1)) / of_int b" by (simp add: add_divide_distrib)
  also have "\<dots> \<le> of_int (a div b) + 1"
  proof -
    have "a + 1 \<le> a div b * b + b" using dm mb by linarith
    then have "a + 1 \<le> (a div b + 1) * b" by (simp only: distrib_right mult_1)
    then have "(of_int (a + 1) :: rat) \<le> of_int ((a div b + 1) * b)" by (simp only: of_int_le_iff)
    then show ?thesis using assms(3) by (simp add: field_simps)
  qed
  finally show ?thesis using ge by (simp add: floor_eq_iff)
qed

lemma lua_align_eq:
  "0 \<le> now \<Longrightarrow> now < 2 ^ 53 \<Longrightarrow> 0 < w \<Longrightarrow> w < 2 ^ 53 \<Longrightarrow> lua_align now w = now div w * w"
  by (simp add: lua_align_def floor_f64_quot)

lemma lua_tokens_eq:
  assumes "\<bar>now - prev\<bar> \<le> 2 ^ 53" and "f64_rnd (of_int e3 / 1000) = lc_burst_refill_per_s cfg"
  shows "f64_rnd (f64_rnd (of_int (max 0 (now - prev)) / 1000) * f64_rnd (of_int e3 / 1000))
    = tb_refill cfg (max (now - prev) 0)"
proof -
  have "\<bar>max (now - prev) 0\<bar> \<le> 2 ^ 53" using assms(1) by simp
  then show ?thesis unfolding tb_refill_def Let_def assms(2)
    by (simp only: f64_exact_int max.commute [of 0])
qed

lemma lua_estimate_eq:
  assumes w: "0 < w" "w < 2 ^ 53" and el: "\<bar>now - sw_curr_window_start_ms sw\<bar> \<le> 2 ^ 53"
    and exact: "f64_rnd (of_nat (sw_prev_count sw) * lua_weight (now - sw_curr_window_start_ms sw) w)
      = of_nat (sw_prev_count sw) * lua_weight (now - sw_curr_window_start_ms sw) w"
  shows "f64_rnd (of_nat (sw_curr_count sw)
     + f64_rnd (of_nat (sw_prev_count sw) * lua_weight (now - sw_curr_window_start_ms sw) w)) = sw_estimate w now sw"
proof -
  let ?d = "now - sw_curr_window_start_ms sw"
  have ex: "f64_rnd (of_int (max ?d 0)) = of_int (max ?d 0)" "f64_rnd (of_int w) = of_int w"
    using el w by (intro f64_exact_int; simp)+
  have "max 0 (f64_rnd (of_int ?d / of_int w)) = max 0 (f64_rnd (of_int (max ?d 0) / of_int w))"
  proof (cases "0 \<le> ?d")
    case False
    then have "of_int ?d / of_int w \<le> (0::rat)" using w by (simp add: divide_nonpos_pos)
    then have "f64_rnd (of_int ?d / of_int w) \<le> 0" using f64.mono f64.zero by metis
    then show ?thesis using False by (simp add: f64.zero)
  qed (simp add: max_def)
  then have "lua_weight ?d w = f64_rnd (1 - max 0 (min 1 (f64_rnd (of_int (max ?d 0) / of_int w))))"
    by (simp add: lua_weight_def min_max_distrib2)
  then show ?thesis unfolding exact sw_estimate_def Let_def ex by (simp add: add.commute)
qed

text \<open>The advance the script computes decides the roll as the code does.\<close>

lemma lua_roll_eq:
  assumes w: "0 < w" "w < 2 ^ 53" and s: "s mod w = 0" "0 \<le> s" "s < 2 ^ 53" and b: "b mod w = 0" "0 \<le> b" "b < 2 ^ 53"
  shows "\<lfloor>f64_rnd (of_int (b - s) / of_int w)\<rfloor> = (b - s) div w"
proof -
  have "w dvd b - s" using s(1) b(1) by (simp add: mod_eq_0_iff_dvd dvd_diff)
  then obtain q where q: "b - s = w * q" by auto
  have "\<bar>q\<bar> \<le> \<bar>w * q\<bar>" using w(1) by (simp add: abs_mult mult_le_cancel_right1)
  also have "\<dots> \<le> 2 ^ 53" using q s b by linarith
  finally have "f64_rnd (of_int q) = of_int q" by (rule f64_exact_int)
  moreover have "of_int (b - s) / of_int w = (of_int q :: rat)" unfolding q using w(1) by simp
  moreover have "(b - s) div w = q" unfolding q using w(1) by simp
  ultimately show ?thesis by simp
qed

text \<open>One run of the script in the terms of the in-memory algorithm.\<close>

definition clock_ok :: "int \<Rightarrow> rl_entry \<Rightarrow> bool" where
  "clock_ok now e \<longleftrightarrow> 0 \<le> now \<and> now < 2 ^ 53 \<and> 0 \<le> tb_last_check_ms (re_tb e) \<and> tb_last_check_ms (re_tb e) < 2 ^ 53
     \<and> 0 \<le> sw_curr_window_start_ms (re_sw e) \<and> sw_curr_window_start_ms (re_sw e) < 2 ^ 53"

lemma lua_roll_state:
  assumes "limit_ok cfg" and "0 < lc_window_secs cfg" and "sw_ok cfg sw" and "0 \<le> now" and "now < 2 ^ 53"
    and "0 \<le> sw_curr_window_start_ms sw" and "sw_curr_window_start_ms sw < 2 ^ 53"
  defines "w \<equiv> int (lc_window_secs cfg) * 1000"
  shows "(let bucket_now = lua_align now w; advance = \<lfloor>f64_rnd (of_int (bucket_now - sw_curr_window_start_ms sw) / of_int w)\<rfloor>
      in (if advance = 1 then (sw_curr_count sw, 0, bucket_now) else if 2 \<le> advance then (0, 0, bucket_now)
          else (sw_prev_count sw, sw_curr_count sw, sw_curr_window_start_ms sw)))
    = (let r = sw_rolled cfg now sw in (sw_prev_count r, sw_curr_count r, sw_curr_window_start_ms r))"
proof -
  have w: "0 < w" "w < 2 ^ 53" using assms(1,2) by (simp_all add: w_def limit_ok_def u32_max_def)
  let ?b = "now div w * w"
  have b: "?b mod w = 0" "0 \<le> ?b" "?b < 2 ^ 53"
    using w assms(4,5) grid_floor_le [OF w(1), of now] by (simp_all add: pos_imp_zdiv_nonneg_iff)
  have s: "sw_curr_window_start_ms sw mod w = 0" using assms(3) by (simp add: sw_ok_def w_def)
  show ?thesis
    unfolding lua_align_eq [OF assms(4,5) w] Let_def lua_roll_eq [OF w s assms(6,7) b] sw_rolled_def
      w_def [symmetric] by (auto simp: sw_roll_def max_def)
qed

lemma sw_rolled_start:
  "sw_curr_window_start_ms (sw_rolled cfg now sw) = sw_curr_window_start_ms sw \<or>
   sw_curr_window_start_ms (sw_rolled cfg now sw) =
     now div (int (lc_window_secs cfg) * 1000) * (int (lc_window_secs cfg) * 1000)"
  by (simp add: sw_rolled_def sw_roll_def Let_def)


definition sample_entry :: "rat \<Rightarrow> nat \<Rightarrow> rl_entry" where
  "sample_entry tokens n =
     \<lparr>re_tb = \<lparr>tb_tokens = tokens, tb_last_check_ms = 20000\<rparr>,
      re_sw = \<lparr>sw_curr_count = n, sw_prev_count = 0, sw_curr_window_start_ms = 20000\<rparr>, re_last_touch_ms = 20000\<rparr>"


end
