(* ===== verification/RateCheck.thy ===== *)
theory RateCheck
  imports RedisStore
begin

text \<open>
  The rate-limit check of the request pipeline: key construction (\<^verbatim>\<open>key.rs\<close>), the operator's
  configuration with its validation and hot reload (\<^verbatim>\<open>config.rs\<close>, \<^verbatim>\<open>mod.rs\<close>,
  \<^verbatim>\<open>reload.rs\<close>) and the check itself (\<^verbatim>\<open>check.rs\<close>).  The store behind the
  \<^verbatim>\<open>RateLimitStore\<close> trait is a parameter of the check; the YAML parser and the file system are
  parameters of loading.
\<close>

section \<open>Keys\<close>

datatype key_kind = IpKey string ip_addr | SessionKey string string

fun render :: "key_kind \<Rightarrow> string" where
  "render (IpKey host ip) = ''ip:'' @ host @ '':'' @ show_ip ip"
| "render (SessionKey host session) = ''sess:'' @ host @ '':'' @ session"

fun key_host :: "key_kind \<Rightarrow> string" where
  "key_host (IpKey host ip) = host"
| "key_host (SessionKey host session) = host"

lemma colon_split:
  assumes "CHR '':'' \<notin> set a" and "CHR '':'' \<notin> set b" and "a @ CHR '':'' # x = b @ CHR '':'' # y"
  shows "a = b \<and> x = y"
proof -
  have "split_once CHR '':'' (a @ CHR '':'' # x) = split_once CHR '':'' (b @ CHR '':'' # y)"
    by (simp only: assms(3))
  then show ?thesis using assms(1,2) by (simp add: split_once_append)
qed

lemma render_eq_iff:
  assumes "CHR '':'' \<notin> set (key_host a)" and "CHR '':'' \<notin> set (key_host b)"
  shows "render a = render b \<longleftrightarrow> a = b"
proof
  assume eq: "render a = render b"
  show "a = b"
  proof (cases a)
    case a: (IpKey h i)
    then obtain h' i' where b: "b = IpKey h' i'" using eq by (cases b) auto
    have "h @ CHR '':'' # show_ip i = h' @ CHR '':'' # show_ip i'" using eq by (simp add: a b)
    then have "h = h' \<and> show_ip i = show_ip i'" using assms by (intro colon_split) (simp_all add: a b)
    then show ?thesis using show_ip_inj [of i i'] by (simp add: a b)
  next
    case a: (SessionKey h i)
    then obtain h' i' where b: "b = SessionKey h' i'" using eq by (cases b) auto
    have "h @ CHR '':'' # i = h' @ CHR '':'' # i'" using eq by (simp add: a b)
    then show ?thesis using colon_split [of h h' i i'] assms by (simp add: a b)
  qed
qed simp

text \<open>C38. Rate-limit keys identify their scope: for host codes without a colon, two keys render to the
  same string only when they are the same kind, host and address or session, so no client can
  spend another client's, session's or host's budget.\<close>

theorem render_injective:
  assumes "CHR '':'' \<notin> set (key_host a)" and "CHR '':'' \<notin> set (key_host b)"
  shows "render a = render b \<longleftrightarrow> a = b"
  using assms by (rule render_eq_iff)

theorem render_injective_witness:
  "render (IpKey ''shop'' (V4 10 0 0 1)) \<noteq> render (SessionKey ''shop'' ''10.0.0.1'')"
  using render_injective [of "IpKey ''shop'' (V4 10 0 0 1)" "SessionKey ''shop'' ''10.0.0.1''"] by simp

section \<open>Configuration\<close>

record rate_limit_config =
  rlc_session_cookie :: string
  rlc_tiers :: "tier \<rightharpoonup> limit_cfg"

definition rlc_default :: rate_limit_config where
  "rlc_default = \<lparr>rlc_session_cookie = ''SESSIONID'', rlc_tiers = Map.empty\<rparr>"

definition for_tier :: "rate_limit_config \<Rightarrow> tier \<Rightarrow> limit_cfg option" where
  "for_tier c t = rlc_tiers c t"

text \<open>An \<open>f64\<close> as the parser delivers it: finite, or an infinity or not-a-number.\<close>

datatype yaml_f64 = Finite rat | NonFinite

record tier_limit_cfg =
  tl_burst_capacity :: nat
  tl_burst_refill_per_s :: yaml_f64
  tl_window_secs :: nat
  tl_window_limit :: nat

record tier_map =
  tm_critical :: "tier_limit_cfg option"
  tm_high :: "tier_limit_cfg option"
  tm_medium :: "tier_limit_cfg option"
  tm_catch_all :: "tier_limit_cfg option"

record redis_cfg =
  rdc_url :: string
  rdc_key_prefix :: string
  rdc_op_timeout_ms :: nat
  rdc_breaker_threshold :: nat

record rate_limit_file_config =
  rf_schema_version :: nat
  rf_enabled :: bool
  rf_session_cookie :: string
  rf_hot_reload :: bool
  rf_tiers :: tier_map
  rf_redis :: "redis_cfg option"

definition SCHEMA_VERSION :: nat where "SCHEMA_VERSION = 1"

definition rate_limit_file_default :: rate_limit_file_config where
  "rate_limit_file_default =
     \<lparr>rf_schema_version = SCHEMA_VERSION, rf_enabled = False, rf_session_cookie = ''SESSIONID'',
      rf_hot_reload = True,
      rf_tiers = \<lparr>tm_critical = None, tm_high = None, tm_medium = None, tm_catch_all = None\<rparr>,
      rf_redis = None\<rparr>"

datatype rl_config_error =
    UnsupportedSchema nat | EmptySessionCookie | ZeroCapacity string | BadRefill string
  | ZeroWindow string | ZeroLimit string | EmptyRedisUrl

definition iter_tiers :: "rate_limit_file_config \<Rightarrow> (string \<times> tier_limit_cfg) list" where
  "iter_tiers c = List.map_filter (\<lambda>(n, t). map_option (Pair n) t)
     [(''critical'', tm_critical (rf_tiers c)), (''high'', tm_high (rf_tiers c)),
      (''medium'', tm_medium (rf_tiers c)), (''catch_all'', tm_catch_all (rf_tiers c))]"

fun validate_tiers :: "(string \<times> tier_limit_cfg) list \<Rightarrow> rl_config_error + unit" where
  "validate_tiers [] = Inr ()"
| "validate_tiers ((name, t) # ts) =
     (if tl_burst_capacity t = 0 then Inl (ZeroCapacity name)
      else if (case tl_burst_refill_per_s t of NonFinite \<Rightarrow> True | Finite r \<Rightarrow> r < 0) then Inl (BadRefill name)
      else if tl_window_secs t = 0 then Inl (ZeroWindow name)
      else if tl_window_limit t = 0 then Inl (ZeroLimit name)
      else validate_tiers ts)"

definition rl_validate :: "rate_limit_file_config \<Rightarrow> rl_config_error + unit" where
  "rl_validate c =
     (if rf_schema_version c \<noteq> SCHEMA_VERSION then Inl (UnsupportedSchema (rf_schema_version c))
      else if rf_session_cookie c = [] then Inl EmptySessionCookie
      else (case validate_tiers (iter_tiers c) of
              Inl e \<Rightarrow> Inl e
            | Inr _ \<Rightarrow>
                (case rf_redis c of
                   Some r \<Rightarrow> if rdc_url r = [] then Inl EmptyRedisUrl else Inr ()
                 | None \<Rightarrow> Inr ())))"

text \<open>\<^verbatim>\<open>From<TierLimitCfg>\<close>; a rate that is not finite has been refused by validation.\<close>

definition limit_of :: "tier_limit_cfg \<Rightarrow> limit_cfg" where
  "limit_of t = \<lparr>lc_burst_capacity = tl_burst_capacity t,
     lc_burst_refill_per_s = (case tl_burst_refill_per_s t of Finite r \<Rightarrow> r | NonFinite \<Rightarrow> 0),
     lc_window_secs = tl_window_secs t, lc_window_limit = tl_window_limit t\<rparr>"

definition insert_tier ::
  "tier \<Rightarrow> tier_limit_cfg option \<Rightarrow> (tier \<rightharpoonup> limit_cfg) \<Rightarrow> (tier \<rightharpoonup> limit_cfg)" where
  "insert_tier k t m = (case t of Some t \<Rightarrow> m(k \<mapsto> limit_of t) | None \<Rightarrow> m)"

definition into_runtime :: "rate_limit_file_config \<Rightarrow> rate_limit_config" where
  "into_runtime c =
     \<lparr>rlc_session_cookie = rf_session_cookie c,
      rlc_tiers =
        (if rf_enabled c
         then insert_tier CatchAll (tm_catch_all (rf_tiers c))
               (insert_tier Medium (tm_medium (rf_tiers c))
                 (insert_tier High (tm_high (rf_tiers c))
                   (insert_tier Critical (tm_critical (rf_tiers c)) Map.empty)))
         else Map.empty)\<rparr>"

datatype 'p rl_load_error = ParseYaml 'p | Invalid rl_config_error | ReadFile

definition rl_from_yaml_str ::
  "(string \<Rightarrow> 'p + rate_limit_file_config) \<Rightarrow> string \<Rightarrow> 'p rl_load_error + rate_limit_config" where
  "rl_from_yaml_str parse s =
     (case parse s of
        Inl e \<Rightarrow> Inl (ParseYaml e)
      | Inr cfg \<Rightarrow> (case rl_validate cfg of Inl e \<Rightarrow> Inl (Invalid e) | Inr _ \<Rightarrow> Inr (into_runtime cfg)))"

definition rl_from_path ::
  "(string \<Rightarrow> 'p + rate_limit_file_config) \<Rightarrow> string option \<Rightarrow> 'p rl_load_error + rate_limit_config" where
  "rl_from_path parse raw = (case raw of None \<Rightarrow> Inl ReadFile | Some s \<Rightarrow> rl_from_yaml_str parse s)"

definition rl_reload ::
  "(string \<Rightarrow> 'p + rate_limit_file_config) \<Rightarrow> string option \<Rightarrow> rate_limit_config \<Rightarrow> rate_limit_config" where
  "rl_reload parse raw live = (case rl_from_path parse raw of Inr cfg \<Rightarrow> cfg | Inl _ \<Rightarrow> live)"

section \<open>The check\<close>

definition rl_block :: "string \<Rightarrow> string \<Rightarrow> decision \<Rightarrow> detection_result" where
  "rl_block rule_id scope d =
     \<lparr>dr_rule_id = Some rule_id, dr_rule_name = ''Rate Limit'', dr_phase = RateLimit,
      dr_detail = (case d of
          BurstExceeded \<Rightarrow> scope @ '' burst limit exceeded''
        | SustainedExceeded \<Rightarrow> scope @ '' sustained window limit exceeded''
        | RlAllow \<Rightarrow> scope @ '' allowed'')\<rparr>"

definition handle_store_err :: "request_ctx \<Rightarrow> detection_result option" where
  "handle_store_err ctx =
     (case tp_fail_mode (ctx_tier_policy ctx) of
        Close \<Rightarrow> Some \<lparr>dr_rule_id = Some ''RL-ERR'', dr_rule_name = ''Rate Limit (store error)'',
           dr_phase = RateLimit, dr_detail = ''rate-limit store error; tier fail_mode=close''\<rparr>
      | Open \<Rightarrow> None)"

type_synonym ('s, 'e) rl_store = "string \<Rightarrow> limit_cfg \<Rightarrow> int \<Rightarrow> 's \<Rightarrow> (('e + decision) \<times> 's) option"

abbreviation memory_rl :: "(memory_store, unit) rl_store" where
  "memory_rl \<equiv> memory_check_and_consume"

definition rl_check ::
  "('s, 'e) rl_store \<Rightarrow> rate_limit_config \<Rightarrow> int \<Rightarrow> request_ctx \<Rightarrow> 's \<Rightarrow> (detection_result option \<times> 's) option" where
  "rl_check store snapshot now ctx s =
     (case for_tier snapshot (ctx_tier ctx) of
        None \<Rightarrow> Some (None, s)
      | Some cfg \<Rightarrow>
          let host = hc_code (ctx_host_config ctx);
              ip_key = render (IpKey host (ctx_client_ip ctx))
          in case store ip_key cfg now s of
               None \<Rightarrow> None
             | Some (Inl e, s) \<Rightarrow> Some (handle_store_err ctx, s)
             | Some (Inr d, s) \<Rightarrow>
                 if d \<noteq> RlAllow then Some (Some (rl_block ''RL-IP'' ''per-IP'' d), s)
                 else (case ctx_cookies ctx (rlc_session_cookie snapshot) of
                         None \<Rightarrow> Some (None, s)
                       | Some sid \<Rightarrow>
                           let s_key = render (SessionKey host sid)
                           in case store s_key cfg now s of
                                None \<Rightarrow> None
                              | Some (Inl e, s) \<Rightarrow> Some (handle_store_err ctx, s)
                              | Some (Inr d, s) \<Rightarrow>
                                  if d = RlAllow then Some (None, s)
                                  else Some (Some (rl_block ''RL-SESSION'' ''per-session'' d), s)))"

section \<open>Properties of loading and checking\<close>

lemma validate_tiers_ok:
  "validate_tiers ts = Inr () \<Longrightarrow> (n, t) \<in> set ts \<Longrightarrow>
     0 < lc_burst_capacity (limit_of t) \<and> 0 \<le> lc_burst_refill_per_s (limit_of t)
     \<and> 0 < lc_window_secs (limit_of t) \<and> 0 < lc_window_limit (limit_of t)"
  by (induction ts rule: validate_tiers.induct) (auto simp: limit_of_def split: if_splits yaml_f64.splits)

lemma for_tier_runtime:
  "for_tier (into_runtime c) t = Some l \<Longrightarrow> \<exists>n tl. (n, tl) \<in> set (iter_tiers c) \<and> l = limit_of tl"
  by (cases t) (auto simp: for_tier_def into_runtime_def insert_tier_def iter_tiers_def
      split: if_splits option.splits)

lemma loaded_limit:
  assumes "rl_from_yaml_str parse s = Inr c" and "for_tier c t = Some l"
  shows "0 < lc_burst_capacity l \<and> 0 \<le> lc_burst_refill_per_s l \<and> 0 < lc_window_secs l \<and> 0 < lc_window_limit l"
proof -
  obtain f where f: "rl_validate f = Inr ()" "c = into_runtime f"
    using assms(1) by (auto simp: rl_from_yaml_str_def split: sum.splits)
  then have "validate_tiers (iter_tiers f) = Inr ()"
    by (auto simp: rl_validate_def split: if_splits sum.splits)
  then show ?thesis using for_tier_runtime [of f t l] assms(2) f(2) validate_tiers_ok by blast
qed

lemma rl_check_memory_total:
  assumes "\<forall>t l. for_tier c t = Some l \<longrightarrow> 0 < lc_window_secs l"
  shows "\<exists>r m'. rl_check memory_rl c now ctx m = Some (r, m')"
proof (cases "for_tier c (ctx_tier ctx)")
  case (Some l)
  then have tot: "\<exists>d m'. check_and_consume_inner k l now m = Some (d, m')" for k m
    using assms check_and_consume_total [of l k now m] by auto
  obtain d m1 where 1: "check_and_consume_inner (render (IpKey (hc_code (ctx_host_config ctx)) (ctx_client_ip ctx))) l now m
      = Some (d, m1)" using tot by blast
  show ?thesis
  proof (cases "ctx_cookies ctx (rlc_session_cookie c)")
    case None
    then show ?thesis using 1 by (simp add: rl_check_def Some memory_check_and_consume_def Let_def del: render.simps)
  next
    case (Some sid)
    obtain d' m2 where "check_and_consume_inner (render (SessionKey (hc_code (ctx_host_config ctx)) sid)) l now m1
      = Some (d', m2)" using tot by blast
    then show ?thesis using 1 Some \<open>for_tier c (ctx_tier ctx) = Some l\<close>
      by (simp add: rl_check_def memory_check_and_consume_def Let_def del: render.simps)
  qed
qed (simp add: rl_check_def)

text \<open>C27. A configuration that loads is safe to run: every limit it puts in force is positive with a
  non-negative refill rate, and no request panics on the in-memory store, whatever its state.\<close>

theorem loaded_config_safe:
  assumes "rl_from_yaml_str parse s = Inr c"
  shows "(\<forall>t l. for_tier c t = Some l \<longrightarrow> 0 < lc_burst_capacity l \<and> 0 \<le> lc_burst_refill_per_s l
      \<and> 0 < lc_window_secs l \<and> 0 < lc_window_limit l)
    \<and> (\<exists>r m'. rl_check memory_rl c now ctx m = Some (r, m'))"
  using loaded_limit [OF assms] by (intro conjI rl_check_memory_total) blast+

definition sample_file :: rate_limit_file_config where
  "sample_file = rate_limit_file_default\<lparr>rf_enabled := True,
     rf_tiers := \<lparr>tm_critical = Some \<lparr>tl_burst_capacity = 2, tl_burst_refill_per_s = Finite 1,
        tl_window_secs = 10, tl_window_limit = 2\<rparr>, tm_high = None, tm_medium = None, tm_catch_all = None\<rparr>\<rparr>"

lemma sample_file_loads: "rl_from_yaml_str (\<lambda>_. Inr sample_file) s = Inr (into_runtime sample_file)"
  by (simp add: rl_from_yaml_str_def rl_validate_def sample_file_def rate_limit_file_default_def
      SCHEMA_VERSION_def iter_tiers_def List.map_filter_def)

theorem loaded_config_safe_witness:
  "for_tier (into_runtime sample_file) Critical = Some sample_limit \<and> 0 < lc_window_secs sample_limit"
proof -
  have "for_tier (into_runtime sample_file) Critical = Some sample_limit"
    by (simp add: for_tier_def into_runtime_def insert_tier_def sample_file_def rate_limit_file_default_def
        limit_of_def sample_limit_def)
  then show ?thesis
    using loaded_config_safe [of "\<lambda>_. Inr sample_file" "[]" "into_runtime sample_file"] sample_file_loads by blast
qed

section \<open>A stream of requests\<close>

type_synonym request = "request_ctx \<times> int"

fun rl_run :: "rate_limit_config \<Rightarrow> request list \<Rightarrow> memory_store \<Rightarrow> (detection_result option list \<times> memory_store) option" where
  "rl_run c [] m = Some ([], m)"
| "rl_run c ((ctx, now) # reqs) m =
     (case rl_check memory_rl c now ctx m of
        None \<Rightarrow> None
      | Some (r, m') \<Rightarrow> map_option (\<lambda>(rs, m''). (r # rs, m'')) (rl_run c reqs m'))"

definition from_client :: "string \<Rightarrow> ip_addr \<Rightarrow> request_ctx \<Rightarrow> bool" where
  "from_client host ip ctx \<longleftrightarrow> hc_code (ctx_host_config ctx) = host \<and> ctx_client_ip ctx = ip"

definition passed_in :: "string \<Rightarrow> ip_addr \<Rightarrow> int \<Rightarrow> int \<Rightarrow> (request \<times> detection_result option) list \<Rightarrow> nat" where
  "passed_in host ip start width rs =
     length (filter (\<lambda>((ctx, t), r). from_client host ip ctx \<and> r = None \<and> start \<le> t \<and> t < start + width) rs)"

lemma store_run_append:
  "store_run f (a @ b) s = (case store_run f a s of None \<Rightarrow> None
     | Some (ds, s') \<Rightarrow> map_option (\<lambda>(es, s''). (ds @ es, s'')) (store_run f b s'))"
proof (induction a arbitrary: s)
  case (Cons e a)
  obtain k x where "e = (k, x)" by fastforce
  then show ?case by (auto simp: Cons.IH option.map_comp comp_def case_prod_beta split: option.splits)
qed (simp add: case_prod_beta option.map_id)

text \<open>One request as operations on the store: the IP key first, then at most a session key.\<close>

lemma rl_check_ops:
  assumes "rl_check memory_rl c now ctx m = Some (r, m')" and "for_tier c (ctx_tier ctx) = Some l"
  obtains d ops ds where
    "store_run memory_upd ((render (IpKey (hc_code (ctx_host_config ctx)) (ctx_client_ip ctx)), l, now) # ops) m
       = Some ((render (IpKey (hc_code (ctx_host_config ctx)) (ctx_client_ip ctx)), (l, now), d) # ds, m')"
    and "\<forall>op\<in>set ops. fst (snd op) = l \<and> (\<exists>sid. fst op = render (SessionKey (hc_code (ctx_host_config ctx)) sid))"
    and "r = None \<longrightarrow> d = RlAllow"
proof -
  let ?h = "hc_code (ctx_host_config ctx)"
  let ?ip = "render (IpKey ?h (ctx_client_ip ctx))"
  obtain d m1 where 1: "check_and_consume_inner ?ip l now m = Some (d, m1)"
    using assms by (auto simp: rl_check_def memory_check_and_consume_def Let_def simp del: render.simps split: option.splits)
  consider "d \<noteq> RlAllow" "r \<noteq> None" "m' = m1" | "d = RlAllow" "m' = m1"
    | sid d2 where "d = RlAllow" "check_and_consume_inner (render (SessionKey ?h sid)) l now m1 = Some (d2, m')"
    using assms 1 by (auto simp: rl_check_def memory_check_and_consume_def Let_def simp del: render.simps
        split: option.splits if_splits)
  then show thesis
  proof cases
    case (3 sid d2)
    show thesis
      by (rule that [of "[(render (SessionKey ?h sid), l, now)]" d "[(render (SessionKey ?h sid), (l, now), d2)]"])
         (auto simp: 1 3 simp del: render.simps)
  qed (rule that [of "[]" d "[]"]; simp add: 1 del: render.simps)+
qed

lemma session_key_not_ip: "render (SessionKey h s) \<noteq> render (IpKey h' i)"
  by simp

text \<open>A whole stream as one trace of store operations in which the client's requests are exactly the
  operations on its IP key.\<close>

lemma rl_run_ops:
  fixes host ip
  defines "key \<equiv> render (IpKey host ip)"
  assumes "rl_run c reqs m = Some (rs, m')" and "CHR '':'' \<notin> set host"
    and "\<forall>(ctx, t)\<in>set reqs. CHR '':'' \<notin> set (hc_code (ctx_host_config ctx))"
    and "\<forall>(ctx, t)\<in>set reqs. from_client host ip ctx \<longrightarrow> for_tier c (ctx_tier ctx) = Some l"
  shows "\<exists>ops ds. store_run memory_upd ops m = Some (ds, m')
    \<and> (\<forall>op\<in>set ops. (fst op = key \<longrightarrow> fst (snd op) = l) \<and> (\<exists>t. for_tier c t = Some (fst (snd op))))
    \<and> times_of key ops = map snd (filter (\<lambda>q. from_client host ip (fst q)) reqs)
    \<and> passed_in host ip s w (zip reqs rs) \<le> allowed_in s w key ds"
  using assms(2,4,5)
proof (induction reqs arbitrary: m rs)
  case Nil
  then show ?case by (intro exI [of _ "[]"]) (simp add: times_of_def passed_in_def)
next
  case (Cons q reqs)
  obtain ctx now where q: "q = (ctx, now)" by fastforce
  let ?h = "hc_code (ctx_host_config ctx)"
  let ?k = "render (IpKey ?h (ctx_client_ip ctx))"
  from Cons.prems(1) obtain r m1 rs1 where chk: "rl_check memory_rl c now ctx m = Some (r, m1)"
    and run: "rl_run c reqs m1 = Some (rs1, m')" and rs: "rs = r # rs1"
    by (auto simp: q split: option.splits)
  have prems: "\<forall>(ctx, t)\<in>set reqs. CHR '':'' \<notin> set (hc_code (ctx_host_config ctx))"
    "\<forall>(ctx, t)\<in>set reqs. from_client host ip ctx \<longrightarrow> for_tier c (ctx_tier ctx) = Some l"
    using Cons.prems(2,3) by simp_all
  from Cons.IH [OF run this] obtain ops ds where
    ih: "store_run memory_upd ops m1 = Some (ds, m')"
      "\<forall>op\<in>set ops. (fst op = key \<longrightarrow> fst (snd op) = l) \<and> (\<exists>t. for_tier c t = Some (fst (snd op)))"
      "times_of key ops = map snd (filter (\<lambda>q. from_client host ip (fst q)) reqs)"
      "passed_in host ip s w (zip reqs rs1) \<le> allowed_in s w key ds"
    by (elim exE conjE)
  have mine: "?k = key \<longleftrightarrow> from_client host ip ctx"
    using render_eq_iff [of "IpKey ?h (ctx_client_ip ctx)" "IpKey host ip"] assms(3) Cons.prems(2)
    by (auto simp: key_def from_client_def q simp del: render.simps)
  show ?case
  proof (cases "for_tier c (ctx_tier ctx)")
    case None
    then have "m1 = m" "\<not> from_client host ip ctx" using chk Cons.prems(3) by (auto simp: rl_check_def q)
    then show ?thesis using ih by (intro exI [of _ ops] exI [of _ ds]) (simp add: q rs passed_in_def)
  next
    case (Some l')
    obtain d ops1 ds1 where one: "store_run memory_upd ((?k, l', now) # ops1) m = Some ((?k, (l', now), d) # ds1, m1)"
      and sess: "\<forall>op\<in>set ops1. fst (snd op) = l' \<and> (\<exists>sid. fst op = render (SessionKey ?h sid))"
      and pass: "r = None \<longrightarrow> d = RlAllow"
      by (rule rl_check_ops [OF chk Some]) (rule that)
    have other: "\<forall>op\<in>set ops1. fst op \<noteq> key" using sess unfolding key_def by fastforce
    have all: "store_run memory_upd (((?k, l', now) # ops1) @ ops) m = Some (((?k, (l', now), d) # ds1) @ ds, m')"
      unfolding store_run_append one using ih(1) by simp
    have l: "from_client host ip ctx \<Longrightarrow> l' = l" using Cons.prems(3) Some by (auto simp: q)
    have times: "times_of key (((?k, l', now) # ops1) @ ops) = map snd (filter (\<lambda>q. from_client host ip (fst q)) (q # reqs))"
      using other ih(3) mine by (simp add: times_of_def q filter_empty_conv del: render.simps)
    have "passed_in host ip s w (zip (q # reqs) rs) \<le> allowed_in s w key (((?k, (l', now), d) # ds1) @ ds)"
      using ih(4) mine pass by (auto simp: passed_in_def allowed_in_def q rs simp del: render.simps)
    moreover have "\<forall>op\<in>set (((?k, l', now) # ops1) @ ops).
        (fst op = key \<longrightarrow> fst (snd op) = l) \<and> (\<exists>t. for_tier c t = Some (fst (snd op)))"
      using ih(2) other sess l mine Some by (auto simp del: render.simps)
    ultimately show ?thesis using all times by blast
  qed
qed

lemma rl_run_total:
  "\<forall>t l. for_tier c t = Some l \<longrightarrow> 0 < lc_window_secs l \<Longrightarrow> \<exists>rs m'. rl_run c reqs m = Some (rs, m')"
proof (induction reqs arbitrary: m)
  case (Cons q reqs)
  obtain ctx now where q: "q = (ctx, now)" by fastforce
  obtain r m1 where "rl_check memory_rl c now ctx m = Some (r, m1)"
    using rl_check_memory_total [OF Cons.prems] by blast
  moreover obtain rs m2 where "rl_run c reqs m1 = Some (rs, m2)" using Cons.IH [OF Cons.prems] by blast
  ultimately show ?case by (simp add: q)
qed simp

lemma client_window_bound:
  assumes ok: "limit_ok l" "\<forall>t l. for_tier c t = Some l \<longrightarrow> 0 < lc_window_secs l"
    and host: "CHR '':'' \<notin> set host" "\<forall>(ctx, t)\<in>set reqs. CHR '':'' \<notin> set (hc_code (ctx_host_config ctx))"
    and client: "\<forall>(ctx, t)\<in>set reqs. from_client host ip ctx \<longrightarrow> for_tier c (ctx_tier ctx) = Some l"
    and clock: "sorted (map snd (filter (\<lambda>q. from_client host ip (fst q)) reqs))"
    and new: "am_get m (render (IpKey host ip)) = None" and w: "w mod (int (lc_window_secs l) * 1000) = 0"
    and run: "rl_run c reqs m = Some (rs, m')"
  shows "passed_in host ip w (int (lc_window_secs l) * 1000) (zip reqs rs) \<le> lc_window_limit l"
proof -
  let ?w = "int (lc_window_secs l) * 1000"
  obtain ops ds where ops: "store_run memory_upd ops m = Some (ds, m')"
    "\<forall>op\<in>set ops. (fst op = render (IpKey host ip) \<longrightarrow> fst (snd op) = l) \<and> (\<exists>t. for_tier c t = Some (fst (snd op)))"
    "times_of (render (IpKey host ip)) ops = map snd (filter (\<lambda>q. from_client host ip (fst q)) reqs)"
    "passed_in host ip w ?w (zip reqs rs) \<le> allowed_in w ?w (render (IpKey host ip)) ds"
    using rl_run_ops [OF run host client, of w ?w] by (elim exE conjE)
  have "\<exists>ds m'. store_run memory_upd ops m = Some (ds, m')
    \<and> allowed_in w ?w (render (IpKey host ip)) ds \<le> lc_window_limit l"
    using ok ops(2,3) clock new w by (intro window_bound) (auto simp del: render.simps)
  then show ?thesis using ops(1,4) by simp
qed


definition sample_ctx :: request_ctx where
  "sample_ctx = \<lparr>ctx_req_id = ''r1'', ctx_client_ip = V4 10 0 0 1, ctx_client_port = 5000, ctx_method = ''GET'',
     ctx_host = ''shop'', ctx_port = 80, ctx_path = ''/'', ctx_query = [], ctx_headers = Map.empty,
     ctx_body_preview = [], ctx_content_length = 0, ctx_is_tls = False,
     ctx_host_config = host_config_default\<lparr>hc_code := ''shop''\<rparr>, ctx_geo = None, ctx_tier = Critical,
     ctx_tier_policy = tier_policy_default, ctx_cookies = Map.empty\<rparr>"


end
