(* ===== verification/CounterStore.thy ===== *)
theory CounterStore
  imports RedisStore
begin

text \<open>
  The counters of the DDoS checks (\<^verbatim>\<open>checks/ddos/store\<close>): the in-memory store with its
  garbage collection (\<^verbatim>\<open>memory.rs\<close>) and the Redis store (\<^verbatim>\<open>redis.rs\<close>).  Counts are the
  code's \<open>u64\<close>.  An in-memory count is the length of the current streak of hits, each within the
  TTL of the one before: every hit renews the TTL, so a streak has no maximal duration.
\<close>

section \<open>The in-memory store\<close>

record counter_entry =
  ce_count :: u64
  ce_expires_ms :: int

type_synonym counter_map = "(string, counter_entry) amap"

definition incr_get_inner :: "string \<Rightarrow> int \<Rightarrow> int \<Rightarrow> counter_map \<Rightarrow> u64 \<times> counter_map" where
  "incr_get_inner key ttl_ms now m =
     (let expires_ms = i64_sat_add now ttl_ms
      in case am_get m key of
           Some entry \<Rightarrow>
             if now < ce_expires_ms entry
             then (ce_count entry + 1, am_put key \<lparr>ce_count = ce_count entry + 1, ce_expires_ms = expires_ms\<rparr> m)
             else (1, am_put key \<lparr>ce_count = 1, ce_expires_ms = expires_ms\<rparr> m)
         | None \<Rightarrow> (1, am_put key \<lparr>ce_count = 1, ce_expires_ms = expires_ms\<rparr> m))"

definition counter_incr_get :: "string \<Rightarrow> int \<Rightarrow> int \<Rightarrow> counter_map \<Rightarrow> ('e + u64) \<times> counter_map" where
  "counter_incr_get key ttl_ms now m = (let (n, m') = incr_get_inner key ttl_ms now m in (Inr n, m'))"

definition counter_gc :: "int \<Rightarrow> nat \<Rightarrow> counter_map \<Rightarrow> nat \<times> counter_map" where
  "counter_gc now max_keys m =
     (let before = length m;
          m1 = am_retain (\<lambda>_ e. now < ce_expires_ms e) m;
          m2 = (if max_keys < length m1
                then evict_oldest ce_expires_ms (length m1 - max_keys) m1 else m1)
      in (before - length m2, m2))"

definition counter_max_keys_default :: nat where "counter_max_keys_default = 100000"

section \<open>The Redis store\<close>

definition redis_counter_default :: redis_config where
  "redis_counter_default = \<lparr>rc_url = ''redis://127.0.0.1:6379'', rc_key_prefix = ''wafddos:'',
     rc_op_timeout_ms = 50, rc_breaker_threshold = 5\<rparr>"

definition redis_incr_get ::
  "(string \<Rightarrow> int \<Rightarrow> 'w \<Rightarrow> invoke_result \<times> 'w) \<Rightarrow> string \<Rightarrow> int \<Rightarrow> int \<Rightarrow> 'w redis_store \<Rightarrow>
   (redis_error + u64) \<times> 'w redis_store" where
  "redis_incr_get invoke key ttl_ms now s =
     (let (res, conn) = invoke (rc_key_prefix (rs_cfg s) @ key) ttl_ms (rs_conn s);
          s = s\<lparr>rs_conn := conn\<rparr>
      in case res of
           Reply v \<Rightarrow> (Inr (if 0 \<le> v then of_int v else 0), record_ok s)
         | RedisError \<Rightarrow> (Inl RedisFailure, record_fail s)
         | RedisTimeout \<Rightarrow> (Inl RedisTimedOut, record_fail s))"

section \<open>Isolation of keys\<close>

abbreviation counter_upd :: "string \<Rightarrow> int \<times> int \<Rightarrow> counter_map \<Rightarrow> (u64 \<times> counter_map) option" where
  "counter_upd k a m \<equiv> Some (incr_get_inner k (fst a) (snd a) m)"

interpretation ctr: keyed_store counter_upd am_get
proof
  fix k a s d s' k'
  assume "counter_upd k a s = Some (d, s')" and "k' \<noteq> (k :: string)"
  then show "am_get s' k' = am_get s k'"
    by (auto simp: incr_get_inner_def Let_def map_simps split: option.splits if_splits)
next
  fix s t :: counter_map and k a d s'
  assume "am_get s k = am_get t k" and "counter_upd k a s = Some (d, s')"
  then show "\<exists>t'. counter_upd k a t = Some (d, t') \<and> am_get t' k = am_get s' k"
    by (auto simp: incr_get_inner_def Let_def map_simps split: option.splits if_splits)
qed

lemma counter_run_total: "\<exists>ds m'. store_run counter_upd tr m = Some (ds, m')"
proof (induction tr arbitrary: m)
  case (Cons e tr)
  obtain k a where e: "e = (k, a)" by (cases e)
  obtain d m1 where step: "incr_get_inner k (fst a) (snd a) m = (d, m1)" by fastforce
  obtain ds m2 where "store_run counter_upd tr m1 = Some (ds, m2)" using Cons.IH by blast
  with step show ?case by (simp add: e)
qed simp

section \<open>Streaks\<close>

text \<open>The specification of a counter: hits most recent first, each with the time it happened.\<close>

fun streak :: "int \<Rightarrow> int list \<Rightarrow> nat" where
  "streak ttl [] = 0"
| "streak ttl [t] = 1"
| "streak ttl (t # s # ts) = (if t < s + ttl then Suc (streak ttl (s # ts)) else 1)"

definition hits_ok :: "int \<Rightarrow> int list \<Rightarrow> bool" where
  "hits_ok ttl ts \<longleftrightarrow> (\<forall>t\<in>set ts. i64_min \<le> t + ttl \<and> t + ttl \<le> i64_max)"

definition counts :: "int \<Rightarrow> int list \<Rightarrow> counter_entry option \<Rightarrow> bool" where
  "counts ttl ts e = (case ts of [] \<Rightarrow> e = None
     | t # _ \<Rightarrow> e = Some \<lparr>ce_count = of_nat (streak ttl ts), ce_expires_ms = t + ttl\<rparr>)"

lemma incr_get_counts:
  assumes "counts ttl ts (am_get m k)" and "hits_ok ttl (t # ts)"
  shows "fst (incr_get_inner k ttl t m) = of_nat (streak ttl (t # ts))"
    and "counts ttl (t # ts) (am_get (snd (incr_get_inner k ttl t m)) k)"
proof -
  have exp: "i64_sat_add t ttl = t + ttl" using assms(2) by (simp add: hits_ok_def i64_sat_add_exact)
  show "fst (incr_get_inner k ttl t m) = of_nat (streak ttl (t # ts))"
    using assms(1) by (cases ts) (simp_all add: counts_def incr_get_inner_def Let_def)
  show "counts ttl (t # ts) (am_get (snd (incr_get_inner k ttl t m)) k)"
    using assms(1) exp by (cases ts) (simp_all add: counts_def incr_get_inner_def Let_def map_simps)
qed

lemma key_run_streak:
  assumes "counts ttl ts (am_get m k)" and "hits_ok ttl (rev us @ ts)"
    and "store_run counter_upd (map (\<lambda>t. (k, ttl, t)) us) m = Some (ds, m')"
  shows "map (snd \<circ> snd) ds = map (\<lambda>i. of_nat (streak ttl (rev (take (Suc i) us) @ ts))) [0..<length us]"
  using assms
proof (induction us arbitrary: ts m ds)
  case (Cons u us)
  obtain d m1 where step: "incr_get_inner k ttl u m = (d, m1)" by fastforce
  from Cons.prems(3) step obtain ds1 where
    run: "store_run counter_upd (map (\<lambda>t. (k, ttl, t)) us) m1 = Some (ds1, m')" and ds: "ds = (k, (ttl, u), d) # ds1"
    by auto
  have ok: "hits_ok ttl (u # ts)" "hits_ok ttl (rev us @ u # ts)" using Cons.prems(2) by (auto simp: hits_ok_def)
  note cnt = incr_get_counts [OF Cons.prems(1) ok(1)]
  have "counts ttl (u # ts) (am_get m1 k)" and d: "d = of_nat (streak ttl (u # ts))" using cnt step by auto
  from Cons.IH [OF this(1) ok(2) run]
  have "map (snd \<circ> snd) ds1 = map (\<lambda>i. of_nat (streak ttl (rev (take (Suc i) us) @ u # ts))) [0..<length us]" .
  then show ?case by (simp add: ds d upt_rec [of 0] map_Suc_upt [symmetric] comp_def del: upt_Suc)
qed simp

lemma key_trace_ttl:
  assumes "\<forall>e\<in>set tr. fst e = k \<longrightarrow> fst (snd e) = ttl"
  shows "filter (\<lambda>e. fst e = k) tr = map (\<lambda>t. (k, ttl, t)) (times_of k tr)"
  using assms by (rule key_trace)



text \<open>Under steady traffic the streak is the whole history.\<close>

lemma streak_steady:
  "(\<And>i. Suc i < length ts \<Longrightarrow> ts ! i < ts ! Suc i + ttl) \<Longrightarrow> streak ttl ts = length ts"
proof (induction ttl ts rule: streak.induct)
  case (3 ttl t s ts)
  have "t < s + ttl" using "3.prems" [of 0] by simp
  moreover have "streak ttl (s # ts) = length (s # ts)"
    using "3.prems" [of "Suc _"] by (intro "3.IH" \<open>t < s + ttl\<close>) simp
  ultimately show ?case by simp
qed simp_all

section \<open>Garbage collection\<close>

text \<open>Garbage collection bounds the counters: it leaves at most \<^verbatim>\<open>max_keys\<close> of them, all live
  and unchanged; a counter it drops had expired, or the map was over the limit and every kept
  counter expires at least as late; the result is the number dropped.\<close>

theorem counter_gc_spec:
  assumes "am_wf m" and "counter_gc now max_keys m = (n, m')"
  shows "am_wf m' \<and> length m' \<le> max_keys \<and> n + length m' = length m
    \<and> (\<forall>k e. am_get m' k = Some e \<longrightarrow> am_get m k = Some e \<and> now < ce_expires_ms e)
    \<and> (\<forall>k e. am_get m k = Some e \<longrightarrow> am_get m' k = None \<longrightarrow> \<not> now < ce_expires_ms e
          \<or> length m' = max_keys \<and> (\<forall>k' e'. am_get m' k' = Some e' \<longrightarrow> ce_expires_ms e \<le> ce_expires_ms e'))"
proof -
  have "m' = retain_evict (\<lambda>e. now < ce_expires_ms e) ce_expires_ms max_keys m" and "n = length m - length m'"
    using assms(2) by (auto simp: counter_gc_def retain_evict_def Let_def)
  with retain_evict_spec [OF assms(1) this(1)] show ?thesis by simp
qed

theorem counter_gc_spec_witness:
  "let m = [(''a'', \<lparr>ce_count = 3, ce_expires_ms = 10\<rparr>), (''b'', \<lparr>ce_count = 1, ce_expires_ms = 50\<rparr>)]
   in counter_gc 20 5 m = (1, tl m) \<and> am_wf (tl m)"
proof -
  let ?m = "[(''a'', \<lparr>ce_count = 3, ce_expires_ms = 10\<rparr>), (''b'', \<lparr>ce_count = 1, ce_expires_ms = 50\<rparr>)] :: counter_map"
  have "counter_gc 20 5 ?m = (1, tl ?m)" and "am_wf ?m"
    by (simp_all add: counter_gc_def am_retain_def am_wf_def Let_def)
  then show ?thesis using counter_gc_spec [of ?m 20 5 1 "tl ?m"] by (simp add: Let_def)
qed

end
