(* ===== verification/Baseline.thy ===== *)
theory Baseline
  imports CounterStore
begin

text \<open>
  The moving-median baseline of the per-tier detector (\<^verbatim>\<open>checks/ddos/detector/baseline.rs\<close>): a
  ring of sixty \<open>u64\<close> counters, one per second.  The model is the code run by one thread, where
  the compare-and-exchange of \<^verbatim>\<open>record\<close> succeeds.  The ring implements the history of the
  last sixty seconds, and the median is the median of that history.
\<close>

section \<open>The ring\<close>

definition BUCKETS :: nat where "BUCKETS = 60"

record moving_median =
  mm_buckets :: "u64 list"
  mm_last_epoch_s :: int

definition mm_new :: moving_median where
  "mm_new = \<lparr>mm_buckets = replicate BUCKETS 0, mm_last_epoch_s = -1\<rparr>"

definition clear_stale_buckets :: "int \<Rightarrow> int \<Rightarrow> u64 list \<Rightarrow> u64 list" where
  "clear_stale_buckets prev_s now_s bs =
     (let advance = i64_sat_sub now_s prev_s
      in if int BUCKETS \<le> advance then map (\<lambda>_. 0) bs
         else if 0 \<le> prev_s
         then fold (\<lambda>offset bs. bs[nat (rem_euclid (prev_s + offset) (int BUCKETS)) := 0]) [1..advance] bs
         else bs)"

definition mm_record :: "int \<Rightarrow> moving_median \<Rightarrow> u64 \<times> moving_median" where
  "mm_record now_ms mm =
     (let epoch_s = trunc_div now_ms 1000;
          idx = nat (rem_euclid epoch_s (int BUCKETS));
          prev_s = mm_last_epoch_s mm;
          mm = (if prev_s < epoch_s
                then \<lparr>mm_buckets = clear_stale_buckets prev_s epoch_s (mm_buckets mm), mm_last_epoch_s = epoch_s\<rparr>
                else mm)
      in if idx < length (mm_buckets mm)
         then (mm_buckets mm ! idx + 1, mm\<lparr>mm_buckets := (mm_buckets mm)[idx := mm_buckets mm ! idx + 1]\<rparr>)
         else (0, mm))"

definition mm_median :: "moving_median \<Rightarrow> u64" where
  "mm_median mm =
     (let values = sort (map (\<lambda>i. if i < length (mm_buckets mm) then mm_buckets mm ! i else 0) [0..<BUCKETS])
      in if BUCKETS div 2 < length values then values ! (BUCKETS div 2) else 0)"

definition mm_total :: "moving_median \<Rightarrow> u64" where
  "mm_total mm = sum_list (mm_buckets mm)"

section \<open>The ring implements a history of seconds\<close>

definition mm_repr :: "int list \<Rightarrow> moving_median \<Rightarrow> bool" where
  "mm_repr hist mm \<longleftrightarrow> length (mm_buckets mm) = 60 \<and> -1 \<le> mm_last_epoch_s mm
     \<and> (\<forall>h\<in>set hist. 0 \<le> h \<and> h \<le> mm_last_epoch_s mm)
     \<and> (\<forall>s. mm_last_epoch_s mm - 60 < s \<longrightarrow> s \<le> mm_last_epoch_s mm \<longrightarrow>
          mm_buckets mm ! nat (s mod 60) = of_nat (count_list hist s))"

lemma mm_new_repr: "mm_repr [] mm_new"
  by (auto simp: mm_repr_def mm_new_def BUCKETS_def nat_less_iff)

lemma fold_clear:
  "length bs = 60 \<Longrightarrow> j < 60 \<Longrightarrow>
   fold (\<lambda>i bs. bs[nat ((p + i) mod 60) := (0::u64)]) is bs ! j =
     (if \<exists>i\<in>set is. nat ((p + i) mod 60) = j then 0 else bs ! j)
   \<and> length (fold (\<lambda>i bs. bs[nat ((p + i) mod 60) := (0::u64)]) is bs) = 60"
proof (induction "is" arbitrary: bs)
  case (Cons i "is")
  have "nat ((p + i) mod 60) < 60" by (simp add: nat_less_iff)
  then show ?case using Cons.IH [of "bs[nat ((p + i) mod 60) := 0]"] Cons.prems by (auto simp: nth_list_update)
qed simp

text \<open>Two seconds less than a minute apart share a bucket only when they are equal.\<close>

lemma bucket_inj:
  assumes "nat (s mod 60) = nat (c mod 60)" and "\<bar>s - c\<bar> < 60"
  shows "s = (c::int)"
proof -
  have "s mod 60 = c mod 60" using assms(1) by (simp add: nat_eq_iff2)
  then have "60 dvd s - c" by (simp add: mod_eq_dvd_iff)
  then show ?thesis using assms(2) by presburger
qed

lemma clear_stale_repr:
  assumes repr: "mm_repr hist mm" and e: "mm_last_epoch_s mm < e" and range: "e - mm_last_epoch_s mm \<le> i64_max"
  shows "mm_repr hist \<lparr>mm_buckets = clear_stale_buckets (mm_last_epoch_s mm) e (mm_buckets mm), mm_last_epoch_s = e\<rparr>"
proof -
  let ?p = "mm_last_epoch_s mm" and ?b = "mm_buckets mm"
  let ?c = "clear_stale_buckets ?p e ?b"
  have len: "length ?b = 60" and p: "-1 \<le> ?p" and hist: "\<And>h. h \<in> set hist \<Longrightarrow> 0 \<le> h \<and> h \<le> ?p"
    and b: "\<And>s. ?p - 60 < s \<Longrightarrow> s \<le> ?p \<Longrightarrow> ?b ! nat (s mod 60) = of_nat (count_list hist s)"
    using repr by (auto simp: mm_repr_def)
  have adv: "i64_sat_sub e ?p = e - ?p" using e range by (simp add: machine_simps)
  have late: "count_list hist s = 0" if "?p < s" for s using hist that by (metis count_list_0_iff not_le)
  have idx: "nat (s mod 60) < 60" for s :: int by (simp add: nat_less_iff)
  have "length ?c = 60 \<and> (\<forall>s. e - 60 < s \<longrightarrow> s \<le> e \<longrightarrow> ?c ! nat (s mod 60) = of_nat (count_list hist s))"
  proof (cases "60 \<le> e - ?p")
    case True
    then have "?c = map (\<lambda>_. 0) ?b" by (simp add: clear_stale_buckets_def adv BUCKETS_def)
    then show ?thesis using len late True idx by simp
  next
    case short: False
    show ?thesis
    proof (cases "0 \<le> ?p")
      case True
      have c: "?c = fold (\<lambda>i bs. bs[nat ((?p + i) mod 60) := 0]) [1..e - ?p] ?b"
        using short True by (simp add: clear_stale_buckets_def adv BUCKETS_def rem_euclid_def)
      have "?c ! nat (s mod 60) = of_nat (count_list hist s)" if s: "e - 60 < s" "s \<le> e" for s
      proof (cases "?p < s")
        case True
        then have "\<exists>i\<in>set [1..e - ?p]. nat ((?p + i) mod 60) = nat (s mod 60)"
          using s by (intro bexI [of _ "s - ?p"]) auto
        then show ?thesis using fold_clear [OF len idx] late [OF True] unfolding c by simp
      next
        case False
        have "\<not> (\<exists>i\<in>set [1..e - ?p]. nat ((?p + i) mod 60) = nat (s mod 60))"
        proof
          assume "\<exists>i\<in>set [1..e - ?p]. nat ((?p + i) mod 60) = nat (s mod 60)"
          then obtain i where i: "1 \<le> i" "i \<le> e - ?p" and "nat ((?p + i) mod 60) = nat (s mod 60)" by auto
          then have "?p + i = s" using s False by (intro bucket_inj) auto
          then show False using i False by simp
        qed
        then show ?thesis using fold_clear [OF len idx] b [of s] s e False unfolding c by simp
      qed
      then show ?thesis using fold_clear [OF len idx, of ?p "[1..e - ?p]" 0] unfolding c by simp
    next
      case False
      then have p: "?p = -1" using p by simp
      have "?c = ?b" using short False by (simp add: clear_stale_buckets_def adv BUCKETS_def)
      moreover have "hist = []" using hist p by (cases hist) fastforce+
      moreover have "?b ! nat (s mod 60) = 0" for s
      proof -
        have "nat ((s mod 60 - 60) mod 60) = nat (s mod 60)" by simp
        then show ?thesis using b [of "s mod 60 - 60"] p \<open>hist = []\<close> by simp
      qed
      ultimately show ?thesis using len by simp
    qed
  qed
  then show ?thesis using hist e p by (auto simp: mm_repr_def dest: hist)
qed

lemma mm_record_repr:
  assumes repr: "mm_repr hist mm" and t: "0 \<le> now_ms" "now_ms \<le> i64_max"
    and recent: "mm_last_epoch_s mm - 60 < now_ms div 1000"
  shows "mm_repr (now_ms div 1000 # hist) (snd (mm_record now_ms mm))"
    and "mm_last_epoch_s (snd (mm_record now_ms mm)) = max (mm_last_epoch_s mm) (now_ms div 1000)"
proof -
  let ?e = "now_ms div 1000"
  define mm1 where "mm1 = (if mm_last_epoch_s mm < ?e
      then \<lparr>mm_buckets = clear_stale_buckets (mm_last_epoch_s mm) ?e (mm_buckets mm), mm_last_epoch_s = ?e\<rparr> else mm)"
  have last: "-1 \<le> mm_last_epoch_s mm" using repr by (simp add: mm_repr_def)
  have "?e - mm_last_epoch_s mm \<le> i64_max" using t last by (simp add: i64_max_def)
  then have r1: "mm_repr hist mm1" using repr clear_stale_repr [OF repr] by (simp add: mm1_def)
  have l1: "mm_last_epoch_s mm1 = max (mm_last_epoch_s mm) ?e" by (auto simp: mm1_def)
  have idx: "nat (?e mod 60) < length (mm_buckets mm1)" using r1 by (simp add: mm_repr_def nat_less_iff)
  have rec: "snd (mm_record now_ms mm) = mm1\<lparr>mm_buckets := (mm_buckets mm1)[nat (?e mod 60) := mm_buckets mm1 ! nat (?e mod 60) + 1]\<rparr>"
    using idx t(1) by (simp add: mm_record_def Let_def mm1_def [symmetric] trunc_div_nonneg rem_euclid_def BUCKETS_def)
  show "mm_last_epoch_s (snd (mm_record now_ms mm)) = max (mm_last_epoch_s mm) ?e" by (simp add: rec l1)
  have upd: "((mm_buckets mm1)[nat (?e mod 60) := mm_buckets mm1 ! nat (?e mod 60) + 1]) ! nat (s mod 60)
      = of_nat (count_list (?e # hist) s)" if s: "mm_last_epoch_s mm1 - 60 < s" "s \<le> mm_last_epoch_s mm1" for s
  proof -
    have b: "mm_buckets mm1 ! nat (s mod 60) = of_nat (count_list hist s)" using r1 s by (simp add: mm_repr_def)
    have "\<bar>?e - s\<bar> < 60" using s recent unfolding l1 by linarith
    then have "nat (?e mod 60) = nat (s mod 60) \<longleftrightarrow> ?e = s" using bucket_inj [of ?e s] by auto
    then show ?thesis using b idx by (auto simp: nth_list_update)
  qed
  show "mm_repr (?e # hist) (snd (mm_record now_ms mm))"
    unfolding mm_repr_def rec using r1 upd t(1) l1 by (auto simp: mm_repr_def pos_imp_zdiv_nonneg_iff)
qed

fun mm_run :: "int list \<Rightarrow> moving_median \<Rightarrow> moving_median" where
  "mm_run [] mm = mm"
| "mm_run (t # ts) mm = mm_run ts (snd (mm_record t mm))"

lemma mm_run_repr:
  assumes "mm_repr hist mm" and "\<forall>t\<in>set ts. 0 \<le> t \<and> t \<le> i64_max" and "sorted ts"
    and "\<forall>t\<in>set ts. mm_last_epoch_s mm \<le> t div 1000"
  shows "mm_repr (rev (map (\<lambda>t. t div 1000) ts) @ hist) (mm_run ts mm)
    \<and> mm_last_epoch_s (mm_run ts mm) = (if ts = [] then mm_last_epoch_s mm else last ts div 1000)"
  using assms
proof (induction ts arbitrary: hist mm)
  case (Cons t ts)
  have "mm_last_epoch_s mm - 60 < t div 1000" using Cons.prems(4) by force
  note step = mm_record_repr [OF Cons.prems(1) _ _ this]
  have t: "0 \<le> t" "t \<le> i64_max" using Cons.prems(2) by auto
  have last: "mm_last_epoch_s (snd (mm_record t mm)) = t div 1000" using step(2) [OF t] Cons.prems(4) by simp
  have "\<forall>u\<in>set ts. t div 1000 \<le> u div 1000" using Cons.prems(3) by (auto intro: zdiv_mono1)
  then have "\<forall>t\<in>set ts. 0 \<le> t \<and> t \<le> i64_max" "sorted ts"
    "\<forall>u\<in>set ts. mm_last_epoch_s (snd (mm_record t mm)) \<le> u div 1000"
    using Cons.prems(2,3) last by auto
  from Cons.IH [OF step(1) [OF t] this] last show ?case by simp
qed simp

section \<open>The median\<close>

text \<open>The ring read in any order has the multiset of the last sixty seconds' counts.\<close>

lemma ring_mset:
  assumes "length b = 60"
  shows "mset (map (\<lambda>i. b ! nat ((l - int i) mod 60)) [0..<60]) = mset b"
proof -
  let ?f = "\<lambda>i. nat ((l - int i) mod 60)"
  have inj: "inj_on ?f {0..<60}"
  proof (rule inj_onI)
    fix i j assume ij: "i \<in> {0..<60}" "j \<in> {0..<60}" "?f i = ?f j"
    then have "l - int i = l - int j" by (intro bucket_inj) auto
    then show "i = j" by simp
  qed
  have "?f ` {0..<60} \<subseteq> {0..<60}" by (auto simp: nat_less_iff)
  then have img: "?f ` {0..<60} = {0..<60}" using inj by (simp add: card_image card_subset_eq)
  have "mset (map (\<lambda>i. b ! ?f i) [0..<60]) = image_mset ((!) b) (image_mset ?f (mset_set {0..<60}))"
    by (simp add: image_mset.compositionality comp_def flip: mset_upt)
  also have "\<dots> = image_mset ((!) b) (mset_set {0..<60})" by (simp only: image_mset_mset_set [OF inj] img)
  also have "\<dots> = mset (map ((!) b) [0..<length b])" by (simp add: assms flip: mset_upt)
  finally show ?thesis by (simp add: map_nth)
qed

definition seconds_back :: "int list \<Rightarrow> int \<Rightarrow> u64 list" where
  "seconds_back hist l = map (\<lambda>i. of_nat (count_list hist (l - int i))) [0..<60]"

lemma mm_median_repr:
  assumes "mm_repr hist mm"
  shows "mm_median mm = sort (seconds_back hist (mm_last_epoch_s mm)) ! 30"
proof -
  let ?l = "mm_last_epoch_s mm" and ?b = "mm_buckets mm"
  have len: "length ?b = 60" using assms by (simp add: mm_repr_def)
  have eq: "map (\<lambda>i. if i < 60 then ?b ! i else 0) [0..<60] = ?b"
    by (intro nth_equalityI) (simp_all add: len)
  have "seconds_back hist ?l = map (\<lambda>i. ?b ! nat ((?l - int i) mod 60)) [0..<60]"
    using assms by (auto simp: seconds_back_def mm_repr_def)
  then have "mset (seconds_back hist ?l) = mset ?b" using ring_mset [OF len] by simp
  then have "sort (seconds_back hist ?l) = sort ?b" by (metis mset_sort properties_for_sort sorted_sort)
  then show ?thesis by (simp add: mm_median_def BUCKETS_def eq len Let_def)
qed

lemma sorted_filter_takeWhile: "sorted xs \<Longrightarrow> filter (\<lambda>x. x \<le> v) xs = takeWhile (\<lambda>x. x \<le> v) xs"
proof (induction xs)
  case (Cons a xs)
  then show ?case by (cases xs) auto
qed simp

lemma sort_nth_le:
  fixes xs :: "'a::linorder list"
  assumes "k < length xs"
  shows "sort xs ! k \<le> v \<longleftrightarrow> k < length (filter (\<lambda>x. x \<le> v) xs)"
proof -
  let ?s = "sort xs"
  have len: "length (filter (\<lambda>x. x \<le> v) xs) = length (filter (\<lambda>x. x \<le> v) ?s)"
    by (metis mset_filter mset_sort size_mset)
  have "filter (\<lambda>x. x \<le> v) ?s = takeWhile (\<lambda>x. x \<le> v) ?s"
    by (rule sorted_filter_takeWhile) simp
  then have take: "length (filter (\<lambda>x. x \<le> v) xs) = length (takeWhile (\<lambda>x. x \<le> v) ?s)" using len by simp
  show ?thesis
  proof
    assume "?s ! k \<le> v"
    then have "\<forall>i\<le>k. ?s ! i \<le> v" using assms sorted_nth_mono [of ?s _ k] by fastforce
    then have "\<not> length (takeWhile (\<lambda>x. x \<le> v) ?s) \<le> k"
      using nth_length_takeWhile [of "\<lambda>x. x \<le> v" ?s] assms by auto
    then have "k < length (takeWhile (\<lambda>x. x \<le> v) ?s)" by simp
    then show "k < length (filter (\<lambda>x. x \<le> v) xs)" by (simp only: take)
  next
    assume "k < length (filter (\<lambda>x. x \<le> v) xs)"
    then have "k < length (takeWhile (\<lambda>x. x \<le> v) ?s)" by (simp only: take)
    then show "?s ! k \<le> v" by (metis nth_mem set_takeWhileD takeWhile_nth)
  qed
qed

text \<open>C18. The baseline refines the traffic history: after any sequence of requests at non-decreasing
  epoch times, the median the ring reports is the thirty-first smallest of the request counts of
  the last sixty seconds, however the ring wrapped and skipped seconds.\<close>

theorem baseline_refines_history:
  assumes "ts \<noteq> []" and "sorted ts" and "\<forall>t\<in>set ts. 0 \<le> t \<and> t \<le> i64_max"
  shows "mm_median (mm_run ts mm_new) =
    sort (map (\<lambda>i. of_nat (length (filter (\<lambda>t. t div 1000 = last ts div 1000 - int i) ts))) [0..<60]) ! 30"
proof -
  have "\<forall>t\<in>set ts. mm_last_epoch_s mm_new \<le> t div 1000"
    using assms(3) by (auto simp: mm_new_def intro: order_trans [OF _ pos_imp_zdiv_nonneg_iff [THEN iffD2]])
  from mm_run_repr [OF mm_new_repr assms(3,2) this] assms(1)
  have repr: "mm_repr (rev (map (\<lambda>t. t div 1000) ts)) (mm_run ts mm_new)"
    and last: "mm_last_epoch_s (mm_run ts mm_new) = last ts div 1000" by auto
  have "count_list (rev (map (\<lambda>t. t div 1000) ts)) s = length (filter (\<lambda>t. t div 1000 = s) ts)" for s
    by (induction ts) auto
  then show ?thesis using mm_median_repr [OF repr] by (simp add: last seconds_back_def)
qed

theorem baseline_refines_history_witness:
  "mm_median (mm_run [1500, 1600, 130000] mm_new) =
     sort (map (\<lambda>i. of_nat (length (filter (\<lambda>t. t div 1000 = 130 - int i) [1500, 1600, 130000 :: int]))) [0..<60]) ! 30"
  using baseline_refines_history [of "[1500, 1600, 130000]"] by (simp add: i64_max_def)

text \<open>A baseline that saw traffic in at most thirty of the last sixty seconds is cold.\<close>

lemma mm_median_cold:
  assumes "mm_repr hist mm" and "30 < length (filter (\<lambda>x. x \<le> v) (seconds_back hist (mm_last_epoch_s mm)))"
  shows "mm_median mm \<le> v"
  unfolding mm_median_repr [OF assms(1)] using assms(2)
  by (subst sort_nth_le) (auto simp: seconds_back_def)

end
