(* ===== verification/DdosAction.thy ===== *)
theory DdosAction
  imports Baseline
begin

text \<open>
  The reactions to a detected burst (\<^verbatim>\<open>checks/ddos/action\<close>): the table of dynamic bans, the
  escalation schedule and the debounced ban action (\<^verbatim>\<open>ban.rs\<close>), the risk signal
  (\<^verbatim>\<open>risk.rs\<close>) and their composition (\<^verbatim>\<open>mod.rs\<close>).  The counter store behind the ban action
  is a parameter; the risk aggregator is the list of signals submitted to it.
\<close>

section \<open>Verdicts and results\<close>

datatype detector_verdict = DvAllow | SoftAnomaly nat | HardBurst string string

record action_result =
  ar_banned :: bool
  ar_ban_ttl_s :: "nat option"
  ar_risk_delta :: nat

definition ar_noop :: action_result where
  "ar_noop = \<lparr>ar_banned = False, ar_ban_ttl_s = None, ar_risk_delta = 0\<rparr>"

definition ar_merge :: "action_result \<Rightarrow> action_result \<Rightarrow> action_result" where
  "ar_merge a b = \<lparr>ar_banned = (ar_banned a \<or> ar_banned b),
     ar_ban_ttl_s = (case (ar_ban_ttl_s a, ar_ban_ttl_s b) of
         (Some x, Some y) \<Rightarrow> Some (max x y)
       | (x, y) \<Rightarrow> (case x of Some _ \<Rightarrow> x | None \<Rightarrow> y)),
     ar_risk_delta = min (u8_sat_add (ar_risk_delta a) (ar_risk_delta b)) 100\<rparr>"

section \<open>The ban table\<close>

type_synonym ban_table = "(ip_addr, int) amap"

definition ban_insert :: "ip_addr \<Rightarrow> int \<Rightarrow> ban_table \<Rightarrow> ban_table" where
  "ban_insert ip expires_ms t =
     (case am_get t ip of
        Some e \<Rightarrow> am_put ip (max e expires_ms) t
      | None \<Rightarrow> am_put ip expires_ms t)"

definition ban_contains :: "ip_addr \<Rightarrow> int \<Rightarrow> ban_table \<Rightarrow> bool" where
  "ban_contains ip now t = (case am_get t ip of Some e \<Rightarrow> now < e | None \<Rightarrow> False)"

definition ban_purge_expired :: "int \<Rightarrow> ban_table \<Rightarrow> nat \<times> ban_table" where
  "ban_purge_expired now t =
     (let t' = am_retain (\<lambda>_ e. now < e) t in (length t - length t', t'))"

section \<open>The escalation schedule\<close>

record ban_step =
  bst_ttl_s :: nat
  bst_risk_delta :: nat

type_synonym ban_schedule = "ban_step list"

text \<open>\<open>None\<close> is the panic on an empty schedule.\<close>

definition schedule_new :: "ban_step list \<Rightarrow> ban_schedule option" where
  "schedule_new steps = (if steps = [] then None else Some steps)"

definition schedule_default :: ban_schedule where
  "schedule_default =
     [\<lparr>bst_ttl_s = 60, bst_risk_delta = 30\<rparr>, \<lparr>bst_ttl_s = 300, bst_risk_delta = 50\<rparr>,
      \<lparr>bst_ttl_s = 3600, bst_risk_delta = 100\<rparr>]"

definition step_for :: "ban_schedule \<Rightarrow> u64 \<Rightarrow> ban_step" where
  "step_for steps offense_n =
     (let max_idx = length steps - 1;
          idx = min (unat (u64_sat_sub offense_n 1)) max_idx
      in if idx < length steps then steps ! idx
         else (case steps of s # _ \<Rightarrow> s | [] \<Rightarrow> \<lparr>bst_ttl_s = 3600, bst_risk_delta = 100\<rparr>))"

section \<open>Actions\<close>

text \<open>The state the actions share: the table of bans, the offense counters, the debounce locks and
  the signals sent to the aggregator, each with its key.\<close>

record 's action_env =
  ae_bans :: ban_table
  ae_offenses :: 's
  ae_locks :: "(ip_addr, int) amap"
  ae_signals :: "(string \<times> nat) list"

record ban_action =
  ba_schedule :: ban_schedule
  ba_offense_window_ms :: int
  ba_debounce_ms :: int

definition ban_action_new :: "ban_schedule \<Rightarrow> ban_action" where
  "ban_action_new s = \<lparr>ba_schedule = s, ba_offense_window_ms = 3600 * 1000, ba_debounce_ms = 100\<rparr>"

definition offense_key :: "ip_addr \<Rightarrow> string" where
  "offense_key ip = ''ddos:offense:'' @ show_ip ip"

definition acquire_debounce :: "int \<Rightarrow> ip_addr \<Rightarrow> int \<Rightarrow> (ip_addr, int) amap \<Rightarrow> bool \<times> (ip_addr, int) amap" where
  "acquire_debounce debounce_ms ip now locks =
     (case am_get locks ip of
        Some l \<Rightarrow> if debounce_ms \<le> i64_sat_sub now l then (True, am_put ip now locks) else (False, locks)
      | None \<Rightarrow> (True, am_put ip now locks))"

definition purge_debounce_locks :: "int \<Rightarrow> int \<Rightarrow> (ip_addr, int) amap \<Rightarrow> (ip_addr, int) amap" where
  "purge_debounce_locks debounce_ms now locks =
     (let cutoff = i64_sat_sub now (debounce_ms * 10) in am_retain (\<lambda>_ ts. cutoff < ts) locks)"

type_synonym ('s, 'e) counter_op = "string \<Rightarrow> int \<Rightarrow> int \<Rightarrow> 's \<Rightarrow> ('e + u64) \<times> 's"

type_synonym 'a executor = "ip_addr \<Rightarrow> detector_verdict \<Rightarrow> int \<Rightarrow> 'a \<Rightarrow> action_result \<times> 'a"

definition ban_execute :: "('s, 'e) counter_op \<Rightarrow> ban_action \<Rightarrow> 's action_env executor" where
  "ban_execute incr ba ip verdict now env =
     (case verdict of
        HardBurst reason detector \<Rightarrow>
          (case acquire_debounce (ba_debounce_ms ba) ip now (ae_locks env) of
             (False, locks) \<Rightarrow> (ar_noop, env\<lparr>ae_locks := locks\<rparr>)
           | (True, locks) \<Rightarrow>
               let env = env\<lparr>ae_locks := locks\<rparr>
               in case incr (offense_key ip) (ba_offense_window_ms ba) now (ae_offenses env) of
                    (Inl e, st) \<Rightarrow> (ar_noop, env\<lparr>ae_offenses := st\<rparr>)
                  | (Inr offense_n, st) \<Rightarrow>
                      let step = step_for (ba_schedule ba) offense_n;
                          expires_ms = i64_sat_add now (int (bst_ttl_s step) * 1000)
                      in (\<lparr>ar_banned = True, ar_ban_ttl_s = Some (bst_ttl_s step), ar_risk_delta = bst_risk_delta step\<rparr>,
                          env\<lparr>ae_offenses := st, ae_bans := ban_insert ip expires_ms (ae_bans env)\<rparr>))
      | _ \<Rightarrow> (ar_noop, env))"

definition ip_to_fp_key :: "ip_addr \<Rightarrow> string" where
  "ip_to_fp_key ip = ''ddos:'' @ show_ip ip"

definition risk_execute :: "'s action_env executor" where
  "risk_execute ip verdict now env =
     (let submit = \<lambda>d. if d = 0 then (ar_noop, env)
            else (\<lparr>ar_banned = False, ar_ban_ttl_s = None, ar_risk_delta = d\<rparr>,
                  env\<lparr>ae_signals := ae_signals env @ [(ip_to_fp_key ip, d)]\<rparr>)
      in case verdict of
           DvAllow \<Rightarrow> (ar_noop, env)
         | SoftAnomaly d \<Rightarrow> submit d
         | HardBurst _ _ \<Rightarrow> submit 100)"

fun combined_execute :: "'a executor list \<Rightarrow> 'a executor" where
  "combined_execute acts ip verdict now env =
     foldl (\<lambda>(acc, env) act. let (r, env') = act ip verdict now env in (ar_merge acc r, env'))
       (ar_noop, env) acts"

declare combined_execute.simps [simp del]

lemma combined_single: "combined_execute [act] ip v now env =
    (ar_merge ar_noop (fst (act ip v now env)), snd (act ip v now env))"
  by (simp add: combined_execute.simps case_prod_beta)

section \<open>Bans\<close>

datatype ban_op = BanInsert ip_addr int | BanPurge int

fun ban_run :: "ban_op list \<Rightarrow> ban_table \<Rightarrow> ban_table" where
  "ban_run [] t = t"
| "ban_run (BanInsert ip e # ops) t = ban_run ops (ban_insert ip e t)"
| "ban_run (BanPurge now # ops) t = ban_run ops (snd (ban_purge_expired now t))"

lemma ban_insert_wf: "am_wf t \<Longrightarrow> am_wf (ban_insert ip e t)"
  by (simp add: ban_insert_def map_simps split: option.splits)

lemma ban_insert_contains:
  "ban_contains ip now (ban_insert ip' e t) \<longleftrightarrow> ban_contains ip now t \<or> ip = ip' \<and> now < e"
  by (auto simp: ban_contains_def ban_insert_def map_simps split: option.splits)

lemma ban_purge_contains:
  "am_wf t \<Longrightarrow> p \<le> now \<Longrightarrow> ban_contains ip now (snd (ban_purge_expired p t)) \<longleftrightarrow> ban_contains ip now t"
  by (auto simp: ban_contains_def ban_purge_expired_def am.get_retain Let_def split: option.splits if_splits)

lemma ban_run_contains:
  "am_wf t \<Longrightarrow> \<forall>p. BanPurge p \<in> set ops \<longrightarrow> p \<le> now \<Longrightarrow>
   ban_contains ip now (ban_run ops t) \<longleftrightarrow> ban_contains ip now t \<or> (\<exists>e. BanInsert ip e \<in> set ops \<and> now < e)"
proof (induction ops t rule: ban_run.induct)
  case (2 ip' e ops t)
  then show ?case using ban_insert_wf [of t ip' e] by (auto simp: ban_insert_contains)
next
  case (3 p ops t)
  have "am_wf (snd (ban_purge_expired p t))" using "3.prems"(1) by (simp add: ban_purge_expired_def Let_def map_simps)
  with 3 ban_purge_contains [of t p now ip] show ?case by auto
qed simp

text \<open>C16. A ban holds exactly as long as it should: after any mix of bans on any addresses and of
  purges at times not in the future, an address is banned at \<open>now\<close> exactly when some ban on that
  address expires later; a later, shorter ban never shortens it and a purge never lifts it.\<close>

theorem ban_table_exact:
  assumes "\<forall>p. BanPurge p \<in> set ops \<longrightarrow> p \<le> now"
  shows "ban_contains ip now (ban_run ops []) \<longleftrightarrow> (\<exists>e. BanInsert ip e \<in> set ops \<and> now < e)"
  using ban_run_contains [OF _ assms, of "[]" ip] by (simp add: ban_contains_def map_simps)

theorem ban_table_exact_witness:
  "ban_contains (V4 10 0 0 1) 500 (ban_run [BanInsert (V4 10 0 0 1) 900, BanInsert (V4 10 0 0 1) 100, BanPurge 400] [])"
  using ban_table_exact [of "[BanInsert (V4 10 0 0 1) 900, BanInsert (V4 10 0 0 1) 100, BanPurge 400]" 500 "V4 10 0 0 1"]
  by auto

section \<open>Escalation\<close>

fun offend :: "('s, 'e) counter_op \<Rightarrow> ban_action \<Rightarrow> ip_addr \<Rightarrow> string \<Rightarrow> int list \<Rightarrow> 's action_env \<Rightarrow>
    action_result list \<times> 's action_env" where
  "offend incr ba ip why [] env = ([], env)"
| "offend incr ba ip why (t # ts) env =
     (let (r, env') = ban_execute incr ba ip (HardBurst why why) t env;
          (rs, env'') = offend incr ba ip why ts env' in (r # rs, env''))"

text \<open>Times at least \<open>lo\<close> and less than \<open>hi\<close> apart.\<close>

fun spaced :: "int \<Rightarrow> int \<Rightarrow> int list \<Rightarrow> bool" where
  "spaced lo hi (t # u # ts) = (lo \<le> u - t \<and> u - t < hi \<and> spaced lo hi (u # ts))"
| "spaced lo hi _ = True"

definition sanction :: "ban_schedule \<Rightarrow> nat \<Rightarrow> action_result" where
  "sanction sched n = (let s = sched ! min n (length sched - 1)
     in \<lparr>ar_banned = True, ar_ban_ttl_s = Some (bst_ttl_s s), ar_risk_delta = bst_risk_delta s\<rparr>)"

lemma step_for_nth:
  assumes "sched \<noteq> []" and "Suc n < 2 ^ 64"
  shows "step_for sched (of_nat (Suc n)) = sched ! min n (length sched - 1)"
proof -
  have u: "unat (of_nat (Suc n) :: u64) = Suc n" using assms(2) by (simp add: unat_of_nat del: of_nat_Suc)
  then have "\<not> (of_nat (Suc n) :: u64) < 1" and "(of_nat (Suc n) :: u64) \<noteq> 0"
    by (auto simp: word_less_nat_alt simp del: of_nat_Suc)
  then have "unat (u64_sat_sub (of_nat (Suc n)) 1) = n"
    using u unat_minus_one [of "of_nat (Suc n) :: u64"] by (simp add: u64_sat_sub_def del: of_nat_Suc)
  moreover have "min n (length sched - 1) < length sched" using assms(1) by (cases sched) auto
  ultimately show ?thesis by (simp add: step_for_def Let_def del: of_nat_Suc)
qed

definition offender_state :: "int \<Rightarrow> ip_addr \<Rightarrow> int list \<Rightarrow> counter_map action_env \<Rightarrow> bool" where
  "offender_state window ip hs env \<longleftrightarrow> counts window hs (am_get (ae_offenses env) (offense_key ip))
     \<and> am_get (ae_locks env) ip = (case hs of [] \<Rightarrow> None | h # _ \<Rightarrow> Some h) \<and> streak window hs = length hs"

abbreviation memory_counter :: "(counter_map, unit) counter_op" where
  "memory_counter \<equiv> counter_incr_get"

lemma offend_once:
  assumes st: "offender_state (ba_offense_window_ms ba) ip hs env" and sched: "ba_schedule ba \<noteq> []"
    and n: "Suc (length hs) < 2 ^ 64" and ok: "hits_ok (ba_offense_window_ms ba) (t # hs)"
    and gap: "case hs of [] \<Rightarrow> True | h # _ \<Rightarrow> ba_debounce_ms ba \<le> i64_sat_sub t h \<and> t < h + ba_offense_window_ms ba"
  obtains env' where "ban_execute memory_counter ba ip (HardBurst w w) t env = (sanction (ba_schedule ba) (length hs), env')"
    and "offender_state (ba_offense_window_ms ba) ip (t # hs) env'"
    and "ae_bans env' = ban_insert ip
       (i64_sat_add t (int (the (ar_ban_ttl_s (sanction (ba_schedule ba) (length hs)))) * 1000)) (ae_bans env)"
proof -
  let ?w = "ba_offense_window_ms ba" and ?k = "offense_key ip"
  obtain c m where inc: "incr_get_inner ?k ?w t (ae_offenses env) = (c, m)" by fastforce
  have cnt: "counts ?w hs (am_get (ae_offenses env) ?k)" using st by (simp add: offender_state_def)
  have streak: "streak ?w (t # hs) = Suc (length hs)"
    using st gap by (cases hs) (simp_all add: offender_state_def)
  have c: "c = of_nat (Suc (length hs))" and m: "counts ?w (t # hs) (am_get m ?k)"
    using incr_get_counts [OF cnt ok] inc streak by (simp_all del: of_nat_Suc)
  have lock: "acquire_debounce (ba_debounce_ms ba) ip t (ae_locks env) = (True, am_put ip t (ae_locks env))"
    using st gap by (cases hs) (simp_all add: offender_state_def acquire_debounce_def)
  note step = step_for_nth [OF sched n]
  let ?s = "ba_schedule ba ! min (length hs) (length (ba_schedule ba) - 1)"
  define env' where "env' = env\<lparr>ae_locks := am_put ip t (ae_locks env), ae_offenses := m,
    ae_bans := ban_insert ip (i64_sat_add t (int (bst_ttl_s ?s) * 1000)) (ae_bans env)\<rparr>"
  have sel: "ae_locks env' = am_put ip t (ae_locks env)" "ae_offenses env' = m"
    "ae_bans env' = ban_insert ip (i64_sat_add t (int (bst_ttl_s ?s) * 1000)) (ae_bans env)"
    by (cases env, simp add: env'_def)+
  have "ban_execute memory_counter ba ip (HardBurst w w) t env = (sanction (ba_schedule ba) (length hs), env')"
    by (simp add: ban_execute_def lock counter_incr_get_def inc c step sanction_def Let_def env'_def del: of_nat_Suc)
  then show thesis
    by (rule that) (simp_all add: sanction_def Let_def offender_state_def m streak map_simps sel)
qed

lemma offend_escalates:
  assumes "offender_state (ba_offense_window_ms ba) ip hs env" and "ba_schedule ba \<noteq> []"
    and "length hs + length ts < 2 ^ 64" and "hits_ok (ba_offense_window_ms ba) (ts @ hs)"
    and "\<forall>t\<in>set (ts @ hs). 0 \<le> t" and "0 \<le> ba_debounce_ms ba"
    and "spaced (ba_debounce_ms ba) (ba_offense_window_ms ba) (case hs of [] \<Rightarrow> ts | h # _ \<Rightarrow> h # ts)"
    and "\<forall>t\<in>set (ts @ hs). t \<le> i64_max"
  shows "fst (offend memory_counter ba ip w ts env) = map (\<lambda>i. sanction (ba_schedule ba) (length hs + i)) [0..<length ts]"
  using assms(1,3-5,7,8)
proof (induction ts arbitrary: hs env)
  case (Cons t ts)
  have ok: "hits_ok (ba_offense_window_ms ba) (t # hs)" using Cons.prems(3) by (auto simp: hits_ok_def)
  have gap: "case hs of [] \<Rightarrow> True | h # _ \<Rightarrow> ba_debounce_ms ba \<le> i64_sat_sub t h \<and> t < h + ba_offense_window_ms ba"
  proof (cases hs)
    case h: (Cons h hs')
    have "ba_debounce_ms ba \<le> t - h" "t - h < ba_offense_window_ms ba" using Cons.prems(5) h by simp_all
    moreover have "i64_sat_sub t h = t - h" using Cons.prems(4,6) h by (simp add: machine_simps)
    ultimately show ?thesis using h by simp
  qed simp
  have "Suc (length hs) < 2 ^ 64" using Cons.prems(2) by simp
  then obtain env' where ex: "ban_execute memory_counter ba ip (HardBurst w w) t env = (sanction (ba_schedule ba) (length hs), env')"
    and st: "offender_state (ba_offense_window_ms ba) ip (t # hs) env'"
    using offend_once [OF Cons.prems(1) assms(2) _ ok gap] by metis
  have "spaced (ba_debounce_ms ba) (ba_offense_window_ms ba) (t # ts)"
    using Cons.prems(5) by (cases hs) simp_all
  then have "fst (offend memory_counter ba ip w ts env') =
      map (\<lambda>i. sanction (ba_schedule ba) (length (t # hs) + i)) [0..<length ts]"
    using Cons.prems by (intro Cons.IH [OF st]) (auto simp: hits_ok_def)
  then show ?case by (simp add: ex case_prod_beta upt_rec [of 0] map_Suc_upt [symmetric] comp_def del: upt_Suc)
qed simp

text \<open>Bans escalate along the schedule: for an address with no earlier offense, offenses at least
  the debounce interval and less than the offense window apart are punished, in order, by the steps
  of the default schedule, one minute, five minutes, then one hour for the third and every later
  one.\<close>

theorem offenses_escalate:
  assumes "am_get (ae_offenses env) (offense_key ip) = None" and "am_get (ae_locks env) ip = None"
    and "spaced 100 3600000 ts" and "\<forall>t\<in>set ts. 0 \<le> t \<and> t \<le> i64_max - 3600000" and "length ts < 2 ^ 64"
  shows "fst (offend memory_counter (ban_action_new schedule_default) ip w ts env) =
    map (\<lambda>i. sanction schedule_default i) [0..<length ts]"
proof -
  have "offender_state 3600000 ip [] env" using assms(1,2) by (simp add: offender_state_def counts_def)
  moreover have "hits_ok 3600000 ts" "\<forall>t\<in>set ts. t \<le> i64_max"
    using assms(4) by (auto simp: hits_ok_def i64_min_def i64_max_def)
  ultimately show ?thesis
    using offend_escalates [of "ban_action_new schedule_default" ip "[]" env ts w] assms(3-5)
    by (simp add: ban_action_new_def schedule_default_def)
qed

theorem offenses_escalate_witness:
  "map ar_ban_ttl_s (fst (offend memory_counter (ban_action_new schedule_default) (V4 10 0 0 1) ''per_ip'' [0, 200, 5000, 9000]
     \<lparr>ae_bans = [], ae_offenses = [], ae_locks = [], ae_signals = []\<rparr>)) = [Some 60, Some 300, Some 3600, Some 3600]"
  using offenses_escalate [of "\<lparr>ae_bans = [], ae_offenses = [], ae_locks = [], ae_signals = []\<rparr>" "V4 10 0 0 1"
      "[0, 200, 5000, 9000]" "''per_ip''"]
  by (simp add: am_get_def i64_max_def upt_rec sanction_def schedule_default_def nth_Cons' Let_def del: offend.simps)

text \<open>Within the debounce interval a further burst changes nothing.\<close>

lemma ban_debounced:
  "am_get (ae_locks env) ip = Some l \<Longrightarrow> i64_sat_sub now l < ba_debounce_ms ba \<Longrightarrow>
   ban_execute incr ba ip (HardBurst r d) now env = (ar_noop, env)"
  by (cases env) (simp add: ban_execute_def acquire_debounce_def)

end
