(* ===== verification/DdosCheck.thy ===== *)
theory DdosCheck
  imports DdosAction RateCheck
begin

text \<open>
  The DDoS check of the request pipeline (\<^verbatim>\<open>checks/ddos\<close>): configuration (\<^verbatim>\<open>config.rs\<close>,
  \<^verbatim>\<open>mod.rs\<close>), the per-IP, per-fingerprint and per-tier detectors (\<^verbatim>\<open>detector\<close>), the
  overload guard and its degrade matrix (\<^verbatim>\<open>degrade.rs\<close>), the metrics (\<^verbatim>\<open>metrics.rs\<close>) and the
  check that composes them (\<^verbatim>\<open>check.rs\<close>).  Stores are parameters of the detectors; a detector
  returns \<open>None\<close> where the code panics.
\<close>

section \<open>Configuration\<close>

record ddos_tier_cfg =
  dt_per_fp_threshold :: nat
  dt_per_fp_window_s :: nat
  dt_per_tier_threshold :: nat
  dt_per_tier_window_s :: nat

record ddos_config =
  dcf_tiers :: "tier \<rightharpoonup> ddos_tier_cfg"
  dcf_gc_interval_s :: nat
  dcf_max_keys :: nat

definition ddos_config_default :: ddos_config where
  "ddos_config_default = \<lparr>dcf_tiers = Map.empty, dcf_gc_interval_s = 60, dcf_max_keys = 100000\<rparr>"

definition ddos_for_tier :: "ddos_config \<Rightarrow> tier \<Rightarrow> ddos_tier_cfg option" where
  "ddos_for_tier c t = dcf_tiers c t"

record ddos_tier_map =
  dm_critical :: "ddos_tier_cfg option"
  dm_high :: "ddos_tier_cfg option"
  dm_medium :: "ddos_tier_cfg option"
  dm_catch_all :: "ddos_tier_cfg option"

record ddos_redis_cfg =
  drc_url :: string
  drc_key_prefix :: string
  drc_op_timeout_ms :: nat

record ddos_file_config =
  df_schema_version :: nat
  df_enabled :: bool
  df_hot_reload :: bool
  df_tiers :: ddos_tier_map
  df_gc_interval_s :: nat
  df_max_keys :: nat
  df_redis :: "ddos_redis_cfg option"

definition ddos_file_default :: ddos_file_config where
  "ddos_file_default = \<lparr>df_schema_version = 1, df_enabled = False, df_hot_reload = True,
     df_tiers = \<lparr>dm_critical = None, dm_high = None, dm_medium = None, dm_catch_all = None\<rparr>,
     df_gc_interval_s = 60, df_max_keys = 100000, df_redis = None\<rparr>"

datatype ddos_config_error =
    DdosUnsupportedSchema nat | ZeroGcInterval | ZeroMaxKeys | ZeroFpThreshold string | ZeroFpWindow string
  | ZeroTierThreshold string | ZeroTierWindow string | DdosEmptyRedisUrl

definition ddos_iter_tiers :: "ddos_file_config \<Rightarrow> (string \<times> ddos_tier_cfg) list" where
  "ddos_iter_tiers c = List.map_filter (\<lambda>(n, t). map_option (Pair n) t)
     [(''critical'', dm_critical (df_tiers c)), (''high'', dm_high (df_tiers c)),
      (''medium'', dm_medium (df_tiers c)), (''catch_all'', dm_catch_all (df_tiers c))]"

fun ddos_validate_tiers :: "(string \<times> ddos_tier_cfg) list \<Rightarrow> ddos_config_error + unit" where
  "ddos_validate_tiers [] = Inr ()"
| "ddos_validate_tiers ((name, t) # ts) =
     (if dt_per_fp_threshold t = 0 then Inl (ZeroFpThreshold name)
      else if dt_per_fp_window_s t = 0 then Inl (ZeroFpWindow name)
      else if dt_per_tier_threshold t = 0 then Inl (ZeroTierThreshold name)
      else if dt_per_tier_window_s t = 0 then Inl (ZeroTierWindow name)
      else ddos_validate_tiers ts)"

definition ddos_validate :: "ddos_file_config \<Rightarrow> ddos_config_error + unit" where
  "ddos_validate c =
     (if df_schema_version c \<noteq> 1 then Inl (DdosUnsupportedSchema (df_schema_version c))
      else if df_gc_interval_s c = 0 then Inl ZeroGcInterval
      else if df_max_keys c = 0 then Inl ZeroMaxKeys
      else (case ddos_validate_tiers (ddos_iter_tiers c) of
              Inl e \<Rightarrow> Inl e
            | Inr _ \<Rightarrow>
                (case df_redis c of
                   Some r \<Rightarrow> if drc_url r = [] then Inl DdosEmptyRedisUrl else Inr ()
                 | None \<Rightarrow> Inr ())))"

definition ddos_insert_tier ::
  "tier \<Rightarrow> ddos_tier_cfg option \<Rightarrow> (tier \<rightharpoonup> ddos_tier_cfg) \<Rightarrow> (tier \<rightharpoonup> ddos_tier_cfg)" where
  "ddos_insert_tier k t m = (case t of Some t \<Rightarrow> m(k \<mapsto> t) | None \<Rightarrow> m)"

definition ddos_into_runtime :: "ddos_file_config \<Rightarrow> ddos_config" where
  "ddos_into_runtime c =
     \<lparr>dcf_tiers =
        (if df_enabled c
         then ddos_insert_tier CatchAll (dm_catch_all (df_tiers c))
               (ddos_insert_tier Medium (dm_medium (df_tiers c))
                 (ddos_insert_tier High (dm_high (df_tiers c))
                   (ddos_insert_tier Critical (dm_critical (df_tiers c)) Map.empty)))
         else Map.empty),
      dcf_gc_interval_s = df_gc_interval_s c, dcf_max_keys = df_max_keys c\<rparr>"

definition ddos_from_yaml_str ::
  "(string \<Rightarrow> 'p + ddos_file_config) \<Rightarrow> string \<Rightarrow> ('p + ddos_config_error) + ddos_config" where
  "ddos_from_yaml_str parse s =
     (case parse s of
        Inl e \<Rightarrow> Inl (Inl e)
      | Inr cfg \<Rightarrow> (case ddos_validate cfg of Inl e \<Rightarrow> Inl (Inr e) | Inr _ \<Rightarrow> Inr (ddos_into_runtime cfg)))"

section \<open>Detectors\<close>

fun tier_str :: "tier \<Rightarrow> string" where
  "tier_str Critical = ''critical''"
| "tier_str High = ''high''"
| "tier_str Medium = ''medium''"
| "tier_str CatchAll = ''catch_all''"

record 'd detector =
  det_name :: string
  det_evaluate :: "request_ctx \<Rightarrow> ddos_tier_cfg \<Rightarrow> int \<Rightarrow> 'd \<Rightarrow> (detector_verdict \<times> 'd) option"

subsection \<open>Per IP\<close>

definition per_ip_key :: "request_ctx \<Rightarrow> string" where
  "per_ip_key ctx = ''ddos:ip:'' @ tier_str (ctx_tier ctx) @ '':'' @ show_ip (ctx_client_ip ctx)"

text \<open>A window of zero makes the store panic, whatever the quotient.\<close>

definition to_limit_cfg :: "ddos_tier_cfg \<Rightarrow> limit_cfg" where
  "to_limit_cfg cfg = \<lparr>lc_burst_capacity = dt_per_fp_threshold cfg,
     lc_burst_refill_per_s = f64_rnd (of_nat (dt_per_fp_threshold cfg) / of_nat (dt_per_fp_window_s cfg)),
     lc_window_secs = dt_per_fp_window_s cfg, lc_window_limit = dt_per_fp_threshold cfg\<rparr>"

definition per_ip_evaluate ::
  "('s, 'e) rl_store \<Rightarrow> request_ctx \<Rightarrow> ddos_tier_cfg \<Rightarrow> int \<Rightarrow> 's \<Rightarrow> (detector_verdict \<times> 's) option" where
  "per_ip_evaluate store ctx cfg now s =
     (case store (per_ip_key ctx) (to_limit_cfg cfg) now s of
        None \<Rightarrow> None
      | Some (r, s') \<Rightarrow> Some
          (case r of
             Inr RlAllow \<Rightarrow> DvAllow
           | Inr BurstExceeded \<Rightarrow> HardBurst ''burst'' ''per_ip''
           | Inr SustainedExceeded \<Rightarrow> HardBurst ''sustained'' ''per_ip''
           | Inl e \<Rightarrow> DvAllow, s'))"

definition per_ip_detector :: "('s, 'e) rl_store \<Rightarrow> 's detector" where
  "per_ip_detector store = \<lparr>det_name = ''per_ip'', det_evaluate = per_ip_evaluate store\<rparr>"

subsection \<open>Per fingerprint\<close>

definition per_fp_key :: "tier \<Rightarrow> string \<Rightarrow> string" where
  "per_fp_key t fp_hash = ''ddos:fp:'' @ tier_str t @ '':'' @ fp_hash"

definition evaluate_with_fp ::
  "('s, 'e) counter_op \<Rightarrow> string option \<Rightarrow> request_ctx \<Rightarrow> ddos_tier_cfg \<Rightarrow> int \<Rightarrow> 's \<Rightarrow> detector_verdict \<times> 's" where
  "evaluate_with_fp incr fp_hash ctx cfg now s =
     (case fp_hash of
        None \<Rightarrow> (DvAllow, s)
      | Some fp \<Rightarrow>
          if fp = [] then (DvAllow, s)
          else let ttl_ms = int (dt_per_fp_window_s cfg) * 1000;
                   (r, s') = incr (per_fp_key (ctx_tier ctx) fp) ttl_ms now s
               in (case r of
                     Inr n \<Rightarrow> if of_nat (dt_per_fp_threshold cfg) < n then HardBurst ''fp_burst'' ''per_fp'' else DvAllow
                   | Inl e \<Rightarrow> DvAllow, s'))"

definition per_fp_detector :: "'s detector" where
  "per_fp_detector = \<lparr>det_name = ''per_fp'', det_evaluate = \<lambda>_ _ _ s. Some (DvAllow, s)\<rparr>"

subsection \<open>Per tier\<close>

definition DEFAULT_ABSOLUTE_CAP_FLOOR :: nat where "DEFAULT_ABSOLUTE_CAP_FLOOR = 1000"

record 's per_tier =
  pt_store :: 's
  pt_baseline :: moving_median

definition per_tier_new :: "'s \<Rightarrow> 's per_tier" where
  "per_tier_new s = \<lparr>pt_store = s, pt_baseline = mm_new\<rparr>"

definition per_tier_key :: "request_ctx \<Rightarrow> string" where
  "per_tier_key ctx = ''ddos:tier:'' @ tier_str (ctx_tier ctx)"

definition compute_threshold :: "nat \<Rightarrow> moving_median \<Rightarrow> u64" where
  "compute_threshold cap_floor mm = max (of_nat cap_floor) (u64_sat_mul (mm_median mm) 3)"

definition per_tier_evaluate_at ::
  "('s, 'e) counter_op \<Rightarrow> nat \<Rightarrow> request_ctx \<Rightarrow> ddos_tier_cfg \<Rightarrow> int \<Rightarrow> 's per_tier \<Rightarrow> detector_verdict \<times> 's per_tier" where
  "per_tier_evaluate_at incr cap_floor ctx cfg now s =
     (let ttl_ms = int (dt_per_tier_window_s cfg) * 1000;
          (r, st) = incr (per_tier_key ctx) ttl_ms now (pt_store s);
          s = s\<lparr>pt_store := st\<rparr>
      in case r of
           Inl e \<Rightarrow> (DvAllow, s)
         | Inr n \<Rightarrow>
             let (_, base) = mm_record now (pt_baseline s);
                 s = s\<lparr>pt_baseline := base\<rparr>;
                 threshold = compute_threshold cap_floor base
             in (if threshold < n then HardBurst ''tier_burst'' ''per_tier'' else DvAllow, s))"

text \<open>In the pipeline the detector reads its own clock instead of the check's time.\<close>

definition per_tier_detector :: "('s, 'e) counter_op \<Rightarrow> nat \<Rightarrow> int \<Rightarrow> 's per_tier detector" where
  "per_tier_detector incr cap_floor clock =
     \<lparr>det_name = ''per_tier'', det_evaluate = \<lambda>ctx cfg _ s. Some (per_tier_evaluate_at incr cap_floor ctx cfg clock s)\<rparr>"

section \<open>Degradation\<close>

datatype error_kind = StoreUnavailable | BackendOverload | ConfigStale

datatype degrade_action = DgAllow | AllowAndWarn | DgBlock nat nat

definition resolve :: "tier \<Rightarrow> fail_mode \<Rightarrow> error_kind \<Rightarrow> degrade_action" where
  "resolve t fail_mode err =
     (if fail_mode = Close then DgBlock 503 5
      else (case t of Critical \<Rightarrow> DgBlock 503 5 | High \<Rightarrow> DgBlock 503 5 | Medium \<Rightarrow> AllowAndWarn | CatchAll \<Rightarrow> DgAllow))"

record overload_guard =
  og_in_flight :: u64
  og_overloaded :: bool
  og_shutdown :: bool
  og_threshold :: u64

definition og_new :: "u64 \<Rightarrow> overload_guard" where
  "og_new threshold = \<lparr>og_in_flight = 0, og_overloaded = False, og_shutdown = False, og_threshold = threshold\<rparr>"

definition og_default :: overload_guard where "og_default = og_new 1000"

definition og_request_shutdown :: "overload_guard \<Rightarrow> overload_guard" where
  "og_request_shutdown g = g\<lparr>og_shutdown := True\<rparr>"

definition og_enter :: "overload_guard \<Rightarrow> overload_guard" where
  "og_enter g = g\<lparr>og_in_flight := og_in_flight g + 1\<rparr>"

definition og_exit :: "overload_guard \<Rightarrow> overload_guard" where
  "og_exit g = g\<lparr>og_in_flight := og_in_flight g - 1\<rparr>"

definition og_sample :: "overload_guard \<Rightarrow> overload_guard" where
  "og_sample g = g\<lparr>og_overloaded := og_threshold g < og_in_flight g\<rparr>"

text \<open>One tick of the background sampler; \<open>None\<close> when it has ended.\<close>

definition og_sampler_tick :: "overload_guard \<Rightarrow> overload_guard option" where
  "og_sampler_tick g =
     (if og_shutdown g then None
      else let now_overloaded = og_threshold g < og_in_flight g
           in Some (if og_overloaded g \<noteq> now_overloaded then g\<lparr>og_overloaded := now_overloaded\<rparr> else g))"

section \<open>Metrics\<close>

record ddos_metrics =
  me_burst_total :: u64
  me_burst_per_ip :: u64
  me_burst_per_fp :: u64
  me_burst_per_tier :: u64
  me_bans_active :: u64
  me_bans_total :: u64
  me_store_errors :: u64
  me_degrade_events :: u64

definition metrics_new :: ddos_metrics where
  "metrics_new = \<lparr>me_burst_total = 0, me_burst_per_ip = 0, me_burst_per_fp = 0, me_burst_per_tier = 0,
     me_bans_active = 0, me_bans_total = 0, me_store_errors = 0, me_degrade_events = 0\<rparr>"

definition inc_burst :: "string \<Rightarrow> ddos_metrics \<Rightarrow> ddos_metrics" where
  "inc_burst d m =
     (let m = m\<lparr>me_burst_total := me_burst_total m + 1\<rparr>
      in if d = ''per_ip'' then m\<lparr>me_burst_per_ip := me_burst_per_ip m + 1\<rparr>
         else if d = ''per_fp'' then m\<lparr>me_burst_per_fp := me_burst_per_fp m + 1\<rparr>
         else if d = ''per_tier'' then m\<lparr>me_burst_per_tier := me_burst_per_tier m + 1\<rparr>
         else m)"

definition inc_ban :: "ddos_metrics \<Rightarrow> ddos_metrics" where
  "inc_ban m = m\<lparr>me_bans_total := me_bans_total m + 1, me_bans_active := me_bans_active m + 1\<rparr>"

definition dec_bans_active :: "u64 \<Rightarrow> ddos_metrics \<Rightarrow> ddos_metrics" where
  "dec_bans_active n m = m\<lparr>me_bans_active := u64_sat_sub (me_bans_active m) n\<rparr>"

definition inc_degrade :: "ddos_metrics \<Rightarrow> ddos_metrics" where
  "inc_degrade m = m\<lparr>me_degrade_events := me_degrade_events m + 1\<rparr>"

section \<open>The check\<close>

record ('d, 's) ddos_state =
  dk_detectors :: 'd
  dk_actions :: "'s action_env"
  dk_guard :: overload_guard
  dk_metrics :: ddos_metrics

definition upper_char :: "char \<Rightarrow> char" where
  "upper_char c = (if 97 \<le> byte c \<and> byte c \<le> 122 then char_of (byte c - 32) else c)"

definition ddos_result :: "string \<Rightarrow> string \<Rightarrow> string \<Rightarrow> detection_result" where
  "ddos_result rule name detail =
     \<lparr>dr_rule_id = Some rule, dr_rule_name = name, dr_phase = Ddos, dr_detail = detail\<rparr>"

fun run_detectors :: "'d detector list \<Rightarrow> 's action_env executor list \<Rightarrow> request_ctx \<Rightarrow> ddos_tier_cfg \<Rightarrow> int \<Rightarrow>
    ('d, 's) ddos_state \<Rightarrow> (detection_result option \<times> ('d, 's) ddos_state) option" where
  "run_detectors [] acts ctx cfg now st = Some (None, st)"
| "run_detectors (d # ds) acts ctx cfg now st =
     (case det_evaluate d ctx cfg now (dk_detectors st) of
        None \<Rightarrow> None
      | Some (verdict, s) \<Rightarrow>
          let st = st\<lparr>dk_detectors := s\<rparr>
          in case verdict of
               DvAllow \<Rightarrow> run_detectors ds acts ctx cfg now st
             | SoftAnomaly score \<Rightarrow>
                 run_detectors ds acts ctx cfg now (st\<lparr>dk_metrics := inc_burst (det_name d) (dk_metrics st)\<rparr>)
             | HardBurst reason name \<Rightarrow>
                 let (res, env) = combined_execute acts (ctx_client_ip ctx) verdict now (dk_actions st);
                     m = inc_burst name (dk_metrics st);
                     m = (if ar_banned res then inc_ban m else m)
                 in Some (Some (ddos_result (''DDOS-'' @ map upper_char name) ''DDoS Protection''
                       (''ddos '' @ name @ '' ('' @ reason @ ''); banned ''
                         @ show_dec (case ar_ban_ttl_s res of Some t \<Rightarrow> t | None \<Rightarrow> 0) @ ''s'')),
                     st\<lparr>dk_actions := env, dk_metrics := m\<rparr>))"

definition ddos_check :: "'d detector list \<Rightarrow> 's action_env executor list \<Rightarrow> ddos_config \<Rightarrow> int \<Rightarrow> request_ctx \<Rightarrow>
    ('d, 's) ddos_state \<Rightarrow> (detection_result option \<times> ('d, 's) ddos_state) option" where
  "ddos_check dets acts snap now ctx st =
     (case ddos_for_tier snap (ctx_tier ctx) of
        None \<Rightarrow> Some (None, st)
      | Some tier_cfg \<Rightarrow>
          if og_overloaded (dk_guard st) then
            let action = resolve (ctx_tier ctx) (tp_fail_mode (ctx_tier_policy ctx)) BackendOverload;
                st = st\<lparr>dk_metrics := inc_degrade (dk_metrics st)\<rparr>
            in Some (case action of
                 DgBlock status retry_after_s \<Rightarrow>
                   (Some (ddos_result ''DDOS-DEGRADE'' ''DDoS Protection (Degraded)''
                      (''system overloaded; retry after '' @ show_dec retry_after_s @ ''s; status '' @ show_dec status)), st)
               | AllowAndWarn \<Rightarrow> (None, st)
               | DgAllow \<Rightarrow> (None, st))
          else if ban_contains (ctx_client_ip ctx) now (ae_bans (dk_actions st)) then
            Some (Some (ddos_result ''DDOS-BAN'' ''DDoS Protection''
              (''IP '' @ show_ip (ctx_client_ip ctx) @ '' is currently banned'')), st)
          else run_detectors dets acts ctx tier_cfg now st)"

text \<open>The wiring of \<^verbatim>\<open>WafEngine::with_sqli_config\<close>: the per-IP detector over an in-memory store
  and the ban action over an in-memory counter store.\<close>

definition engine_detectors :: "memory_store detector list" where
  "engine_detectors = [per_ip_detector memory_rl]"

definition engine_actions :: "counter_map action_env executor list" where
  "engine_actions = [ban_execute memory_counter (ban_action_new schedule_default)]"

definition engine_ddos_state :: "(memory_store, counter_map) ddos_state" where
  "engine_ddos_state = \<lparr>dk_detectors = [],
     dk_actions = \<lparr>ae_bans = [], ae_offenses = [], ae_locks = [], ae_signals = []\<rparr>,
     dk_guard = og_default, dk_metrics = metrics_new\<rparr>"

section \<open>Properties\<close>

lemma ddos_for_tier_runtime:
  "ddos_for_tier (ddos_into_runtime c) t = Some cfg \<Longrightarrow> cfg \<in> snd ` set (ddos_iter_tiers c)"
  by (cases t) (simp_all add: ddos_for_tier_def ddos_into_runtime_def ddos_insert_tier_def ddos_iter_tiers_def
      split: if_splits option.splits)

lemma ddos_validate_tiers_ok:
  "ddos_validate_tiers ts = Inr () \<Longrightarrow> (n, x) \<in> set ts \<Longrightarrow>
    0 < dt_per_fp_window_s x \<and> 0 < dt_per_fp_threshold x \<and> 0 < dt_per_tier_window_s x"
  by (induction ts rule: ddos_validate_tiers.induct) (auto split: if_splits)

lemma ddos_validate_ok:
  assumes "ddos_from_yaml_str parse s = Inr c" and "ddos_for_tier c t = Some cfg"
  shows "0 < dt_per_fp_window_s cfg \<and> 0 < dt_per_fp_threshold cfg \<and> 0 < dt_per_tier_window_s cfg"
proof -
  obtain f where f: "ddos_validate f = Inr ()" "c = ddos_into_runtime f"
    using assms(1) by (auto simp: ddos_from_yaml_str_def split: sum.splits)
  then have "ddos_validate_tiers (ddos_iter_tiers f) = Inr ()"
    by (auto simp: ddos_validate_def split: if_splits sum.splits)
  then show ?thesis using ddos_for_tier_runtime [of f t cfg] assms(2) f(2) ddos_validate_tiers_ok by fastforce
qed

subsection \<open>Store errors\<close>


definition sample_ddos :: ddos_config where
  "sample_ddos = ddos_config_default\<lparr>dcf_tiers := [Critical \<mapsto> \<lparr>dt_per_fp_threshold = 1, dt_per_fp_window_s = 10,
     dt_per_tier_threshold = 100, dt_per_tier_window_s = 60\<rparr>]\<rparr>"


subsection \<open>Overload\<close>

text \<open>Under overload the check follows the degrade matrix: a protected request is blocked exactly
  when its tier fails closed or is critical or high, no detector runs and no ban is issued, and the
  event is counted.\<close>

theorem overload_degrades:
  assumes "ddos_for_tier snap (ctx_tier ctx) = Some cfg" and "og_overloaded (dk_guard st)"
  shows "\<exists>r. ddos_check dets acts snap now ctx st = Some (r, st\<lparr>dk_metrics := inc_degrade (dk_metrics st)\<rparr>)
    \<and> (r \<noteq> None \<longleftrightarrow> tp_fail_mode (ctx_tier_policy ctx) = Close \<or> ctx_tier ctx = Critical \<or> ctx_tier ctx = High)"
  using assms by (cases "ctx_tier ctx"; cases "tp_fail_mode (ctx_tier_policy ctx)") (simp_all add: ddos_check_def resolve_def Let_def)

theorem overload_degrades_witness:
  "\<exists>r. ddos_check engine_detectors engine_actions sample_ddos 0 sample_ctx
      (engine_ddos_state\<lparr>dk_guard := og_default\<lparr>og_overloaded := True\<rparr>\<rparr>) =
      Some (Some r, engine_ddos_state\<lparr>dk_guard := og_default\<lparr>og_overloaded := True\<rparr>, dk_metrics := inc_degrade metrics_new\<rparr>)"
  using overload_degrades [of sample_ddos sample_ctx
      "\<lparr>dt_per_fp_threshold = 1, dt_per_fp_window_s = 10, dt_per_tier_threshold = 100, dt_per_tier_window_s = 60\<rparr>"
      "engine_ddos_state\<lparr>dk_guard := og_default\<lparr>og_overloaded := True\<rparr>\<rparr>" engine_detectors engine_actions 0]
  by (auto simp: sample_ddos_def ddos_config_default_def ddos_for_tier_def sample_ctx_def engine_ddos_state_def)

subsection \<open>Bans are enforced\<close>

abbreviation engine_ddos_check ::
  "ddos_config \<Rightarrow> int \<Rightarrow> request_ctx \<Rightarrow> (memory_store, counter_map) ddos_state \<Rightarrow>
   (detection_result option \<times> (memory_store, counter_map) ddos_state) option" where
  "engine_ddos_check \<equiv> ddos_check engine_detectors engine_actions"

fun ddos_run :: "ddos_config \<Rightarrow> request list \<Rightarrow> (memory_store, counter_map) ddos_state \<Rightarrow>
    (detection_result option list \<times> (memory_store, counter_map) ddos_state) option" where
  "ddos_run snap [] st = Some ([], st)"
| "ddos_run snap ((ctx, now) # reqs) st =
     (case engine_ddos_check snap now ctx st of
        None \<Rightarrow> None
      | Some (r, st') \<Rightarrow> map_option (\<lambda>(rs, st''). (r # rs, st'')) (ddos_run snap reqs st'))"

lemma ban_execute_bans:
  "ban_contains ip t (ae_bans env) \<Longrightarrow> ban_contains ip t (ae_bans (snd (ban_execute incr ba ip' v now env)))"
  by (cases env) (auto simp: ban_execute_def Let_def ban_insert_contains split: detector_verdict.splits prod.splits
      bool.splits sum.splits)

lemma engine_check_keeps:
  assumes "engine_ddos_check snap now ctx st = Some (r, st')"
  shows "dk_guard st' = dk_guard st"
    and "ban_contains ip t (ae_bans (dk_actions st)) \<Longrightarrow> ban_contains ip t (ae_bans (dk_actions st'))"
  using assms ban_execute_bans [of ip t "dk_actions st"]
  by (auto simp: ddos_check_def engine_detectors_def engine_actions_def combined_single Let_def case_prod_beta
      split: option.splits if_splits detector_verdict.splits degrade_action.splits)

lemma ddos_run_keeps:
  assumes "ddos_run snap reqs st = Some (rs, st')"
  shows "dk_guard st' = dk_guard st \<and>
    (ban_contains ip t (ae_bans (dk_actions st)) \<longrightarrow> ban_contains ip t (ae_bans (dk_actions st')))"
  using assms
proof (induction reqs arbitrary: st rs)
  case (Cons q reqs)
  obtain ctx now where q: "q = (ctx, now)" by (cases q)
  from Cons.prems obtain r st1 rs1 where step: "engine_ddos_check snap now ctx st = Some (r, st1)"
    and run: "ddos_run snap reqs st1 = Some (rs1, st')" by (auto simp: q split: option.splits)
  from Cons.IH [OF run] engine_check_keeps [OF step] show ?case by metis
qed simp

lemma schedule_min_ttl: "60 \<le> bst_ttl_s (step_for schedule_default n)"
proof -
  have "min (unat (u64_sat_sub n 1)) 2 \<in> {0, 1, 2}" by auto
  then show ?thesis by (auto simp: step_for_def schedule_default_def Let_def)
qed

lemma burst_bans:
  assumes "fst (acquire_debounce 100 ip now (ae_locks env))" and "0 \<le> now" and "now + 3600000 \<le> i64_max"
    and "t < now + 60000"
  shows "ban_contains ip t (ae_bans (snd (ban_execute memory_counter (ban_action_new schedule_default) ip (HardBurst w d) now env)))"
proof -
  obtain locks where lock: "acquire_debounce 100 ip now (ae_locks env) = (True, locks)"
    using assms(1) by (cases "acquire_debounce 100 ip now (ae_locks env)") auto
  obtain n m where inc: "incr_get_inner (offense_key ip) 3600000 now (ae_offenses env) = (n, m)" by fastforce
  let ?ttl = "int (bst_ttl_s (step_for schedule_default n)) * 1000"
  have "t < i64_sat_add now ?ttl"
    using assms(2-4) schedule_min_ttl [of n] by (simp add: machine_simps)
  moreover have "snd (ban_execute memory_counter (ban_action_new schedule_default) ip (HardBurst w d) now env) =
      env\<lparr>ae_locks := locks, ae_offenses := m, ae_bans := ban_insert ip (i64_sat_add now ?ttl) (ae_bans env)\<rparr>"
    by (simp add: ban_execute_def ban_action_new_def lock counter_incr_get_def inc Let_def)
  ultimately show ?thesis by (cases env) (simp add: ban_insert_contains)
qed


definition sample_flood :: "(memory_store, counter_map) ddos_state" where
  "sample_flood = engine_ddos_state\<lparr>dk_detectors := [(per_ip_key sample_ctx,
     \<lparr>re_tb = \<lparr>tb_tokens = 0, tb_last_check_ms = 0\<rparr>,
      re_sw = \<lparr>sw_curr_count = 1, sw_prev_count = 0, sw_curr_window_start_ms = 0\<rparr>, re_last_touch_ms = 0\<rparr>)]\<rparr>"

abbreviation sample_tier_cfg :: ddos_tier_cfg where
  "sample_tier_cfg \<equiv> \<lparr>dt_per_fp_threshold = 1, dt_per_fp_window_s = 10, dt_per_tier_threshold = 100, dt_per_tier_window_s = 60\<rparr>"

lemma sample_flood_detected:
  "\<exists>r st1. engine_ddos_check sample_ddos 0 sample_ctx sample_flood = Some (Some r, st1) \<and> dr_rule_id r = Some ''DDOS-PER_IP''"
proof -
  let ?l = "to_limit_cfg sample_tier_cfg"
  have lok: "limit_ok ?l" by (simp add: limit_ok_def to_limit_cfg_def u32_max_def f64.nonneg)
  have "tb_try_consume ?l 0 \<lparr>tb_tokens = 0, tb_last_check_ms = 0\<rparr> = (False, \<lparr>tb_tokens = 0, tb_last_check_ms = 0\<rparr>)"
    using tb_consume_at_rest [OF lok, of 0 0] by simp
  then have "\<exists>s'. memory_rl (per_ip_key sample_ctx) ?l 0 (dk_detectors sample_flood) = Some (Inr BurstExceeded, s')"
    by (simp add: memory_check_and_consume_def check_and_consume_inner_def sample_flood_def engine_ddos_state_def am_get_def
        rl_consume_def Let_def)
  then obtain s' where mem: "memory_rl (per_ip_key sample_ctx) ?l 0 (dk_detectors sample_flood) = Some (Inr BurstExceeded, s')" ..
  have cfg: "ddos_for_tier sample_ddos (ctx_tier sample_ctx) = Some sample_tier_cfg"
    by (simp add: sample_ddos_def ddos_config_default_def ddos_for_tier_def sample_ctx_def)
  have up: "map upper_char ''per_ip'' = ''PER_IP''" by code_simp
  have free: "\<not> og_overloaded (dk_guard sample_flood)" "\<not> ban_contains (ctx_client_ip sample_ctx) 0 (ae_bans (dk_actions sample_flood))"
    by (simp_all add: sample_flood_def engine_ddos_state_def og_default_def og_new_def ban_contains_def am_get_def)
  show ?thesis
    by (simp add: ddos_check_def cfg free engine_detectors_def per_ip_detector_def per_ip_evaluate_def mem Let_def
        case_prod_beta ddos_result_def up [simplified] del: One_nat_def)
qed


section \<open>A tier under steady traffic\<close>

text \<open>The verdicts of the per-tier detector over requests at the given times.\<close>

primrec tier_run :: "nat \<Rightarrow> request_ctx \<Rightarrow> ddos_tier_cfg \<Rightarrow> int list \<Rightarrow> counter_map per_tier \<Rightarrow> detector_verdict list" where
  "tier_run cap_floor ctx cfg [] s = []"
| "tier_run cap_floor ctx cfg (t # ts) s =
     (let (v, s') = per_tier_evaluate_at memory_counter cap_floor ctx cfg t s in v # tier_run cap_floor ctx cfg ts s')"

text \<open>The state of the detector after the hits \<open>hs\<close>, most recent first.\<close>

definition tier_state :: "request_ctx \<Rightarrow> ddos_tier_cfg \<Rightarrow> int list \<Rightarrow> counter_map per_tier \<Rightarrow> bool" where
  "tier_state ctx cfg hs s \<longleftrightarrow>
     counts (int (dt_per_tier_window_s cfg) * 1000) hs (am_get (pt_store s) (per_tier_key ctx))
     \<and> mm_repr (map (\<lambda>t. t div 1000) hs) (pt_baseline s)
     \<and> mm_last_epoch_s (pt_baseline s) = (case hs of [] \<Rightarrow> -1 | t # _ \<Rightarrow> t div 1000)"

text \<open>No second saw more than \<open>c\<close> hits: the median, and three times it, is bounded by \<open>c\<close>.\<close>

lemma threshold_at_floor:
  assumes "mm_repr hist mm" and "\<And>x. 3 * count_list hist x \<le> cap_floor" and "cap_floor < 2 ^ 64"
  shows "unat (compute_threshold cap_floor mm) = cap_floor"
proof -
  have "(of_nat (count_list hist x) :: u64) \<le> of_nat (cap_floor div 3)" for x
    using assms(2) [of x] assms(3) by (simp add: word_le_nat_alt unat_of_nat)
  then have "filter (\<lambda>x. x \<le> of_nat (cap_floor div 3)) (seconds_back hist (mm_last_epoch_s mm))
      = seconds_back hist (mm_last_epoch_s mm)"
    by (auto simp: seconds_back_def filter_id_conv)
  then have "mm_median mm \<le> of_nat (cap_floor div 3)"
    by (intro mm_median_cold [OF assms(1)]) (simp only:, simp add: seconds_back_def)
  then have "unat (mm_median mm) \<le> cap_floor div 3"
    using assms(3) unat_mono [of "mm_median mm"] by (simp add: word_le_nat_alt unat_of_nat)
  then have "unat (u64_sat_mul (mm_median mm) 3) \<le> cap_floor" unfolding unat_u64_sat_mul by simp
  then show ?thesis
    using assms(3) by (simp add: compute_threshold_def max_def word_le_nat_alt unat_of_nat)
qed

lemma tier_step:
  assumes st: "tier_state ctx cfg hs s" and ok: "hits_ok (int (dt_per_tier_window_s cfg) * 1000) (t # hs)"
    and t: "0 \<le> t" "t \<le> i64_max" and later: "\<forall>h\<in>set hs. h \<le> t"
    and steady: "streak (int (dt_per_tier_window_s cfg) * 1000) (t # hs) = Suc (length hs)"
    and slow: "\<And>x. 3 * count_list (map (\<lambda>t. t div 1000) (t # hs)) x \<le> cap_floor"
    and small: "cap_floor < 2 ^ 64" "Suc (length hs) < 2 ^ 64"
  shows "\<exists>s'. per_tier_evaluate_at memory_counter cap_floor ctx cfg t s =
      (if cap_floor < Suc (length hs) then HardBurst ''tier_burst'' ''per_tier'' else DvAllow, s') \<and> tier_state ctx cfg (t # hs) s'"
proof -
  let ?ttl = "int (dt_per_tier_window_s cfg) * 1000" and ?k = "per_tier_key ctx"
  obtain n m where inc: "incr_get_inner ?k ?ttl t (pt_store s) = (n, m)" by fastforce
  have cnt: "counts ?ttl hs (am_get (pt_store s) ?k)" and repr: "mm_repr (map (\<lambda>t. t div 1000) hs) (pt_baseline s)"
    and ep: "mm_last_epoch_s (pt_baseline s) = (case hs of [] \<Rightarrow> -1 | t # _ \<Rightarrow> t div 1000)"
    using st by (auto simp: tier_state_def)
  have n: "n = of_nat (Suc (length hs))" and m: "counts ?ttl (t # hs) (am_get m ?k)"
    using incr_get_counts [OF cnt ok] inc steady by auto
  have le: "mm_last_epoch_s (pt_baseline s) \<le> t div 1000"
    using later t(1) by (auto simp: ep zdiv_mono1 split: list.splits intro: order_trans [of "-1" 0])
  then have recent: "mm_last_epoch_s (pt_baseline s) - 60 < t div 1000" by simp
  obtain b base where rcd: "mm_record t (pt_baseline s) = (b, base)" by fastforce
  have base: "mm_repr (map (\<lambda>t. t div 1000) (t # hs)) base" "mm_last_epoch_s base = t div 1000"
    using mm_record_repr [OF repr t recent] le rcd by auto
  have "compute_threshold cap_floor base < n \<longleftrightarrow> cap_floor < Suc (length hs)"
    using threshold_at_floor [OF base(1) slow small(1)] small(2)
    by (simp add: word_less_nat_alt n unat_of_nat del: of_nat_Suc)
  then show ?thesis
    by (simp add: per_tier_evaluate_at_def counter_incr_get_def inc rcd Let_def tier_state_def m base(2) base(1) [simplified])
qed

lemma tier_run_steady:
  assumes "tier_state ctx cfg hs s" and "sorted (rev hs @ ts)" and "\<forall>t\<in>set (hs @ ts). 0 \<le> t"
    and "hits_ok (int (dt_per_tier_window_s cfg) * 1000) (hs @ ts)"
    and "\<forall>i. Suc i < length (rev hs @ ts) \<longrightarrow> (rev hs @ ts) ! Suc i < (rev hs @ ts) ! i + int (dt_per_tier_window_s cfg) * 1000"
    and "\<And>x. 3 * count_list (map (\<lambda>t. t div 1000) (rev hs @ ts)) x \<le> cap_floor"
    and "cap_floor < 2 ^ 64" "length hs + length ts < 2 ^ 64"
  shows "tier_run cap_floor ctx cfg ts s =
    map (\<lambda>i. if cap_floor < Suc i then HardBurst ''tier_burst'' ''per_tier'' else DvAllow) [length hs..<length hs + length ts]"
  using assms
proof (induction ts arbitrary: hs s)
  case (Cons t ts)
  let ?ttl = "int (dt_per_tier_window_s cfg) * 1000"
  have ok: "hits_ok ?ttl (t # hs)" using Cons.prems(4) by (auto simp: hits_ok_def)
  then have "t \<le> i64_max" by (simp add: hits_ok_def)
  have steady: "streak ?ttl (t # hs) = Suc (length hs)"
  proof (subst streak_steady)
    fix i assume i: "Suc i < length (t # hs)"
    have at: "(rev hs @ t # ts) ! (length hs - j) = (t # hs) ! j" if "j \<le> length hs" for j
      using that by (cases j) (auto simp: nth_append rev_nth Suc_diff_Suc)
    have "(rev hs @ t # ts) ! Suc (length hs - Suc i) < (rev hs @ t # ts) ! (length hs - Suc i) + ?ttl"
      using Cons.prems(5) i by (simp del: nth_append)
    then show "(t # hs) ! i < (t # hs) ! Suc i + ?ttl" using at [of i] at [of "Suc i"] i by (simp add: Suc_diff_Suc)
  qed simp
  have cl: "count_list (map f (rev xs)) x = count_list (map f xs) x" for f :: "int \<Rightarrow> int" and xs x
    by (induction xs) (simp_all add: count_list_append)
  have slow: "3 * count_list (map (\<lambda>t. t div 1000) (t # hs)) x \<le> cap_floor" for x
    using Cons.prems(6) [of x] by (simp add: count_list_append cl split: if_splits)
  obtain s' where "per_tier_evaluate_at memory_counter cap_floor ctx cfg t s =
      (if cap_floor < Suc (length hs) then HardBurst ''tier_burst'' ''per_tier'' else DvAllow, s')"
    and "tier_state ctx cfg (t # hs) s'"
    using tier_step [OF Cons.prems(1) ok _ \<open>t \<le> i64_max\<close> _ steady slow Cons.prems(7)] Cons.prems(2,3,8)
    by (auto simp: sorted_append)
  moreover have "tier_run cap_floor ctx cfg ts s' =
      map (\<lambda>i. if cap_floor < Suc i then HardBurst ''tier_burst'' ''per_tier'' else DvAllow) [length (t # hs)..<length (t # hs) + length ts]"
    using Cons.prems by (intro Cons.IH \<open>tier_state ctx cfg (t # hs) s'\<close>) (simp_all add: hits_ok_def)
  ultimately show ?case by (simp add: upt_conv_Cons del: upt_Suc)
qed simp

text \<open>C36. A tier that serves steady traffic is declared under attack after a fixed number of
  requests, at whatever rate they come: when no two consecutive requests are a window apart and
  no second sees more than a third of the floor, the first \<^verbatim>\<open>absolute_cap_floor\<close> requests pass
  and every later one is a hard burst, because each hit renews the window of the counter.\<close>

theorem tier_steady_burst:
  assumes "sorted ts" and "\<forall>t\<in>set ts. 0 \<le> t" and "hits_ok (int (dt_per_tier_window_s cfg) * 1000) ts"
    and "\<forall>i. Suc i < length ts \<longrightarrow> ts ! Suc i < ts ! i + int (dt_per_tier_window_s cfg) * 1000"
    and "\<forall>x. 3 * count_list (map (\<lambda>t. t div 1000) ts) x \<le> cap_floor"
    and "cap_floor < 2 ^ 64" "length ts < 2 ^ 64"
  shows "tier_run cap_floor ctx cfg ts (per_tier_new []) =
    map (\<lambda>i. if cap_floor < Suc i then HardBurst ''tier_burst'' ''per_tier'' else DvAllow) [0..<length ts]"
proof -
  have "tier_state ctx cfg [] (per_tier_new [])"
    using mm_new_repr by (simp add: tier_state_def counts_def per_tier_new_def am_get_def) (simp add: mm_new_def)
  then show ?thesis using tier_run_steady [of ctx cfg "[]" "per_tier_new []" ts cap_floor] assms by simp
qed

theorem tier_steady_burst_witness:
  "tier_run 3 sample_ctx sample_tier_cfg [0, 30000, 60000, 90000] (per_tier_new []) =
     [DvAllow, DvAllow, DvAllow, HardBurst ''tier_burst'' ''per_tier'']"
  using tier_steady_burst [of "[0, 30000, 60000, 90000]" sample_tier_cfg 3 sample_ctx]
  by (simp add: hits_ok_def i64_min_def i64_max_def upt_rec nth_Cons less_Suc_eq_0_disj split: nat.splits)

end
