(* ===== verification/BlockPage.thy ===== *)
theory BlockPage
  imports Common "HOL-Library.Sublist"
begin

text \<open>
  The block page (\<^verbatim>\<open>block_page.rs\<close>): HTML escaping and the substitution of the request's
  values into the host's template or the built-in one.  The values a client chooses cannot add
  markup to the page.
\<close>

section \<open>Definitions\<close>

text \<open>\<^verbatim>\<open>str::replace\<close> for a pattern that is not empty: matches from the left, without overlap.\<close>

function str_replace :: "string \<Rightarrow> string \<Rightarrow> string \<Rightarrow> string" where
  "str_replace pat to [] = []"
| "str_replace pat to (c # s) =
     (if pat \<noteq> [] \<and> prefix pat (c # s) then to @ str_replace pat to (drop (length pat) (c # s))
      else c # str_replace pat to s)"
  by pat_completeness auto
termination
  by (relation "measure (\<lambda>(_, _, s). length s)") auto

definition DEFAULT_TEMPLATE :: string where
  \<open>DEFAULT_TEMPLATE = join_with (CHR 0x0A)
      [''<!DOCTYPE html>'',
       ''<html lang="en">'',
       ''<head>'',
       ''<meta charset="UTF-8">'',
       ''<meta name="viewport" content="width=device-width, initial-scale=1.0">'',
       ''<title>403 Forbidden '' @ [CHR 0xE2, CHR 0x80, CHR 0x94] @ '' Request Blocked</title>'',
       ''<style>'',
       ''  body { font-family: -apple-system, BlinkMacSystemFont, "Segoe UI", sans-serif;'',
       ''         background: #f4f4f5; display: flex; align-items: center;'',
       ''         justify-content: center; min-height: 100vh; margin: 0; }'',
       ''  .card { background: #fff; border-radius: 8px; padding: 40px 56px;'',
       ''          box-shadow: 0 4px 24px rgba(0,0,0,.10); max-width: 480px; text-align: center; }'',
       ''  h1 { font-size: 2rem; color: #dc2626; margin: 0 0 8px; }'',
       ''  p  { color: #6b7280; margin: 8px 0; }'',
       ''  .detail { background: #f9fafb; border-radius: 4px; padding: 12px;'',
       ''            font-size: .85rem; color: #374151; word-break: break-all; }'',
       ''  .ref { font-size: .8rem; color: #9ca3af; margin-top: 20px; }'',
       ''</style>'',
       ''</head>'',
       ''<body>'',
       ''<div class="card">'',
       ''  <h1>&#128683; 403 Forbidden</h1>'',
       ''  <p>Your request has been blocked by the security policy.</p>'',
       ''  <div class="detail">'',
       ''    <strong>Reason:</strong> {{rule_name}}<br>'',
       ''    <strong>Your IP:</strong> {{client_ip}}'',
       ''  </div>'',
       ''  <p class="ref">Request&nbsp;ID:&nbsp;<code>{{req_id}}</code></p>'',
       ''</div>'',
       ''</body>'',
       ''</html>'']\<close>

definition html_escape_char :: "char \<Rightarrow> string" where
  "html_escape_char ch =
     (if ch = CHR 0x26 then ''&amp;'' else if ch = CHR 0x3C then ''&lt;'' else if ch = CHR 0x3E then ''&gt;''
      else if ch = CHR 0x22 then ''&quot;'' else if ch = CHR 0x27 then ''&#x27;'' else [ch])"

definition html_escape :: "string \<Rightarrow> string" where
  "html_escape s = concat (map html_escape_char s)"

definition block_template :: "request_ctx \<Rightarrow> string" where
  "block_template ctx =
     (case hc_block_page_template (ctx_host_config ctx) of Some t \<Rightarrow> t | None \<Rightarrow> DEFAULT_TEMPLATE)"

definition render_block_page :: "request_ctx \<Rightarrow> string \<Rightarrow> string" where
  "render_block_page ctx rule_name =
     str_replace ''{{client_ip}}'' (html_escape (show_ip (ctx_client_ip ctx)))
       (str_replace ''{{rule_name}}'' (html_escape rule_name)
         (str_replace ''{{req_id}}'' (html_escape (ctx_req_id ctx)) (block_template ctx)))"

section \<open>Escaping\<close>

definition markup :: "char \<Rightarrow> bool" where
  "markup c \<longleftrightarrow> c = CHR 0x3C \<or> c = CHR 0x3E \<or> c = CHR 0x22 \<or> c = CHR 0x27"

lemma escape_no_markup: "filter markup (html_escape s) = []"
proof -
  have "filter markup (html_escape_char c) = []" for c
    by (simp add: html_escape_char_def markup_def)
  then show ?thesis by (induction s) (simp_all add: html_escape_def)
qed

lemma replace_markup:
  "filter markup pat = [] \<Longrightarrow> filter markup to = [] \<Longrightarrow> filter markup (str_replace pat to s) = filter markup s"
proof (induction pat to s rule: str_replace.induct)
  case (2 pat to c s)
  show ?case
  proof (cases "pat \<noteq> [] \<and> prefix pat (c # s)")
    case True
    then obtain r where r: "c # s = pat @ r" by (auto simp: prefix_def)
    have rest: "drop (length pat) (c # s) = r" unfolding r by simp
    have "filter markup (str_replace pat to r) = filter markup r" using "2.IH"(1) [OF True] "2.prems" rest by simp
    moreover have "str_replace pat to (c # s) = to @ str_replace pat to r"
      unfolding str_replace.simps(2) rest using True by (rule if_P)
    ultimately show ?thesis using "2.prems" r by (metis append_Nil filter_append)
  next
    case False
    then have "str_replace pat to (c # s) = c # str_replace pat to s" unfolding str_replace.simps(2) by (rule if_not_P)
    with "2.IH"(2) [OF False] "2.prems" show ?thesis by simp
  qed
qed simp

text \<open>Distinct texts have distinct escapes: what the page shows identifies the value.\<close>

lemma escape_head: "html_escape (a # s) = html_escape (b # t) \<Longrightarrow> a = b \<and> html_escape s = html_escape t"
  by (auto simp: html_escape_def html_escape_char_def split: if_splits)

lemma html_escape_inj: "html_escape s = html_escape t \<Longrightarrow> s = t"
proof (induction s arbitrary: t)
  case Nil
  then show ?case by (cases t) (simp_all add: html_escape_def html_escape_char_def split: if_splits)
next
  case (Cons a s)
  then show ?case
  proof (cases t)
    case Nil
    with Cons.prems show ?thesis by (simp add: html_escape_def html_escape_char_def split: if_splits)
  next
    case (Cons b u)
    with Cons.prems escape_head [of a s b u] Cons.IH show ?thesis by simp
  qed
qed

text \<open>C24. The block page reflects no markup: whatever the request identifier, the rule name and the
  client address are, the angle brackets and quotes of the page are those of the template, in the
  same order; and the escaped form of a value determines the value.\<close>

theorem block_page_markup:
  "filter markup (render_block_page ctx rule_name) = filter markup (block_template ctx)
   \<and> inj html_escape"
proof -
  have "filter markup ''{{client_ip}}'' = []" "filter markup ''{{rule_name}}'' = []" "filter markup ''{{req_id}}'' = []"
    by (simp_all add: markup_def)
  then show ?thesis using html_escape_inj
    by (simp only: render_block_page_def replace_markup escape_no_markup inj_def) blast
qed

end
