(* ===== verification/Targets.thy ===== *)
theory Targets
  imports Common
begin

text \<open>
  URL decoding and the strings of a request that the detectors inspect (\<^verbatim>\<open>checks/mod.rs\<close>).  Strings
  are their UTF-8 bytes; \<^verbatim>\<open>String::from_utf8_lossy\<close> of the standard library is written out.  A
  payload that is percent-encoded up to three times is among the inspected strings in plain form.
\<close>

section \<open>Lossy UTF-8\<close>

lemma orelse_None: "(case x of None \<Rightarrow> y | Some h \<Rightarrow> Some h) = None \<longleftrightarrow> x = None \<and> y = None"
  by (cases x) simp_all

definition between :: "nat \<Rightarrow> nat \<Rightarrow> char \<Rightarrow> bool" where
  "between lo hi c \<longleftrightarrow> lo \<le> byte c \<and> byte c \<le> hi"

abbreviation continuation :: "char \<Rightarrow> bool" where
  "continuation \<equiv> between 128 191"

text \<open>The second byte a three- or four-byte sequence may have after a first byte.\<close>

definition second_ok :: "char \<Rightarrow> char \<Rightarrow> bool" where
  "second_ok b c =
     (if byte b = 224 then between 160 191 c else if byte b = 237 then between 128 159 c
      else if byte b = 240 then between 144 191 c else if byte b = 244 then between 128 143 c
      else continuation c)"

text \<open>The number of bytes of the sequence at the head, and whether it is valid; an invalid
  sequence stands for one replacement character.\<close>

definition byte_at :: "string \<Rightarrow> nat \<Rightarrow> (char \<Rightarrow> bool) \<Rightarrow> bool" where
  "byte_at r i P \<longleftrightarrow> i < length r \<and> P (r ! i)"

definition utf8_head :: "string \<Rightarrow> nat \<times> bool" where
  "utf8_head s =
     (case s of
        [] \<Rightarrow> (0, True)
      | b # r \<Rightarrow>
          if byte b < 128 then (1, True)
             else if between 194 223 b then (if byte_at r 0 continuation then (2, True) else (1, False))
             else if between 224 239 b then
               (if byte_at r 0 (second_ok b) then if byte_at r 1 continuation then (3, True) else (2, False) else (1, False))
             else if between 240 244 b then
               (if byte_at r 0 (second_ok b) then
                  if byte_at r 1 continuation then if byte_at r 2 continuation then (4, True) else (3, False) else (2, False)
                else (1, False))
             else (1, False))"

lemma utf8_head_pos: "s \<noteq> [] \<Longrightarrow> 0 < fst (utf8_head s)"
  by (cases s) (simp_all add: utf8_head_def)

function from_utf8_lossy :: "string \<Rightarrow> string" where
  "from_utf8_lossy s =
     (if s = [] then []
      else let (n, ok) = utf8_head s
           in (if ok then take n s else [CHR 0xEF, CHR 0xBF, CHR 0xBD]) @ from_utf8_lossy (drop n s))"
  by pat_completeness auto
termination
proof (relation "measure length", goal_cases)
  case (2 s x n ok)
  then have "0 < n" using utf8_head_pos [of s] by (metis fst_conv)
  with 2 show ?case by simp
qed simp

declare from_utf8_lossy.simps [simp del]

section \<open>URL decoding\<close>

fun percent_decode :: "string \<Rightarrow> string" where
  "percent_decode [] = []"
| "percent_decode (c # s) =
     (if c = CHR ''%'' \<and> 2 \<le> length s then
        (case (to_digit 16 (s ! 0), to_digit 16 (s ! 1)) of
           (Some h, Some l) \<Rightarrow> char_of (h * 16 + l) # percent_decode (drop 2 s)
         | _ \<Rightarrow> c # percent_decode s)
      else if c = CHR ''+'' then CHR '' '' # percent_decode s
      else c # percent_decode s)"

definition url_decode :: "string \<Rightarrow> string" where
  "url_decode s = from_utf8_lossy (percent_decode s)"

fun decode_passes :: "nat \<Rightarrow> string \<Rightarrow> string" where
  "decode_passes 0 current = current"
| "decode_passes (Suc n) current =
     (let next = url_decode current in if next = current then current else decode_passes n next)"

definition url_decode_recursive :: "string \<Rightarrow> string" where
  "url_decode_recursive input = decode_passes 2 (url_decode input)"

definition field_targets :: "string \<Rightarrow> string \<Rightarrow> (string \<times> string) list" where
  "field_targets name v =
     (let decoded = url_decode v; recursive = url_decode_recursive v
      in [(name, v)]
         @ (if decoded \<noteq> v then [(name @ ''(decoded)'', decoded)] else [])
         @ (if recursive \<noteq> decoded then [(name @ ''(decoded-recursive)'', recursive)] else []))"

definition request_targets :: "request_ctx \<Rightarrow> (string \<times> string) list" where
  "request_targets ctx =
     field_targets ''path'' (ctx_path ctx)
     @ (if ctx_query ctx \<noteq> [] then field_targets ''query'' (ctx_query ctx) else [])
     @ (case ctx_headers ctx ''cookie'' of Some cookie \<Rightarrow> field_targets ''cookie'' cookie | None \<Rightarrow> [])
     @ (if ctx_body_preview ctx \<noteq> [] then field_targets ''body'' (from_utf8_lossy (ctx_body_preview ctx)) else [])"

section \<open>Decoding undoes encoding\<close>

definition ascii :: "string \<Rightarrow> bool" where
  "ascii s \<longleftrightarrow> (\<forall>c\<in>set s. byte c < 128)"

lemma lossy_ascii: "ascii s \<Longrightarrow> from_utf8_lossy s = s"
proof (induction s)
  case (Cons c s)
  have "utf8_head (c # s) = (1, True)" using Cons.prems by (simp add: utf8_head_def ascii_def)
  with Cons show ?case by (subst from_utf8_lossy.simps) (simp add: ascii_def)
qed (simp add: from_utf8_lossy.simps)

text \<open>Every way to write a text in URL-encoded form: a character stands for itself unless it is a
  percent or plus sign, a space may be a plus sign, and any byte may be two hexadecimal digits.\<close>

inductive url_encodes :: "string \<Rightarrow> string \<Rightarrow> bool" where
  enc_nil: "url_encodes [] []"
| enc_plain: "url_encodes s e \<Longrightarrow> c \<noteq> CHR ''%'' \<Longrightarrow> c \<noteq> CHR ''+'' \<Longrightarrow> url_encodes (c # s) (c # e)"
| enc_plus: "url_encodes s e \<Longrightarrow> url_encodes (CHR '' '' # s) (CHR ''+'' # e)"
| enc_hex: "url_encodes s e \<Longrightarrow> to_digit 16 a = Some h \<Longrightarrow> to_digit 16 b = Some l \<Longrightarrow>
    url_encodes (char_of (h * 16 + l) # s) (CHR ''%'' # a # b # e)"

inductive_cases url_encodes_ConsE: "url_encodes (c # s) e"

lemma percent_decode_encoded: "url_encodes s e \<Longrightarrow> percent_decode e = s"
  by (induction rule: url_encodes.induct) simp_all

lemma to_digit_ascii: "to_digit 16 a = Some h \<Longrightarrow> byte a < 128"
  by (auto simp: to_digit_def Let_def split: if_splits)

lemma encoded_ascii: "url_encodes s e \<Longrightarrow> ascii s \<Longrightarrow> ascii e"
  by (induction rule: url_encodes.induct) (auto simp: ascii_def byte_def dest: to_digit_ascii [unfolded byte_def])

lemma url_decode_encoded: "url_encodes s e \<Longrightarrow> ascii s \<Longrightarrow> url_decode e = s"
  by (simp add: url_decode_def percent_decode_encoded lossy_ascii)

text \<open>The loop that stops at a fixed point computes three passes.\<close>

lemma url_decode_recursive_three: "url_decode_recursive s = url_decode (url_decode (url_decode s))"
  by (simp add: url_decode_recursive_def numeral_2_eq_2 Let_def)

fun encoded :: "nat \<Rightarrow> string \<Rightarrow> string \<Rightarrow> bool" where
  "encoded 0 s e \<longleftrightarrow> e = s"
| "encoded (Suc n) s e \<longleftrightarrow> (\<exists>m. encoded n s m \<and> url_encodes m e)"

lemma encoded_layers:
  assumes "ascii s" and "encoded n s e"
  shows "(url_decode ^^ n) e = s \<and> ascii e"
  using assms(2)
proof (induction n arbitrary: e)
  case (Suc n)
  then obtain m where m: "encoded n s m" "url_encodes m e" by auto
  then have "(url_decode ^^ n) m = s" "ascii m" using Suc.IH by blast+
  with m(2) show ?case by (simp add: funpow_swap1 url_decode_encoded encoded_ascii)
qed (simp add: assms(1))

lemma three_passes:
  assumes "ascii s" and "encoded n s e" and "n \<le> 3" and "url_decode s = s"
  shows "url_decode_recursive e = s"
proof -
  have stable: "(url_decode ^^ k) s = s" for k by (induction k) (simp_all add: assms(4))
  have "(url_decode ^^ (3 - n + n)) e = (url_decode ^^ (3 - n)) ((url_decode ^^ n) e)" by (simp add: funpow_add)
  also have "\<dots> = s" using encoded_layers [OF assms(1,2)] stable by simp
  finally have "(url_decode ^^ 3) e = s" using assms(3) by simp
  then show ?thesis by (simp add: url_decode_recursive_three numeral_3_eq_3)
qed

lemma field_target_recursive: "url_decode_recursive v \<in> snd ` set (field_targets name v)"
  by (cases "url_decode v = v"; cases "url_decode_recursive v = url_decode v") (simp_all add: field_targets_def Let_def)

lemma field_target_plain: "v \<in> snd ` set (field_targets name v)"
  by (simp add: field_targets_def Let_def)

text \<open>The request carries the text in one of the inspected places.\<close>

definition carries :: "request_ctx \<Rightarrow> string \<Rightarrow> bool" where
  "carries ctx v \<longleftrightarrow> v = ctx_path ctx \<or> v \<noteq> [] \<and> v = ctx_query ctx \<or> ctx_headers ctx ''cookie'' = Some v
     \<or> v \<noteq> [] \<and> v = ctx_body_preview ctx"

lemma carried_target:
  assumes "carries ctx v" and "ascii v"
  shows "url_decode_recursive v \<in> snd ` set (request_targets ctx)"
  using assms field_target_recursive lossy_ascii
  unfolding carries_def request_targets_def by (auto simp: image_Un)

lemma inspected_when_encoded:
  assumes "carries ctx e" and "encoded n s e" and "n \<le> 3" and "ascii s" and "url_decode s = s"
  shows "s \<in> snd ` set (request_targets ctx)"
  using carried_target [OF assms(1)] encoded_layers [OF assms(4,2)] three_passes [OF assms(4,2,3,5)] by simp

end
