(* ===== verification/HostChecks.thy ===== *)
theory HostChecks
  imports Targets "HOL-Library.Sublist"
begin

text \<open>
  The location lookup (\<^verbatim>\<open>geoip.rs\<close>), the country rules (\<^verbatim>\<open>checks/geo.rs\<close>) and the referer check
  (\<^verbatim>\<open>checks/anti_hotlink.rs\<close>).  The \<^verbatim>\<open>ip2region\<close> searcher and its files are parameters, and so
  is the Unicode case mapping of the standard library, as \<open>uc\<close> (upper) and \<open>lc\<close> (lower).
\<close>

section \<open>Location lookup\<close>

definition geo_default :: geo_ip_info where
  "geo_default = \<lparr>geo_country = [], geo_province = [], geo_city = [], geo_isp = [], geo_iso_code = []\<rparr>"

fun splitn :: "nat \<Rightarrow> char \<Rightarrow> string \<Rightarrow> string list" where
  "splitn 0 c s = []"
| "splitn (Suc 0) c s = [s]"
| "splitn (Suc n) c s = (case split_once c s of Some (a, b) \<Rightarrow> a # splitn n c b | None \<Rightarrow> [s])"

definition normalize :: "string \<Rightarrow> string" where
  "normalize s = (if s = ''0'' then [] else s)"

definition part :: "string list \<Rightarrow> nat \<Rightarrow> string" where
  "part ps i = (if i < length ps then ps ! i else [])"

definition parse_region :: "string \<Rightarrow> geo_ip_info" where
  "parse_region raw =
     (if raw = [] then geo_default
      else let ps = splitn 5 (CHR ''|'') raw
           in \<lparr>geo_country = normalize (part ps 0), geo_province = normalize (part ps 1), geo_city = normalize (part ps 2),
               geo_isp = normalize (part ps 3), geo_iso_code = normalize (part ps 4)\<rparr>)"

text \<open>A searcher maps the text of an address to a region or an error; opening one may fail.\<close>

type_synonym searcher = "string \<Rightarrow> string option"

record geoip_service =
  gs_ipv4 :: "searcher option"
  gs_ipv6 :: "searcher option"
  gs_ipv4_path :: string
  gs_ipv6_path :: string

definition load_searcher :: "(string \<Rightarrow> bool) \<Rightarrow> (string \<Rightarrow> searcher option) \<Rightarrow> string \<Rightarrow> searcher option" where
  "load_searcher file_exists open_xdb path = (if \<not> file_exists path then None else open_xdb path)"

definition geoip_init ::
  "(string \<Rightarrow> bool) \<Rightarrow> (string \<Rightarrow> searcher option) \<Rightarrow> string \<Rightarrow> string \<Rightarrow> geoip_service" where
  "geoip_init file_exists open_xdb p4 p6 =
     \<lparr>gs_ipv4 = load_searcher file_exists open_xdb p4, gs_ipv6 = load_searcher file_exists open_xdb p6,
      gs_ipv4_path = p4, gs_ipv6_path = p6\<rparr>"

definition geoip_is_available :: "geoip_service \<Rightarrow> bool" where
  "geoip_is_available s \<longleftrightarrow> gs_ipv4 s \<noteq> None \<or> gs_ipv6 s \<noteq> None"

definition geoip_reload ::
  "(string \<Rightarrow> bool) \<Rightarrow> (string \<Rightarrow> searcher option) \<Rightarrow> geoip_service \<Rightarrow> bool \<times> geoip_service" where
  "geoip_reload file_exists open_xdb s =
     (let new_ipv4 = load_searcher file_exists open_xdb (gs_ipv4_path s);
          new_ipv6 = load_searcher file_exists open_xdb (gs_ipv6_path s)
      in (new_ipv4 \<noteq> None \<or> new_ipv6 \<noteq> None, s\<lparr>gs_ipv4 := new_ipv4, gs_ipv6 := new_ipv6\<rparr>))"

definition geoip_lookup :: "geoip_service \<Rightarrow> ip_addr \<Rightarrow> geo_ip_info" where
  "geoip_lookup s ip =
     (case (case ip of V4 _ _ _ _ \<Rightarrow> gs_ipv4 s | V6 _ _ _ _ _ _ _ _ \<Rightarrow> gs_ipv6 s) of
        None \<Rightarrow> geo_default
      | Some search \<Rightarrow> (case search (show_ip ip) of Some r \<Rightarrow> parse_region r | None \<Rightarrow> geo_default))"

section \<open>Country rules\<close>

datatype geo_rule_mode = GeoBlock | GeoAllowOnly

record geo_rule =
  gr_id :: string
  gr_name :: string
  gr_mode :: geo_rule_mode
  gr_iso_codes :: "string list"
  gr_countries :: "string list"

type_synonym geo_check_state = "(string, geo_rule list) amap"

definition geo_load_rules :: "string \<Rightarrow> geo_rule list \<Rightarrow> geo_check_state \<Rightarrow> geo_check_state" where
  "geo_load_rules h rules s = am_put h rules s"

definition geo_clear_rules :: "string \<Rightarrow> geo_check_state \<Rightarrow> geo_check_state" where
  "geo_clear_rules h s = am_del h s"

definition geo_matches :: "(string \<Rightarrow> string) \<Rightarrow> geo_ip_info \<Rightarrow> geo_rule \<Rightarrow> bool" where
  "geo_matches uc geo rule =
     (if geo_iso_code geo \<noteq> [] \<and> uc (geo_iso_code geo) \<in> set (gr_iso_codes rule) then True
      else geo_country geo \<noteq> [] \<and>
        list_ex (\<lambda>c. to_ascii_lowercase c = to_ascii_lowercase (geo_country geo)) (gr_countries rule))"

definition geo_result :: "string \<Rightarrow> string \<Rightarrow> geo_ip_info \<Rightarrow> geo_rule \<Rightarrow> detection_result" where
  "geo_result intro outro geo rule =
     \<lparr>dr_rule_id = Some (gr_id rule), dr_rule_name = gr_name rule, dr_phase = GeoIp,
      dr_detail = intro @ [CHR 0x27] @ gr_name rule @ [CHR 0x27] @ '': country='' @ [CHR 0x27] @ geo_country geo
        @ [CHR 0x27] @ '' iso='' @ [CHR 0x27] @ geo_iso_code geo @ [CHR 0x27] @ outro\<rparr>"

fun match_rules :: "(string \<Rightarrow> string) \<Rightarrow> geo_ip_info \<Rightarrow> geo_rule list \<Rightarrow> detection_result option" where
  "match_rules uc geo [] = None"
| "match_rules uc geo (rule # rules) =
     (case gr_mode rule of
        GeoBlock \<Rightarrow>
          if geo_matches uc geo rule then Some (geo_result ''Blocked by geo rule '' [] geo rule)
          else match_rules uc geo rules
      | GeoAllowOnly \<Rightarrow>
          if \<not> geo_matches uc geo rule \<and> (geo_country geo \<noteq> [] \<or> geo_iso_code geo \<noteq> [])
          then Some (geo_result ''Blocked by geo allowlist '' '' not in allowed list'' geo rule)
          else match_rules uc geo rules)"

definition eval_rules :: "(string \<Rightarrow> string) \<Rightarrow> geo_check_state \<Rightarrow> string \<Rightarrow> geo_ip_info \<Rightarrow> detection_result option" where
  "eval_rules uc s h geo =
     (case (case am_get s h of None \<Rightarrow> None | Some rules \<Rightarrow> match_rules uc geo rules) of
        Some r \<Rightarrow> Some r
      | None \<Rightarrow> (case am_get s ''*'' of None \<Rightarrow> None | Some rules \<Rightarrow> match_rules uc geo rules))"

definition geo_check :: "(string \<Rightarrow> string) \<Rightarrow> geo_check_state \<Rightarrow> request_ctx \<Rightarrow> detection_result option" where
  "geo_check uc s ctx =
     (case ctx_geo ctx of
        None \<Rightarrow> None
      | Some geo \<Rightarrow>
          if geo_country geo = [] \<and> geo_iso_code geo = [] then None
          else eval_rules uc s (hc_code (ctx_host_config ctx)) geo)"

section \<open>Anti-hotlinking\<close>

record hotlink_config =
  hl_enabled :: bool
  hl_allow_empty_referer :: bool
  hl_allowed_domains :: "string list"
  hl_redirect_url :: "string option"

definition hotlink_config_default :: hotlink_config where
  "hotlink_config_default =
     \<lparr>hl_enabled = False, hl_allow_empty_referer = True, hl_allowed_domains = [], hl_redirect_url = None\<rparr>"

definition strip_prefix :: "string \<Rightarrow> string \<Rightarrow> string option" where
  "strip_prefix p s = (if prefix p s then Some (drop (length p) s) else None)"

definition extract_domain :: "(string \<Rightarrow> string) \<Rightarrow> string \<Rightarrow> string" where
  "extract_domain lc url =
     (let s = trim_str url;
          s = (case strip_prefix ''https://'' s of
                 Some r \<Rightarrow> r
               | None \<Rightarrow> (case strip_prefix ''http://'' s of Some r \<Rightarrow> r | None \<Rightarrow> s));
          s = hd (split_on (CHR ''/'') s);
          s = hd (split_on (CHR '':'') s)
      in lc s)"

definition domain_matches :: "(string \<Rightarrow> string) \<Rightarrow> string \<Rightarrow> string \<Rightarrow> bool" where
  "domain_matches lc pattern domain =
     (let pat = lc (trim_str pattern)
      in if prefix ''*.'' pat then domain = drop 2 pat \<or> suffix (drop 1 pat) domain
         else domain = pat)"

definition hl_is_allowed :: "(string \<Rightarrow> string) \<Rightarrow> hotlink_config \<Rightarrow> string \<Rightarrow> bool" where
  "hl_is_allowed lc cfg referer =
     (let domain = extract_domain lc referer in list_ex (\<lambda>pat. domain_matches lc pat domain) (hl_allowed_domains cfg))"

type_synonym hotlink_state = "(string, hotlink_config) amap"

definition hotlink_set_config :: "string \<Rightarrow> hotlink_config \<Rightarrow> hotlink_state \<Rightarrow> hotlink_state" where
  "hotlink_set_config h cfg s = am_put h cfg s"

definition hotlink_clear_host :: "string \<Rightarrow> hotlink_state \<Rightarrow> hotlink_state" where
  "hotlink_clear_host h s = am_del h s"

definition hotlink_result :: "string \<Rightarrow> detection_result" where
  "hotlink_result detail =
     \<lparr>dr_rule_id = None, dr_rule_name = ''Anti-Hotlink'', dr_phase = AntiHotlink, dr_detail = detail\<rparr>"

definition hotlink_check :: "(string \<Rightarrow> string) \<Rightarrow> hotlink_state \<Rightarrow> request_ctx \<Rightarrow> detection_result option" where
  "hotlink_check lc s ctx =
     (case am_get s (hc_code (ctx_host_config ctx)) of
        None \<Rightarrow> None
      | Some config \<Rightarrow>
          if \<not> hl_enabled config then None
          else let referer = (case ctx_headers ctx ''referer'' of Some r \<Rightarrow> r | None \<Rightarrow> [])
               in if referer = []
                  then if hl_allow_empty_referer config then None
                       else Some (hotlink_result ''Request blocked: missing Referer header'')
                  else if hl_is_allowed lc config referer then None
                  else Some (hotlink_result (''Referer '' @ [CHR 0x27] @ referer @ [CHR 0x27] @ '' not in allow-list'')))"

section \<open>What the country rules admit\<close>

lemma match_rules_None:
  "geo_country geo \<noteq> [] \<or> geo_iso_code geo \<noteq> [] \<Longrightarrow>
   match_rules uc geo rules = None \<longleftrightarrow>
     list_all (\<lambda>r. geo_matches uc geo r = (gr_mode r = GeoAllowOnly)) rules"
  by (induction rules) (auto split: geo_rule_mode.splits)

definition rules_of :: "geo_check_state \<Rightarrow> string \<Rightarrow> geo_rule list" where
  "rules_of s h = (case am_get s h of None \<Rightarrow> [] | Some rules \<Rightarrow> rules)"

text \<open>C39. A request from a known location passes the country rules exactly when its location is on
  every allow-only list and on no block list, of the rules of its host and of the global ones
  together; a request whose location is unknown always passes.\<close>

theorem geo_policy:
  "geo_check uc s ctx = None \<longleftrightarrow>
     (case ctx_geo ctx of
        None \<Rightarrow> True
      | Some geo \<Rightarrow> geo_country geo = [] \<and> geo_iso_code geo = [] \<or>
          list_all (\<lambda>r. geo_matches uc geo r = (gr_mode r = GeoAllowOnly))
            (rules_of s (hc_code (ctx_host_config ctx)) @ rules_of s ''*''))"
proof (cases "ctx_geo ctx")
  case (Some geo)
  show ?thesis
  proof (cases "geo_country geo = [] \<and> geo_iso_code geo = []")
    case False
    then have known: "geo_country geo \<noteq> [] \<or> geo_iso_code geo \<noteq> []" by blast
    have "(case am_get s h of None \<Rightarrow> None | Some rules \<Rightarrow> match_rules uc geo rules) = match_rules uc geo (rules_of s h)" for h
      by (simp add: rules_of_def split: option.splits)
    then show ?thesis using False
      by (auto simp: geo_check_def Some eval_rules_def orelse_None match_rules_None [OF known])
  qed (simp add: geo_check_def Some)
qed (simp add: geo_check_def)

section \<open>What the referer check admits\<close>

lemma hd_split_on: "c \<notin> set h \<Longrightarrow> r = [] \<or> hd r = c \<Longrightarrow> hd (split_on c (h @ r)) = h"
  by (cases r) (auto simp: split_on_append split_on_none)

lemma extract_domain_url:
  assumes "scheme = ''http://'' \<or> scheme = ''https://''" and "\<not> has_ws (scheme @ host @ port @ path)"
    and "set host \<inter> {CHR ''/'', CHR '':''} = {}" and "CHR ''/'' \<notin> set port"
    and "port = [] \<or> hd port = CHR '':''" and "path = [] \<or> hd path = CHR ''/''"
  shows "extract_domain lc (scheme @ host @ port @ path) = lc host"
proof -
  have "hd (split_on (CHR ''/'') (host @ port @ path)) = host @ port"
    using hd_split_on [of "CHR ''/''" "host @ port" path] assms(3,4,6) by auto
  moreover have "hd (split_on (CHR '':'') (host @ port)) = host" using assms(3,5) by (intro hd_split_on) auto
  moreover have "(case strip_prefix ''https://'' (scheme @ t) of Some r \<Rightarrow> r
      | None \<Rightarrow> (case strip_prefix ''http://'' (scheme @ t) of Some r \<Rightarrow> r | None \<Rightarrow> scheme @ t)) = t" for t
    using assms(1) by (auto simp: strip_prefix_def)
  ultimately show ?thesis using assms(2) by (simp add: extract_domain_def trim_str_id)
qed

text \<open>On a host with the referer check enabled, a request whose referer is an HTTP URL passes
  exactly when the host part of the URL, in lower case, matches an entry of the allow-list; the
  port and the path do not matter.\<close>

theorem hotlink_by_domain:
  assumes "am_get s (hc_code (ctx_host_config ctx)) = Some cfg" and "hl_enabled cfg"
    and "ctx_headers ctx ''referer'' = Some (scheme @ host @ port @ path)"
    and "scheme = ''http://'' \<or> scheme = ''https://''" and "\<not> has_ws (scheme @ host @ port @ path)"
    and "set host \<inter> {CHR ''/'', CHR '':''} = {}" and "CHR ''/'' \<notin> set port"
    and "port = [] \<or> hd port = CHR '':''" and "path = [] \<or> hd path = CHR ''/''"
  shows "hotlink_check lc s ctx = None \<longleftrightarrow> (\<exists>pat\<in>set (hl_allowed_domains cfg). domain_matches lc pat (lc host))"
proof -
  have "scheme \<noteq> []" using assms(4) by auto
  then show ?thesis using assms(1-3) extract_domain_url [OF assms(4-9), of lc]
    by (simp add: hotlink_check_def Let_def hl_is_allowed_def list_ex_iff)
qed

definition sample_hotlink :: hotlink_config where
  "sample_hotlink = hotlink_config_default\<lparr>hl_enabled := True, hl_allowed_domains := [''*.shop.example'']\<rparr>"

definition referer_ctx :: "string \<Rightarrow> request_ctx" where
  "referer_ctx r = \<lparr>ctx_req_id = ''r1'', ctx_client_ip = V4 192 0 2 1, ctx_client_port = 40000, ctx_method = ''GET'',
     ctx_host = ''shop'', ctx_port = 80, ctx_path = ''/'', ctx_query = [], ctx_headers = [''referer'' \<mapsto> r],
     ctx_body_preview = [], ctx_content_length = 0, ctx_is_tls = False, ctx_host_config = host_config_default,
     ctx_geo = None, ctx_tier = CatchAll, ctx_tier_policy = tier_policy_default, ctx_cookies = Map.empty\<rparr>"

theorem hotlink_by_domain_witness:
  "hotlink_check to_ascii_lowercase [([], sample_hotlink)] (referer_ctx ''http://Www.shop.example:8080/a'') = None"
proof -
  let ?u = "''http://'' @ ''Www.shop.example'' @ '':8080'' @ ''/a''"
  have ws: "\<not> has_ws ?u" by (simp add: ws1_def ws2_def ws3_def byte_def)
  have m: "domain_matches to_ascii_lowercase ''*.shop.example'' (to_ascii_lowercase ''Www.shop.example'')" by code_simp
  have "hotlink_check to_ascii_lowercase [([], sample_hotlink)] (referer_ctx ?u) = None"
    using hotlink_by_domain [of "[([], sample_hotlink)]" "referer_ctx ?u" sample_hotlink "''http://''" "''Www.shop.example''"
        "'':8080''" "''/a''" to_ascii_lowercase] ws m
    by (simp add: referer_ctx_def sample_hotlink_def hotlink_config_default_def am_get_def host_config_default_def)
  then show ?thesis by simp
qed

text \<open>The query of a URL without a path is not stripped: such a referer passes a wildcard entry
  although its host is another one.\<close>

lemma hotlink_query_not_stripped:
  "hotlink_check to_ascii_lowercase [([], sample_hotlink)] (referer_ctx ''http://evil.example?.shop.example'') = None
   \<and> hotlink_check to_ascii_lowercase [([], sample_hotlink)] (referer_ctx ''http://evil.example'') \<noteq> None"
proof -
  have "hl_is_allowed to_ascii_lowercase sample_hotlink ''http://evil.example?.shop.example''" by code_simp
  moreover have "\<not> hl_is_allowed to_ascii_lowercase sample_hotlink ''http://evil.example''" by code_simp
  moreover have "hl_enabled sample_hotlink" by (simp add: sample_hotlink_def)
  ultimately show ?thesis by (simp add: hotlink_check_def referer_ctx_def am_get_def host_config_default_def)
qed

end
