(* ===== verification/RuleSets.thy ===== *)
theory RuleSets
  imports Common "HOL-Library.Sublist"
begin

text \<open>
  The address and URL rule sets (\<^verbatim>\<open>rules.rs\<close>), the rule store that loads them from the database
  and the first four phases of the pipeline (\<^verbatim>\<open>checker.rs\<close>).  The network type of the
  \<^verbatim>\<open>ipnet\<close> crate and the database are parameters.  A reload installs exactly the rows of the
  database, and a reader that runs between two steps of the swap sees for each host either the
  rules before or the rules after.
\<close>

section \<open>Address rules\<close>

record 'n ipnet_lib =
  in_from_str :: "string \<Rightarrow> 'n option"
  in_from_ip :: "ip_addr \<Rightarrow> 'n"
  in_contains :: "'n \<Rightarrow> ip_addr \<Rightarrow> bool"

type_synonym 'n ip_rule_set = "(string, 'n list) amap"

definition parse_ip_rule :: "'n ipnet_lib \<Rightarrow> string \<Rightarrow> 'n option" where
  "parse_ip_rule lib s =
     (case in_from_str lib s of Some net \<Rightarrow> Some net | None \<Rightarrow> map_option (in_from_ip lib) (ip_from_str s))"

definition ipr_load :: "'n ipnet_lib \<Rightarrow> string \<Rightarrow> string list \<Rightarrow> 'n ip_rule_set \<Rightarrow> 'n ip_rule_set" where
  "ipr_load lib host_code cidrs m = am_put host_code (List.map_filter (parse_ip_rule lib) cidrs) m"

definition any_net :: "'n ipnet_lib \<Rightarrow> ip_addr \<Rightarrow> 'n list option \<Rightarrow> bool" where
  "any_net lib ip nets = (case nets of None \<Rightarrow> False | Some ns \<Rightarrow> list_ex (\<lambda>net. in_contains lib net ip) ns)"

definition ipr_matches :: "'n ipnet_lib \<Rightarrow> 'n ip_rule_set \<Rightarrow> string \<Rightarrow> ip_addr \<Rightarrow> bool" where
  "ipr_matches lib m host_code ip =
     (if any_net lib ip (am_get m host_code) then True
      else if any_net lib ip (am_get m ''*'') then True
      else False)"

definition push_entry :: "string \<Rightarrow> 'v \<Rightarrow> (string, 'v list) amap \<Rightarrow> (string, 'v list) amap" where
  "push_entry k v m = am_put k ((case am_get m k of None \<Rightarrow> [] | Some vs \<Rightarrow> vs) @ [v]) m"

definition ipr_insert :: "'n ipnet_lib \<Rightarrow> string \<Rightarrow> string \<Rightarrow> 'n ip_rule_set \<Rightarrow> 'n ip_rule_set" where
  "ipr_insert lib host_code cidr m =
     (case parse_ip_rule lib cidr of Some net \<Rightarrow> push_entry host_code net m | None \<Rightarrow> m)"

definition ipr_clear_host :: "string \<Rightarrow> 'n ip_rule_set \<Rightarrow> 'n ip_rule_set" where
  "ipr_clear_host host_code m = am_del host_code m"

definition ipr_clear_all :: "'n ip_rule_set \<Rightarrow> 'n ip_rule_set" where
  "ipr_clear_all m = []"

definition ipr_len :: "'n ip_rule_set \<Rightarrow> nat" where
  "ipr_len m = sum_list (map (length \<circ> snd) m)"

definition ipr_is_empty :: "'n ip_rule_set \<Rightarrow> bool" where
  "ipr_is_empty m \<longleftrightarrow> ipr_len m = 0"

section \<open>Swapping rule sets\<close>

text \<open>Both kinds of set are swapped by the same sequence of map operations: every entry of the
  new set is inserted, then the keys the new set does not have are removed.  Each operation is
  atomic, the sequence is not.\<close>

datatype 'v swap_op = SwapInsert string 'v | SwapRemove string

fun swap_step :: "'v swap_op \<Rightarrow> (string, 'v) amap \<Rightarrow> (string, 'v) amap" where
  "swap_step (SwapInsert k v) m = am_put k v m"
| "swap_step (SwapRemove k) m = am_del k m"

definition swap_ops :: "(string, 'v) amap \<Rightarrow> (string, 'v) amap \<Rightarrow> 'v swap_op list" where
  "swap_ops other m =
     (let inserts = map (\<lambda>e. SwapInsert (fst e) (snd e)) other;
          m1 = fold swap_step inserts m;
          stale_keys = filter (\<lambda>k. k \<notin> set (map fst other)) (map fst m1)
      in inserts @ map SwapRemove stale_keys)"

definition ipr_swap_from :: "'n ip_rule_set \<Rightarrow> 'n ip_rule_set \<Rightarrow> 'n ip_rule_set" where
  "ipr_swap_from other m = fold swap_step (swap_ops other m) m"

section \<open>URL rules\<close>

datatype url_match_type = UrlExact | UrlPrefix | UrlContains | UrlSuffix

text \<open>Lower-casing matters only for the ASCII letters of the three keywords.\<close>

definition url_match_type_parse_str :: "string \<Rightarrow> url_match_type" where
  "url_match_type_parse_str s =
     (let l = to_ascii_lowercase s
      in if l = ''prefix'' then UrlPrefix else if l = ''contains'' then UrlContains
         else if l = ''suffix'' then UrlSuffix else UrlExact)"

record url_rule =
  ur_id :: string
  ur_pattern :: string
  ur_match_type :: url_match_type

definition url_rule_matches :: "url_rule \<Rightarrow> string \<Rightarrow> bool" where
  "url_rule_matches r path =
     (case ur_match_type r of
        UrlExact \<Rightarrow> ur_pattern r = path
      | UrlPrefix \<Rightarrow> prefix (ur_pattern r) path
      | UrlContains \<Rightarrow> sublist (ur_pattern r) path
      | UrlSuffix \<Rightarrow> suffix (ur_pattern r) path)"

type_synonym url_rule_set = "(string, url_rule list) amap"

definition urs_load :: "string \<Rightarrow> url_rule list \<Rightarrow> url_rule_set \<Rightarrow> url_rule_set" where
  "urs_load host_code rules m = am_put host_code rules m"

definition first_rule :: "string \<Rightarrow> url_rule list option \<Rightarrow> url_rule option" where
  "first_rule path rules = (case rules of None \<Rightarrow> None | Some rs \<Rightarrow> List.find (\<lambda>r. url_rule_matches r path) rs)"

definition urs_matches :: "url_rule_set \<Rightarrow> string \<Rightarrow> string \<Rightarrow> string option" where
  "urs_matches m host_code path =
     (case first_rule path (am_get m host_code) of
        Some rule \<Rightarrow> Some (ur_id rule)
      | None \<Rightarrow>
          (case first_rule path (am_get m ''*'') of
             Some rule \<Rightarrow> Some (ur_id rule)
           | None \<Rightarrow> None))"

definition urs_insert :: "string \<Rightarrow> url_rule \<Rightarrow> url_rule_set \<Rightarrow> url_rule_set" where
  "urs_insert host_code rule m = push_entry host_code rule m"

definition urs_clear_host :: "string \<Rightarrow> url_rule_set \<Rightarrow> url_rule_set" where
  "urs_clear_host host_code m = am_del host_code m"

definition urs_clear_all :: "url_rule_set \<Rightarrow> url_rule_set" where
  "urs_clear_all m = []"

definition urs_len :: "url_rule_set \<Rightarrow> nat" where
  "urs_len m = sum_list (map (length \<circ> snd) m)"

definition urs_is_empty :: "url_rule_set \<Rightarrow> bool" where
  "urs_is_empty m \<longleftrightarrow> urs_len m = 0"

definition urs_swap_from :: "url_rule_set \<Rightarrow> url_rule_set \<Rightarrow> url_rule_set" where
  "urs_swap_from other m = fold swap_step (swap_ops other m) m"

section \<open>The rule store\<close>

record 'n rule_store =
  rs_allow_ips :: "'n ip_rule_set"
  rs_block_ips :: "'n ip_rule_set"
  rs_allow_urls :: url_rule_set
  rs_block_urls :: url_rule_set

definition rule_store_new :: "'n rule_store" where
  "rule_store_new = \<lparr>rs_allow_ips = [], rs_block_ips = [], rs_allow_urls = [], rs_block_urls = []\<rparr>"

record ip_row =
  ir_host_code :: string
  ir_ip_cidr :: string

record url_row =
  ur_row_id :: string
  ur_row_host_code :: string
  ur_row_url_pattern :: string
  ur_row_match_type :: string

record 'e rule_db =
  list_allow_ips :: "string option \<Rightarrow> 'e + ip_row list"
  list_block_ips :: "string option \<Rightarrow> 'e + ip_row list"
  list_allow_urls :: "string option \<Rightarrow> 'e + url_row list"
  list_block_urls :: "string option \<Rightarrow> 'e + url_row list"

definition url_rule_of_row :: "url_row \<Rightarrow> url_rule" where
  "url_rule_of_row row = \<lparr>ur_id = ur_row_id row, ur_pattern = ur_row_url_pattern row,
     ur_match_type = url_match_type_parse_str (ur_row_match_type row)\<rparr>"

definition group_rows :: "(string \<times> 'v) list \<Rightarrow> (string, 'v list) amap" where
  "group_rows rows = fold (\<lambda>(k, v). push_entry k v) rows []"

definition populate_ip_rules :: "'n ipnet_lib \<Rightarrow> ip_row list \<Rightarrow> 'n ip_rule_set \<Rightarrow> 'n ip_rule_set" where
  "populate_ip_rules lib rows target =
     fold (\<lambda>(code, cidrs). ipr_load lib code cidrs) (group_rows (map (\<lambda>r. (ir_host_code r, ir_ip_cidr r)) rows)) target"

definition populate_url_rules :: "url_row list \<Rightarrow> url_rule_set \<Rightarrow> url_rule_set" where
  "populate_url_rules rows target =
     fold (\<lambda>(code, rules). urs_load code rules)
       (group_rows (map (\<lambda>r. (ur_row_host_code r, url_rule_of_row r)) rows)) target"

definition list_rows :: "'e rule_db \<Rightarrow> string option \<Rightarrow> 'e + (ip_row list \<times> ip_row list \<times> url_row list \<times> url_row list)" where
  "list_rows db h =
     (case list_allow_ips db h of Inl e \<Rightarrow> Inl e | Inr ai \<Rightarrow>
      case list_block_ips db h of Inl e \<Rightarrow> Inl e | Inr bi \<Rightarrow>
      case list_allow_urls db h of Inl e \<Rightarrow> Inl e | Inr au \<Rightarrow>
      case list_block_urls db h of Inl e \<Rightarrow> Inl e | Inr bu \<Rightarrow> Inr (ai, bi, au, bu))"

definition reload_all :: "'n ipnet_lib \<Rightarrow> 'e rule_db \<Rightarrow> 'n rule_store \<Rightarrow> ('e + unit) \<times> 'n rule_store" where
  "reload_all lib db s =
     (case list_rows db None of
        Inl e \<Rightarrow> (Inl e, s)
      | Inr (allow_ip_rows, block_ip_rows, allow_url_rows, block_url_rows) \<Rightarrow>
          let new_allow_ips = populate_ip_rules lib allow_ip_rows [];
              new_block_ips = populate_ip_rules lib block_ip_rows [];
              new_allow_urls = populate_url_rules allow_url_rows [];
              new_block_urls = populate_url_rules block_url_rows []
          in (Inr (), \<lparr>rs_allow_ips = ipr_swap_from new_allow_ips (rs_allow_ips s),
                rs_block_ips = ipr_swap_from new_block_ips (rs_block_ips s),
                rs_allow_urls = urs_swap_from new_allow_urls (rs_allow_urls s),
                rs_block_urls = urs_swap_from new_block_urls (rs_block_urls s)\<rparr>))"

definition reload_host_ips :: "'n ipnet_lib \<Rightarrow> string \<Rightarrow> string list \<Rightarrow> 'n ip_rule_set \<Rightarrow> 'n ip_rule_set" where
  "reload_host_ips lib h cidrs m = (if cidrs = [] then ipr_clear_host h m else ipr_load lib h cidrs m)"

definition reload_host_urls :: "string \<Rightarrow> url_rule list \<Rightarrow> url_rule_set \<Rightarrow> url_rule_set" where
  "reload_host_urls h rules m = (if rules = [] then urs_clear_host h m else urs_load h rules m)"

definition reload_host :: "'n ipnet_lib \<Rightarrow> 'e rule_db \<Rightarrow> string \<Rightarrow> 'n rule_store \<Rightarrow> ('e + unit) \<times> 'n rule_store" where
  "reload_host lib db h s =
     (case list_rows db (Some h) of
        Inl e \<Rightarrow> (Inl e, s)
      | Inr (allow_ip_rows, block_ip_rows, allow_url_rows, block_url_rows) \<Rightarrow>
          (Inr (), \<lparr>rs_allow_ips = reload_host_ips lib h (map ir_ip_cidr allow_ip_rows) (rs_allow_ips s),
             rs_block_ips = reload_host_ips lib h (map ir_ip_cidr block_ip_rows) (rs_block_ips s),
             rs_allow_urls = reload_host_urls h (map url_rule_of_row allow_url_rows) (rs_allow_urls s),
             rs_block_urls = reload_host_urls h (map url_rule_of_row block_url_rows) (rs_block_urls s)\<rparr>))"

section \<open>Phases one to four\<close>

abbreviation host_code :: "request_ctx \<Rightarrow> string" where
  "host_code ctx \<equiv> hc_code (ctx_host_config ctx)"

definition check_ip_whitelist :: "'n ipnet_lib \<Rightarrow> request_ctx \<Rightarrow> 'n rule_store \<Rightarrow> waf_decision" where
  "check_ip_whitelist lib ctx store =
     (if ipr_matches lib (rs_allow_ips store) (host_code ctx) (ctx_client_ip ctx)
      then \<lparr>wd_action = Allow, wd_result = Some \<lparr>dr_rule_id = None, dr_rule_name = ''IP Whitelist'',
              dr_phase = IpWhitelist, dr_detail = ''IP '' @ show_ip (ctx_client_ip ctx) @ '' matched whitelist''\<rparr>\<rparr>
      else waf_allow)"

definition check_ip_blacklist :: "'n ipnet_lib \<Rightarrow> request_ctx \<Rightarrow> 'n rule_store \<Rightarrow> waf_decision" where
  "check_ip_blacklist lib ctx store =
     (if ipr_matches lib (rs_block_ips store) (host_code ctx) (ctx_client_ip ctx)
      then waf_block 403 (Some ''Access denied.'') \<lparr>dr_rule_id = None, dr_rule_name = ''IP Blacklist'',
              dr_phase = IpBlacklist, dr_detail = ''IP '' @ show_ip (ctx_client_ip ctx) @ '' matched blacklist''\<rparr>
      else waf_allow)"

definition check_url_whitelist :: "request_ctx \<Rightarrow> 'n rule_store \<Rightarrow> waf_decision option" where
  "check_url_whitelist ctx store =
     (case urs_matches (rs_allow_urls store) (host_code ctx) (ctx_path ctx) of
        Some rule_id \<Rightarrow> Some \<lparr>wd_action = Allow, wd_result = Some \<lparr>dr_rule_id = Some rule_id,
              dr_rule_name = ''URL Whitelist'', dr_phase = UrlWhitelist,
              dr_detail = ''Path '' @ ctx_path ctx @ '' matched URL whitelist''\<rparr>\<rparr>
      | None \<Rightarrow> None)"

definition check_url_blacklist :: "request_ctx \<Rightarrow> 'n rule_store \<Rightarrow> waf_decision" where
  "check_url_blacklist ctx store =
     (case urs_matches (rs_block_urls store) (host_code ctx) (ctx_path ctx) of
        Some rule_id \<Rightarrow> waf_block 403 (Some ''Access denied.'') \<lparr>dr_rule_id = Some rule_id,
              dr_rule_name = ''URL Blacklist'', dr_phase = UrlBlacklist,
              dr_detail = ''Path '' @ ctx_path ctx @ '' matched URL blacklist''\<rparr>
      | None \<Rightarrow> waf_allow)"

section \<open>A swap, step by step\<close>

fun swap_toward :: "(string, 'v) amap \<Rightarrow> 'v swap_op \<Rightarrow> bool" where
  "swap_toward other (SwapInsert k v) \<longleftrightarrow> am_get other k = Some v"
| "swap_toward other (SwapRemove k) \<longleftrightarrow> am_get other k = None"

fun swap_key :: "'v swap_op \<Rightarrow> string" where
  "swap_key (SwapInsert k v) = k"
| "swap_key (SwapRemove k) = k"

lemma swap_steps_get:
  "list_all (swap_toward other) ops \<Longrightarrow>
   am_get (fold swap_step ops m) k = (if k \<in> set (map swap_key ops) then am_get other k else am_get m k)"
proof (induction ops arbitrary: m)
  case (Cons op ops)
  then show ?case by (cases op) (auto simp: map_simps)
qed simp

lemma am_keys: "am_get m k = None \<longleftrightarrow> k \<notin> set (map fst m)"
  by (simp add: am_get_def map_of_eq_None_iff)

lemma swap_ops_toward: "am_wf other \<Longrightarrow> list_all (swap_toward other) (swap_ops other m)"
  by (auto simp: swap_ops_def Let_def list_all_iff am_get_in_set am_keys)

lemma swap_ops_keys: "am_wf other \<Longrightarrow> k \<notin> set (map swap_key (swap_ops other m)) \<Longrightarrow> am_get other k = None \<and> am_get m k = None"
proof -
  assume wf: "am_wf other" and k: "k \<notin> set (map swap_key (swap_ops other m))"
  let ?ins = "map (\<lambda>e. SwapInsert (fst e) (snd e)) other"
  have ins: "k \<notin> set (map swap_key ?ins)" and out: "k \<notin> set (map fst other)"
    using k by (auto simp: swap_ops_def Let_def image_image)
  have "list_all (swap_toward other) ?ins" using wf by (auto simp: list_all_iff am_get_in_set)
  then have "am_get (fold swap_step ?ins m) k = am_get m k" using swap_steps_get [of other ?ins m k] ins by simp
  moreover have "k \<notin> set (map fst (fold swap_step ?ins m))"
    using k out by (auto simp: swap_ops_def Let_def image_image)
  ultimately have "am_get m k = None" using am_keys [of "fold swap_step ?ins m" k] by simp
  then show ?thesis using out by (simp add: am_keys)
qed

lemma swap_get: "am_wf other \<Longrightarrow> am_get (fold swap_step (swap_ops other m) m) k = am_get other k"
  using swap_steps_get [OF swap_ops_toward, of other m m k] swap_ops_keys [of other k m] by auto

lemma swap_prefix_get:
  assumes "am_wf other"
  shows "am_get (fold swap_step (take n (swap_ops other m)) m) k \<in> {am_get m k, am_get other k}"
proof -
  have "list_all (swap_toward other) (take n (swap_ops other m))"
    using swap_ops_toward [OF assms, of m] by (auto simp: list_all_iff dest: in_set_takeD)
  from swap_steps_get [OF this, of m k] show ?thesis by simp
qed

section \<open>Loading rows\<close>

lemma push_entry_get:
  "am_get (push_entry k v m) k' = (if k' = k then Some ((case am_get m k of None \<Rightarrow> [] | Some vs \<Rightarrow> vs) @ [v]) else am_get m k')"
  by (simp add: push_entry_def map_simps)

definition rows_for :: "string \<Rightarrow> (string \<times> 'v) list \<Rightarrow> 'v list" where
  "rows_for k rows = map snd (filter (\<lambda>r. fst r = k) rows)"

lemma group_rows_get:
  "am_wf (group_rows rows) \<and> am_get (group_rows rows) k = (if rows_for k rows = [] then None else Some (rows_for k rows))"
proof (induction rows rule: rev_induct)
  case (snoc r rows)
  obtain h v where r: "r = (h, v)" by (cases r)
  have put: "group_rows (rows @ [r]) = push_entry h v (group_rows rows)" by (simp add: group_rows_def r)
  have "rows_for k (rows @ [r]) = rows_for k rows @ (if h = k then [v] else [])" by (simp add: rows_for_def r)
  then show ?case unfolding put using snoc by (cases "h = k") (simp_all add: push_entry_get push_entry_def map_simps)
qed (simp add: group_rows_def rows_for_def map_simps)

lemma fold_put_get:
  "am_wf l \<Longrightarrow> am_get (fold (\<lambda>(k, v). am_put k (f v)) l m) k = (case am_get l k of None \<Rightarrow> am_get m k | Some v \<Rightarrow> Some (f v))"
proof (induction l arbitrary: m)
  case (Cons e l)
  obtain h v where e: "e = (h, v)" by (cases e)
  have "am_get l h = None" using Cons.prems by (simp add: e am_wf_def am_keys)
  moreover have "am_get (e # l) k = (if k = h then Some v else am_get l k)" by (simp add: e am_get_def)
  ultimately show ?case using Cons by (simp add: e map_simps am_wf_def split: option.splits)
qed (simp add: map_simps)

lemma fold_put_wf: "am_wf m \<Longrightarrow> am_wf (fold (\<lambda>(k, v). am_put k (f v)) l m)"
  by (induction l arbitrary: m) (auto simp: map_simps)

lemma populate_ip_get:
  "am_wf (populate_ip_rules lib rows []) \<and> am_get (populate_ip_rules lib rows []) k =
     (let cs = rows_for k (map (\<lambda>r. (ir_host_code r, ir_ip_cidr r)) rows)
      in if cs = [] then None else Some (List.map_filter (parse_ip_rule lib) cs))"
proof -
  have "populate_ip_rules lib rows [] = fold (\<lambda>(k, v). am_put k (List.map_filter (parse_ip_rule lib) v))
      (group_rows (map (\<lambda>r. (ir_host_code r, ir_ip_cidr r)) rows)) []"
    by (simp add: populate_ip_rules_def ipr_load_def [abs_def])
  then show ?thesis using group_rows_get [of "map (\<lambda>r. (ir_host_code r, ir_ip_cidr r)) rows" k]
    by (simp add: fold_put_get fold_put_wf map_simps Let_def)
qed

lemma populate_url_get:
  "am_wf (populate_url_rules rows []) \<and> am_get (populate_url_rules rows []) k =
     (let rs = rows_for k (map (\<lambda>r. (ur_row_host_code r, url_rule_of_row r)) rows) in if rs = [] then None else Some rs)"
proof -
  have "populate_url_rules rows [] = fold (\<lambda>(k, v). am_put k (id v))
      (group_rows (map (\<lambda>r. (ur_row_host_code r, url_rule_of_row r)) rows)) []"
    by (simp add: populate_url_rules_def urs_load_def [abs_def])
  then show ?thesis using group_rows_get [of "map (\<lambda>r. (ur_row_host_code r, url_rule_of_row r)) rows" k]
    by (simp add: fold_put_get fold_put_wf map_simps Let_def)
qed

section \<open>What a reload installs\<close>

text \<open>The meaning of the rows of the database for a host and an address, and for a host and a path.\<close>

definition row_covers :: "'n ipnet_lib \<Rightarrow> ip_row list \<Rightarrow> string \<Rightarrow> ip_addr \<Rightarrow> bool" where
  "row_covers lib rows h ip \<longleftrightarrow> (\<exists>r\<in>set rows. (ir_host_code r = h \<or> ir_host_code r = ''*'') \<and>
     (case parse_ip_rule lib (ir_ip_cidr r) of None \<Rightarrow> False | Some net \<Rightarrow> in_contains lib net ip))"

definition row_rule :: "url_row list \<Rightarrow> string \<Rightarrow> string \<Rightarrow> string option" where
  "row_rule rows h path = map_option ur_row_id (List.find (\<lambda>r. url_rule_matches (url_rule_of_row r) path)
     (filter (\<lambda>r. ur_row_host_code r = h) rows @ filter (\<lambda>r. ur_row_host_code r = ''*'') rows))"

lemma swapped_ip_matches:
  "ipr_matches lib (ipr_swap_from (populate_ip_rules lib rows []) m) h ip \<longleftrightarrow> row_covers lib rows h ip"
proof -
  let ?p = "populate_ip_rules lib rows []"
  have "any_net lib ip (am_get ?p k) \<longleftrightarrow> (\<exists>r\<in>set rows. ir_host_code r = k \<and>
      (case parse_ip_rule lib (ir_ip_cidr r) of None \<Rightarrow> False | Some net \<Rightarrow> in_contains lib net ip))" for k
    using populate_ip_get [of lib rows k]
    by (force simp: any_net_def rows_for_def Let_def list_ex_iff List.map_filter_def filter_empty_conv split: option.splits)
  moreover have "am_get (ipr_swap_from ?p m) k = am_get ?p k" for k
    unfolding ipr_swap_from_def using populate_ip_get [of lib rows k] by (intro swap_get) simp
  ultimately show ?thesis by (auto simp: ipr_matches_def row_covers_def)
qed

lemma swapped_url_matches:
  "urs_matches (urs_swap_from (populate_url_rules rows []) m) h path = row_rule rows h path"
proof -
  let ?p = "populate_url_rules rows []" and ?P = "\<lambda>r. url_rule_matches (url_rule_of_row r) path"
  have find_map: "List.find P (map f xs) = map_option f (List.find (P \<circ> f) xs)" for P and f :: "url_row \<Rightarrow> url_rule" and xs
    by (induction xs) auto
  have find_app: "List.find P (xs @ ys) = (case List.find P xs of None \<Rightarrow> List.find P ys | r \<Rightarrow> r)"
    for P and xs ys :: "url_row list"
    by (induction xs) auto
  have rows: "rows_for k (map (\<lambda>r. (ur_row_host_code r, url_rule_of_row r)) rows) =
      map url_rule_of_row (filter (\<lambda>r. ur_row_host_code r = k) rows)" for k
    by (simp add: rows_for_def filter_map comp_def)
  have "first_rule path (am_get ?p k) = map_option url_rule_of_row (List.find ?P (filter (\<lambda>r. ur_row_host_code r = k) rows))" for k
    using populate_url_get [of rows k] by (simp add: first_rule_def rows Let_def find_map comp_def)
  moreover have "am_get (urs_swap_from ?p m) k = am_get ?p k" for k
    unfolding urs_swap_from_def using populate_url_get [of rows k] by (intro swap_get) simp
  ultimately show ?thesis
    by (auto simp: urs_matches_def row_rule_def find_app url_rule_of_row_def split: option.splits)
qed

text \<open>C23. A reload installs exactly the rows of the database: whatever the store held before, an
  address is allowed or blocked for a host exactly when a row of that host or of the global host
  \<^verbatim>\<open>*\<close> covers it, and a path is decided by the first matching row of the host, then by the first
  global one.  When one of the four queries fails the store keeps its rules.\<close>

theorem reload_all_exact:
  "case list_rows db None of
     Inl e \<Rightarrow> reload_all lib db s = (Inl e, s)
   | Inr (ai, bi, au, bu) \<Rightarrow> fst (reload_all lib db s) = Inr () \<and>
       ipr_matches lib (rs_allow_ips (snd (reload_all lib db s))) h ip = row_covers lib ai h ip \<and>
       ipr_matches lib (rs_block_ips (snd (reload_all lib db s))) h ip = row_covers lib bi h ip \<and>
       urs_matches (rs_allow_urls (snd (reload_all lib db s))) h path = row_rule au h path \<and>
       urs_matches (rs_block_urls (snd (reload_all lib db s))) h path = row_rule bu h path"
  by (simp add: reload_all_def Let_def swapped_ip_matches swapped_url_matches split: sum.splits prod.splits)

text \<open>C22. A reload leaves no gap: a reader that looks at a host between any two operations of the
  swap sees the rules of that host from before or from after, and an address that the same entry
  blocks before and after is blocked at every moment in between.\<close>

theorem swap_leaves_no_gap:
  assumes "am_wf other" and "h = k \<or> h = ''*''"
    and "any_net lib ip (am_get m h)" and "any_net lib ip (am_get other h)"
  shows "let now = fold swap_step (take n (swap_ops other m)) m
    in am_get now k' \<in> {am_get m k', am_get other k'} \<and> ipr_matches lib now k ip"
  using swap_prefix_get [OF assms(1), of n m k'] swap_prefix_get [OF assms(1), of n m h] assms(2-4)
  by (auto simp: Let_def ipr_matches_def)

definition exact_lib :: "ip_addr ipnet_lib" where
  "exact_lib = \<lparr>in_from_str = ip_from_str, in_from_ip = id, in_contains = (=)\<rparr>"

theorem swap_leaves_no_gap_witness:
  "let old = [(''h1'', [V4 10 0 0 1]), (''h2'', [V4 10 0 0 2])]; new = [(''h1'', [V4 10 0 0 9, V4 10 0 0 1])];
       now = fold swap_step (take 1 (swap_ops new old)) old
   in am_get now ''h2'' = Some [V4 10 0 0 2] \<and> ipr_matches exact_lib now ''h1'' (V4 10 0 0 1)"
  using swap_leaves_no_gap [of "[(''h1'', [V4 10 0 0 9, V4 10 0 0 1])]" "''h1''" "''h1''" exact_lib "V4 10 0 0 1"
      "[(''h1'', [V4 10 0 0 1]), (''h2'', [V4 10 0 0 2])]" 1 "''h2''"]
  by (simp add: am_wf_def am_get_def any_net_def exact_lib_def swap_ops_def am_put_def Let_def)

text \<open>Reloading one host leaves every other host alone.\<close>

lemma reload_host_frame:
  assumes "k \<noteq> h"
  shows "am_get (rs_allow_ips (snd (reload_host lib db h s))) k = am_get (rs_allow_ips s) k"
    and "am_get (rs_block_ips (snd (reload_host lib db h s))) k = am_get (rs_block_ips s) k"
    and "am_get (rs_allow_urls (snd (reload_host lib db h s))) k = am_get (rs_allow_urls s) k"
    and "am_get (rs_block_urls (snd (reload_host lib db h s))) k = am_get (rs_block_urls s) k"
  using assms
  by (simp_all add: reload_host_def reload_host_ips_def reload_host_urls_def ipr_clear_host_def ipr_load_def
      urs_clear_host_def urs_load_def map_simps split: sum.splits prod.splits)

end
