(* ===== verification/CustomRules.thy ===== *)
theory CustomRules
  imports Detectors RuleSets
begin

text \<open>
  The custom rules engine (\<^verbatim>\<open>rules/engine.rs\<close>): conditions, condition trees and their validation,
  compilation into matchers, the rule buckets with their priorities, and evaluation.  The
  \<^verbatim>\<open>regex\<close>, \<^verbatim>\<open>globset\<close>, \<^verbatim>\<open>ipnet\<close> and \<^verbatim>\<open>rhai\<close> crates are parameters, and so is the derived
  deserialisation of conditions.  Compiled rules agree with the direct evaluation of their
  conditions, and evaluation respects priorities in every reachable state.
\<close>

section \<open>Rules\<close>

datatype condition_field =
    CfIp | CfPath | CfQuery | CfMethod | CfBody | CfCookie "string option" | CfUserAgent | CfContentType
  | CfContentLength | CfHost | CfHeader string | CfGeoCountry | CfGeoIso | CfGeoProvince | CfGeoCity | CfGeoIsp

text \<open>The hand-written deserialiser of a field: a tag, or a map with the single key \<^verbatim>\<open>header\<close> or
  \<^verbatim>\<open>cookie\<close>.\<close>

definition field_visit_str :: "string \<Rightarrow> condition_field option" where
  "field_visit_str v =
     (if v = ''ip'' then Some CfIp else if v = ''path'' then Some CfPath else if v = ''query'' then Some CfQuery
      else if v = ''method'' then Some CfMethod else if v = ''body'' then Some CfBody
      else if v = ''cookie'' then Some (CfCookie None) else if v = ''user_agent'' then Some CfUserAgent
      else if v = ''content_type'' then Some CfContentType else if v = ''content_length'' then Some CfContentLength
      else if v = ''host'' then Some CfHost else if v = ''geo_country'' then Some CfGeoCountry
      else if v = ''geo_iso'' then Some CfGeoIso else if v = ''geo_province'' then Some CfGeoProvince
      else if v = ''geo_city'' then Some CfGeoCity else if v = ''geo_isp'' then Some CfGeoIsp else None)"

fun field_visit_map :: "(string \<times> json) list \<Rightarrow> condition_field option" where
  "field_visit_map [(key, v)] =
     (if key = ''header'' then (case v of JString name \<Rightarrow> Some (CfHeader name) | _ \<Rightarrow> None)
      else if key = ''cookie''
      then (case v of JString name \<Rightarrow> Some (CfCookie (Some name)) | JNull \<Rightarrow> Some (CfCookie None) | _ \<Rightarrow> None)
      else None)"
| "field_visit_map _ = None"

fun condition_field_of_json :: "json \<Rightarrow> condition_field option" where
  "condition_field_of_json (JString v) = field_visit_str v"
| "condition_field_of_json (JObject ms) = field_visit_map ms"
| "condition_field_of_json _ = None"

datatype operator =
    OpEq | OpNe | OpContains | OpNotContains | OpStartsWith | OpEndsWith | OpRegex | OpWildcard | OpInList
  | OpNotInList | OpCidrMatch | OpGt | OpLt | OpGte | OpLte

datatype condition_value = CvStr string | CvList "string list" | CvNumber int

record condition =
  co_field :: condition_field
  co_operator :: operator
  co_value :: condition_value

datatype condition_op = CondAnd | CondOr

definition condition_op_parse_str :: "string \<Rightarrow> condition_op" where
  "condition_op_parse_str s = (if to_ascii_lowercase s = ''or'' then CondOr else CondAnd)"

datatype rule_action = RaBlock | RaAllow | RaLog | RaChallenge

definition rule_action_parse_str :: "string \<Rightarrow> rule_action" where
  "rule_action_parse_str s =
     (let l = to_ascii_lowercase s
      in if l = ''allow'' then RaAllow else if l = ''log'' then RaLog else if l = ''challenge'' then RaChallenge else RaBlock)"

datatype condition_node =
    NodeAnd "condition_node list" | NodeOr "condition_node list" | NodeNot condition_node | NodeLeaf condition

record custom_rule =
  cr_id :: string
  cr_host_code :: string
  cr_name :: string
  cr_priority :: int
  cr_enabled :: bool
  cr_condition_op :: condition_op
  cr_conditions :: "condition list"
  cr_action :: rule_action
  cr_action_status :: nat
  cr_action_msg :: "string option"
  cr_script :: "string option"
  cr_match_tree :: "condition_node option"

section \<open>Validation of condition trees\<close>

definition MAX_TREE_DEPTH :: nat where "MAX_TREE_DEPTH = 16"
definition MAX_TREE_LEAVES :: nat where "MAX_TREE_LEAVES = 256"

datatype rule_error =
    TreeTooDeep | TooManyLeaves | InvalidRegex string | EmptyWildcard | BareWildcard | InvalidWildcard string
  | InvalidCidr string | Unsupported operator condition_value

fun walk_node :: "condition_node \<Rightarrow> nat \<Rightarrow> nat \<Rightarrow> rule_error + nat"
  and walk_nodes :: "condition_node list \<Rightarrow> nat \<Rightarrow> nat \<Rightarrow> rule_error + nat" where
  "walk_node n depth leaves =
     (if MAX_TREE_DEPTH < depth then Inl TreeTooDeep
      else case n of
             NodeLeaf c \<Rightarrow> if MAX_TREE_LEAVES < leaves + 1 then Inl TooManyLeaves else Inr (leaves + 1)
           | NodeAnd b \<Rightarrow> walk_nodes b (depth + 1) leaves
           | NodeOr b \<Rightarrow> walk_nodes b (depth + 1) leaves
           | NodeNot m \<Rightarrow> walk_node m (depth + 1) leaves)"
| "walk_nodes [] depth leaves = Inr leaves"
| "walk_nodes (n # ns) depth leaves =
     (case walk_node n depth leaves of Inl e \<Rightarrow> Inl e | Inr leaves' \<Rightarrow> walk_nodes ns depth leaves')"

definition validate_tree :: "condition_node \<Rightarrow> rule_error option" where
  "validate_tree node = (case walk_node node 1 0 of Inl e \<Rightarrow> Some e | Inr _ \<Rightarrow> None)"

section \<open>Compilation\<close>

record ('x, 'g, 'n) rule_lib =
  rl_regex_new :: "string \<Rightarrow> 'x option"
  rl_regex_is_match :: "'x \<Rightarrow> string \<Rightarrow> bool"
  rl_glob_new :: "string \<Rightarrow> 'g option"
  rl_glob_is_match :: "'g \<Rightarrow> string \<Rightarrow> bool"
  rl_net :: "'n ipnet_lib"
  rl_to_lowercase :: "string \<Rightarrow> string"
  rl_rhai_eval :: "(string \<times> string) list \<Rightarrow> int \<Rightarrow> string \<Rightarrow> bool option"

datatype ('x, 'g, 'n) matcher =
    MEq string | MNe string | MContains string | MNotContains string | MStartsWith string | MEndsWith string
  | MRegex 'x | MGlob 'g | MInList "string list" | MNotInList "string list" | MCidr 'n
  | MGt int | MLt int | MGte int | MLte int

record ('x, 'g, 'n) compiled_condition =
  cc_field :: condition_field
  cc_matcher :: "('x, 'g, 'n) matcher"

datatype ('x, 'g, 'n) compiled_node =
    CLeaf "('x, 'g, 'n) compiled_condition" | CAnd "('x, 'g, 'n) compiled_node list"
  | COr "('x, 'g, 'n) compiled_node list" | CNot "('x, 'g, 'n) compiled_node"

definition compile_matcher ::
  "('x, 'g, 'n) rule_lib \<Rightarrow> operator \<Rightarrow> condition_value \<Rightarrow> rule_error + ('x, 'g, 'n) matcher" where
  "compile_matcher lib op val =
     (case (op, val) of
        (OpEq, CvStr s) \<Rightarrow> Inr (MEq s)
      | (OpNe, CvStr s) \<Rightarrow> Inr (MNe s)
      | (OpContains, CvStr s) \<Rightarrow> Inr (MContains s)
      | (OpNotContains, CvStr s) \<Rightarrow> Inr (MNotContains s)
      | (OpStartsWith, CvStr s) \<Rightarrow> Inr (MStartsWith s)
      | (OpEndsWith, CvStr s) \<Rightarrow> Inr (MEndsWith s)
      | (OpRegex, CvStr s) \<Rightarrow> (case rl_regex_new lib s of Some re \<Rightarrow> Inr (MRegex re) | None \<Rightarrow> Inl (InvalidRegex s))
      | (OpWildcard, CvStr s) \<Rightarrow>
          let trimmed = trim_str s
          in if trimmed = [] then Inl EmptyWildcard
             else if trimmed = ''**'' then Inl BareWildcard
             else (case rl_glob_new lib trimmed of Some g \<Rightarrow> Inr (MGlob g) | None \<Rightarrow> Inl (InvalidWildcard s))
      | (OpInList, CvList l) \<Rightarrow> Inr (MInList l)
      | (OpNotInList, CvList l) \<Rightarrow> Inr (MNotInList l)
      | (OpCidrMatch, CvStr s) \<Rightarrow> (case in_from_str (rl_net lib) s of Some net \<Rightarrow> Inr (MCidr net) | None \<Rightarrow> Inl (InvalidCidr s))
      | (OpGt, CvNumber n) \<Rightarrow> Inr (MGt n)
      | (OpLt, CvNumber n) \<Rightarrow> Inr (MLt n)
      | (OpGte, CvNumber n) \<Rightarrow> Inr (MGte n)
      | (OpLte, CvNumber n) \<Rightarrow> Inr (MLte n)
      | _ \<Rightarrow> Inl (Unsupported op val))"

definition compile_condition ::
  "('x, 'g, 'n) rule_lib \<Rightarrow> condition \<Rightarrow> rule_error + ('x, 'g, 'n) compiled_condition" where
  "compile_condition lib cond =
     (case compile_matcher lib (co_operator cond) (co_value cond) of
        Inl e \<Rightarrow> Inl e
      | Inr m \<Rightarrow> Inr \<lparr>cc_field = co_field cond, cc_matcher = m\<rparr>)"

text \<open>Collecting a list of results stops at the first error.\<close>

fun collect :: "('a \<Rightarrow> 'e + 'b) \<Rightarrow> 'a list \<Rightarrow> 'e + 'b list" where
  "collect f [] = Inr []"
| "collect f (x # xs) =
     (case f x of Inl e \<Rightarrow> Inl e | Inr y \<Rightarrow> (case collect f xs of Inl e \<Rightarrow> Inl e | Inr ys \<Rightarrow> Inr (y # ys)))"

lemma collect_cong [fundef_cong]: "xs = ys \<Longrightarrow> (\<And>x. x \<in> set ys \<Longrightarrow> f x = g x) \<Longrightarrow> collect f xs = collect g ys"
  by (induction ys arbitrary: xs) (auto split: sum.splits)

fun compile_tree :: "('x, 'g, 'n) rule_lib \<Rightarrow> condition_node \<Rightarrow> rule_error + ('x, 'g, 'n) compiled_node" where
  "compile_tree lib (NodeLeaf c) = (case compile_condition lib c of Inl e \<Rightarrow> Inl e | Inr cc \<Rightarrow> Inr (CLeaf cc))"
| "compile_tree lib (NodeAnd b) = (case collect (compile_tree lib) b of Inl e \<Rightarrow> Inl e | Inr ns \<Rightarrow> Inr (CAnd ns))"
| "compile_tree lib (NodeOr b) = (case collect (compile_tree lib) b of Inl e \<Rightarrow> Inl e | Inr ns \<Rightarrow> Inr (COr ns))"
| "compile_tree lib (NodeNot m) = (case compile_tree lib m of Inl e \<Rightarrow> Inl e | Inr n \<Rightarrow> Inr (CNot n))"

definition compile_rule :: "('x, 'g, 'n) rule_lib \<Rightarrow> custom_rule \<Rightarrow> rule_error + ('x, 'g, 'n) compiled_node" where
  "compile_rule lib rule =
     (case cr_match_tree rule of
        Some tree \<Rightarrow> (case validate_tree tree of Some e \<Rightarrow> Inl e | None \<Rightarrow> compile_tree lib tree)
      | None \<Rightarrow>
          (case collect (compile_condition lib) (cr_conditions rule) of
             Inl e \<Rightarrow> Inl e
           | Inr ccs \<Rightarrow> Inr (case cr_condition_op rule of CondAnd \<Rightarrow> CAnd (map CLeaf ccs) | CondOr \<Rightarrow> COr (map CLeaf ccs))))"

section \<open>Evaluation\<close>

text \<open>\<^verbatim>\<open>str::parse::<i64>\<close>: an optional sign and at least one decimal digit, within range.\<close>

definition parse_i64 :: "string \<Rightarrow> int option" where
  "parse_i64 s =
     (let (neg, ds) = (case s of c # r \<Rightarrow> if c = CHR ''-'' then (True, r) else if c = CHR ''+'' then (False, r) else (False, s)
                               | [] \<Rightarrow> (False, []))
      in if ds = [] \<or> \<not> list_all (\<lambda>c. to_digit 10 c \<noteq> None) ds then None
         else let v = (if neg then - int (read_base 10 ds) else int (read_base 10 ds))
              in if i64_min \<le> v \<and> v \<le> i64_max then Some v else None)"

definition compares :: "(int \<Rightarrow> bool) \<Rightarrow> string \<Rightarrow> bool" where
  "compares P s = (case parse_i64 s of Some v \<Rightarrow> P v | None \<Rightarrow> False)"

definition eq_ignore_ascii_case :: "string \<Rightarrow> string \<Rightarrow> bool" where
  "eq_ignore_ascii_case a b \<longleftrightarrow> to_ascii_lowercase a = to_ascii_lowercase b"

fun matcher_matches :: "('x, 'g, 'n) rule_lib \<Rightarrow> ('x, 'g, 'n) matcher \<Rightarrow> string \<Rightarrow> ip_addr \<Rightarrow> bool" where
  "matcher_matches lib (MEq s) f ip = eq_ignore_ascii_case f s"
| "matcher_matches lib (MNe s) f ip = (\<not> eq_ignore_ascii_case f s)"
| "matcher_matches lib (MContains s) f ip = sublist s f"
| "matcher_matches lib (MNotContains s) f ip = (\<not> sublist s f)"
| "matcher_matches lib (MStartsWith s) f ip = prefix s f"
| "matcher_matches lib (MEndsWith s) f ip = suffix s f"
| "matcher_matches lib (MRegex re) f ip = rl_regex_is_match lib re f"
| "matcher_matches lib (MGlob g) f ip = rl_glob_is_match lib g f"
| "matcher_matches lib (MInList l) f ip = (f \<in> set l)"
| "matcher_matches lib (MNotInList l) f ip = (f \<notin> set l)"
| "matcher_matches lib (MCidr net) f ip = in_contains (rl_net lib) net ip"
| "matcher_matches lib (MGt n) f ip = compares (\<lambda>v. n < v) f"
| "matcher_matches lib (MLt n) f ip = compares (\<lambda>v. v < n) f"
| "matcher_matches lib (MGte n) f ip = compares (\<lambda>v. n \<le> v) f"
| "matcher_matches lib (MLte n) f ip = compares (\<lambda>v. v \<le> n) f"

fun field_value :: "('x, 'g, 'n) rule_lib \<Rightarrow> request_ctx \<Rightarrow> condition_field \<Rightarrow> string option" where
  "field_value lib ctx CfIp = Some (show_ip (ctx_client_ip ctx))"
| "field_value lib ctx CfPath = Some (ctx_path ctx)"
| "field_value lib ctx CfQuery = Some (ctx_query ctx)"
| "field_value lib ctx CfMethod = Some (ctx_method ctx)"
| "field_value lib ctx CfHost = Some (ctx_host ctx)"
| "field_value lib ctx CfContentLength = Some (show_dec (ctx_content_length ctx))"
| "field_value lib ctx CfBody = Some (from_utf8_lossy (ctx_body_preview ctx))"
| "field_value lib ctx (CfCookie None) = ctx_headers ctx ''cookie''"
| "field_value lib ctx (CfCookie (Some name)) = ctx_cookies ctx name"
| "field_value lib ctx CfUserAgent = ctx_headers ctx ''user-agent''"
| "field_value lib ctx CfContentType = ctx_headers ctx ''content-type''"
| "field_value lib ctx (CfHeader name) = ctx_headers ctx (rl_to_lowercase lib name)"
| "field_value lib ctx CfGeoCountry = map_option geo_country (ctx_geo ctx)"
| "field_value lib ctx CfGeoIso = map_option geo_iso_code (ctx_geo ctx)"
| "field_value lib ctx CfGeoProvince = map_option geo_province (ctx_geo ctx)"
| "field_value lib ctx CfGeoCity = map_option geo_city (ctx_geo ctx)"
| "field_value lib ctx CfGeoIsp = map_option geo_isp (ctx_geo ctx)"

definition field_str :: "('x, 'g, 'n) rule_lib \<Rightarrow> request_ctx \<Rightarrow> condition_field \<Rightarrow> string" where
  "field_str lib ctx f = (case field_value lib ctx f of Some v \<Rightarrow> v | None \<Rightarrow> [])"

fun eval_compiled_node :: "('x, 'g, 'n) rule_lib \<Rightarrow> request_ctx \<Rightarrow> ('x, 'g, 'n) compiled_node \<Rightarrow> bool" where
  "eval_compiled_node lib ctx (CLeaf c) =
     matcher_matches lib (cc_matcher c) (field_str lib ctx (cc_field c)) (ctx_client_ip ctx)"
| "eval_compiled_node lib ctx (CAnd v) = list_all (eval_compiled_node lib ctx) v"
| "eval_compiled_node lib ctx (COr v) = list_ex (eval_compiled_node lib ctx) v"
| "eval_compiled_node lib ctx (CNot b) = (\<not> eval_compiled_node lib ctx b)"

definition eval_one :: "('x, 'g, 'n) rule_lib \<Rightarrow> request_ctx \<Rightarrow> condition \<Rightarrow> bool" where
  "eval_one lib ctx cond =
     (let fstr = field_str lib ctx (co_field cond)
      in case (co_operator cond, co_value cond) of
           (OpEq, CvStr v) \<Rightarrow> eq_ignore_ascii_case fstr v
         | (OpNe, CvStr v) \<Rightarrow> \<not> eq_ignore_ascii_case fstr v
         | (OpContains, CvStr v) \<Rightarrow> sublist v fstr
         | (OpNotContains, CvStr v) \<Rightarrow> \<not> sublist v fstr
         | (OpStartsWith, CvStr v) \<Rightarrow> prefix v fstr
         | (OpEndsWith, CvStr v) \<Rightarrow> suffix v fstr
         | (OpRegex, CvStr v) \<Rightarrow> (case rl_regex_new lib v of Some r \<Rightarrow> rl_regex_is_match lib r fstr | None \<Rightarrow> False)
         | (OpInList, CvList l) \<Rightarrow> list_ex (\<lambda>v. v = fstr) l
         | (OpNotInList, CvList l) \<Rightarrow> \<not> list_ex (\<lambda>v. v = fstr) l
         | (OpCidrMatch, CvStr cidr) \<Rightarrow>
             (case in_from_str (rl_net lib) cidr of Some net \<Rightarrow> in_contains (rl_net lib) net (ctx_client_ip ctx) | None \<Rightarrow> False)
         | (OpGt, CvNumber n) \<Rightarrow> compares (\<lambda>v. n < v) fstr
         | (OpLt, CvNumber n) \<Rightarrow> compares (\<lambda>v. v < n) fstr
         | (OpGte, CvNumber n) \<Rightarrow> compares (\<lambda>v. n \<le> v) fstr
         | (OpLte, CvNumber n) \<Rightarrow> compares (\<lambda>v. v \<le> n) fstr
         | _ \<Rightarrow> False)"

definition eval_conditions :: "('x, 'g, 'n) rule_lib \<Rightarrow> request_ctx \<Rightarrow> condition list \<Rightarrow> condition_op \<Rightarrow> bool" where
  "eval_conditions lib ctx conditions op =
     (if conditions = [] then False
      else (case op of CondAnd \<Rightarrow> list_all (eval_one lib ctx) conditions | CondOr \<Rightarrow> list_ex (eval_one lib ctx) conditions))"

definition header_or_empty :: "request_ctx \<Rightarrow> string \<Rightarrow> string" where
  "header_or_empty ctx h = (case ctx_headers ctx h of Some v \<Rightarrow> v | None \<Rightarrow> [])"

definition eval_script :: "('x, 'g, 'n) rule_lib \<Rightarrow> request_ctx \<Rightarrow> string \<Rightarrow> bool" where
  "eval_script lib ctx script =
     (case rl_rhai_eval lib
             [(''ip'', show_ip (ctx_client_ip ctx)), (''path'', ctx_path ctx), (''method'', ctx_method ctx),
              (''query'', ctx_query ctx), (''host'', ctx_host ctx), (''user_agent'', header_or_empty ctx ''user-agent''),
              (''referer'', header_or_empty ctx ''referer''), (''content_type'', header_or_empty ctx ''content-type'')]
             (sint (of_nat (ctx_content_length ctx) :: u64)) script of
        Some b \<Rightarrow> b
      | None \<Rightarrow> False)"

section \<open>The engine\<close>

datatype rule_source = SrcDb | SrcFile

record ('x, 'g, 'n) rule_entry =
  re_raw :: custom_rule
  re_compiled :: "('x, 'g, 'n) compiled_node option"
  re_source :: rule_source

type_synonym ('x, 'g, 'n) custom_rules_engine = "(string, ('x, 'g, 'n) rule_entry list) amap"

definition from_rule_with_source ::
  "('x, 'g, 'n) rule_lib \<Rightarrow> custom_rule \<Rightarrow> rule_source \<Rightarrow> ('x, 'g, 'n) rule_entry" where
  "from_rule_with_source lib rule source =
     \<lparr>re_raw = rule, re_compiled = (case compile_rule lib rule of Inr c \<Rightarrow> Some c | Inl _ \<Rightarrow> None), re_source = source\<rparr>"

definition by_priority :: "('x, 'g, 'n) rule_entry list \<Rightarrow> ('x, 'g, 'n) rule_entry list" where
  "by_priority es = sort_key (\<lambda>e. cr_priority (re_raw e)) es"

definition custom_load_host ::
  "('x, 'g, 'n) rule_lib \<Rightarrow> string \<Rightarrow> custom_rule list \<Rightarrow> ('x, 'g, 'n) custom_rules_engine \<Rightarrow> ('x, 'g, 'n) custom_rules_engine" where
  "custom_load_host lib h rules s =
     am_put h (by_priority (map (\<lambda>r. from_rule_with_source lib r SrcDb) (filter cr_enabled rules))) s"

definition insert_rule ::
  "('x, 'g, 'n) rule_lib \<Rightarrow> custom_rule \<Rightarrow> rule_source \<Rightarrow> ('x, 'g, 'n) custom_rules_engine \<Rightarrow> ('x, 'g, 'n) custom_rules_engine" where
  "insert_rule lib rule source s =
     (let bucket = (case am_get s (cr_host_code rule) of Some b \<Rightarrow> b | None \<Rightarrow> [])
      in am_put (cr_host_code rule) (by_priority (bucket @ [from_rule_with_source lib rule source])) s)"

definition add_rule ::
  "('x, 'g, 'n) rule_lib \<Rightarrow> custom_rule \<Rightarrow> ('x, 'g, 'n) custom_rules_engine \<Rightarrow> ('x, 'g, 'n) custom_rules_engine" where
  "add_rule lib rule s = insert_rule lib rule SrcDb s"

definition add_file_rule ::
  "('x, 'g, 'n) rule_lib \<Rightarrow> custom_rule \<Rightarrow> ('x, 'g, 'n) custom_rules_engine \<Rightarrow> ('x, 'g, 'n) custom_rules_engine" where
  "add_file_rule lib rule s = insert_rule lib rule SrcFile s"

definition clear_file_rules :: "('x, 'g, 'n) custom_rules_engine \<Rightarrow> ('x, 'g, 'n) custom_rules_engine" where
  "clear_file_rules s = map (\<lambda>(h, b). (h, filter (\<lambda>e. re_source e \<noteq> SrcFile) b)) s"

definition remove_rule :: "string \<Rightarrow> string \<Rightarrow> ('x, 'g, 'n) custom_rules_engine \<Rightarrow> ('x, 'g, 'n) custom_rules_engine" where
  "remove_rule h rule_id s =
     (case am_get s h of None \<Rightarrow> s | Some b \<Rightarrow> am_put h (filter (\<lambda>e. cr_id (re_raw e) \<noteq> rule_id) b) s)"

definition custom_len :: "('x, 'g, 'n) custom_rules_engine \<Rightarrow> nat" where
  "custom_len s = sum_list (map (length \<circ> snd) s)"

definition entry_matches :: "('x, 'g, 'n) rule_lib \<Rightarrow> request_ctx \<Rightarrow> ('x, 'g, 'n) rule_entry \<Rightarrow> bool" where
  "entry_matches lib ctx e =
     (case cr_script (re_raw e) of
        Some script \<Rightarrow> eval_script lib ctx script
      | None \<Rightarrow>
          (case re_compiled e of
             None \<Rightarrow> eval_conditions lib ctx (cr_conditions (re_raw e)) (cr_condition_op (re_raw e))
           | Some tree \<Rightarrow> eval_compiled_node lib ctx tree))"

definition rule_result :: "custom_rule \<Rightarrow> detection_result" where
  "rule_result rule =
     \<lparr>dr_rule_id = Some (cr_id rule), dr_rule_name = cr_name rule, dr_phase = CustomRule,
      dr_detail = ''Custom rule '' @ [CHR 0x27] @ cr_name rule @ [CHR 0x27] @ '' matched''\<rparr>"

fun eval_list :: "('x, 'g, 'n) rule_lib \<Rightarrow> request_ctx \<Rightarrow> ('x, 'g, 'n) rule_entry list \<Rightarrow> detection_result option" where
  "eval_list lib ctx [] = None"
| "eval_list lib ctx (e # es) =
     (if \<not> cr_enabled (re_raw e) then eval_list lib ctx es
      else if entry_matches lib ctx e then Some (rule_result (re_raw e))
      else eval_list lib ctx es)"

definition custom_check ::
  "('x, 'g, 'n) rule_lib \<Rightarrow> ('x, 'g, 'n) custom_rules_engine \<Rightarrow> request_ctx \<Rightarrow> detection_result option" where
  "custom_check lib s ctx =
     (case (case am_get s (hc_code (ctx_host_config ctx)) of None \<Rightarrow> None | Some rules \<Rightarrow> eval_list lib ctx rules) of
        Some r \<Rightarrow> Some r
      | None \<Rightarrow> (case am_get s ''*'' of None \<Rightarrow> None | Some rules \<Rightarrow> eval_list lib ctx rules))"

section \<open>Rules of the database\<close>

record db_custom_rule =
  db_id :: string
  db_host_code :: string
  db_name :: string
  db_priority :: int
  db_enabled :: bool
  db_condition_op :: string
  db_conditions :: json
  db_action :: string
  db_action_status :: int
  db_action_msg :: "string option"
  db_script :: "string option"

fun top_level_tree :: "json \<Rightarrow> json option" where
  "top_level_tree (JObject members) = map_of members ''match_tree''"
| "top_level_tree _ = None"

definition from_db_rule ::
  "(json \<Rightarrow> condition_node option) \<Rightarrow> (json \<Rightarrow> condition list option) \<Rightarrow> db_custom_rule \<Rightarrow> custom_rule option" where
  "from_db_rule node_from_json conds_from_json row =
     (case (case top_level_tree (db_conditions row) of
              Some v \<Rightarrow> (case node_from_json v of Some tree \<Rightarrow> Some ([], Some tree) | None \<Rightarrow> None)
            | None \<Rightarrow> Some (case conds_from_json (db_conditions row) of Some cs \<Rightarrow> cs | None \<Rightarrow> [], None)) of
        None \<Rightarrow> None
      | Some (conditions, match_tree) \<Rightarrow>
          Some \<lparr>cr_id = db_id row, cr_host_code = db_host_code row, cr_name = db_name row, cr_priority = db_priority row,
            cr_enabled = db_enabled row, cr_condition_op = condition_op_parse_str (db_condition_op row),
            cr_conditions = conditions, cr_action = rule_action_parse_str (db_action row),
            cr_action_status = (if 0 \<le> db_action_status row \<and> db_action_status row \<le> 65535 then nat (db_action_status row) else 403),
            cr_action_msg = db_action_msg row, cr_script = db_script row, cr_match_tree = match_tree\<rparr>)"

section \<open>Condition trees are bounded\<close>

fun node_depth :: "condition_node \<Rightarrow> nat" where
  "node_depth (NodeLeaf c) = 1"
| "node_depth (NodeAnd b) = Suc (fold max (map node_depth b) 0)"
| "node_depth (NodeOr b) = Suc (fold max (map node_depth b) 0)"
| "node_depth (NodeNot m) = Suc (node_depth m)"

fun node_leaves :: "condition_node \<Rightarrow> nat" where
  "node_leaves (NodeLeaf c) = 1"
| "node_leaves (NodeAnd b) = sum_list (map node_leaves b)"
| "node_leaves (NodeOr b) = sum_list (map node_leaves b)"
| "node_leaves (NodeNot m) = node_leaves m"

lemma fold_max_le: "fold max xs (a :: nat) \<le> k \<longleftrightarrow> a \<le> k \<and> (\<forall>x\<in>set xs. x \<le> k)"
  by (induction xs arbitrary: a) auto

text \<open>A walk succeeds exactly when the bounds hold, and then returns the number of leaves.\<close>

fun walked :: "rule_error + nat \<Rightarrow> bool \<Rightarrow> nat \<Rightarrow> bool" where
  "walked (Inl e) ok k = (\<not> ok)"
| "walked (Inr l) ok k = (ok \<and> l = k)"

declare walk_node.simps [simp del]

lemma walk_bounds:
  "l \<le> MAX_TREE_LEAVES \<Longrightarrow>
   walked (walk_node n d l) (d + node_depth n \<le> Suc MAX_TREE_DEPTH \<and> l + node_leaves n \<le> MAX_TREE_LEAVES) (l + node_leaves n)"
  "l \<le> MAX_TREE_LEAVES \<Longrightarrow>
   walked (walk_nodes ns d l) ((\<forall>n\<in>set ns. d + node_depth n \<le> Suc MAX_TREE_DEPTH) \<and> l + sum_list (map node_leaves ns) \<le> MAX_TREE_LEAVES)
     (l + sum_list (map node_leaves ns))"
proof (induction n d l and ns d l rule: walk_node_walk_nodes.induct)
  case (1 n d l)
  have pos: "1 \<le> node_depth n" by (cases n) auto
  have all: "(\<forall>n\<in>set b. Suc (d + node_depth n) \<le> Suc MAX_TREE_DEPTH) \<longleftrightarrow> d + fold max (map node_depth b) 0 \<le> MAX_TREE_DEPTH"
    if "d \<le> MAX_TREE_DEPTH" for b
    using that fold_max_le [of "map node_depth b" 0 "MAX_TREE_DEPTH - d"] by (auto simp: le_diff_conv2 add.commute)
  show ?case
  proof (cases "MAX_TREE_DEPTH < d")
    case True
    then show ?thesis using pos by (subst walk_node.simps) simp
  next
    case False
    then have d: "d \<le> MAX_TREE_DEPTH" by simp
    show ?thesis
    proof (cases n)
      case (NodeAnd b)
      then show ?thesis using "1.IH"(1) [OF False _ "1.prems", of b] all [OF d, of b] d
        by (subst walk_node.simps) simp
    next
      case (NodeOr b)
      then show ?thesis using "1.IH"(2) [OF False _ "1.prems", of b] all [OF d, of b] d
        by (subst walk_node.simps) simp
    next
      case (NodeNot m)
      then show ?thesis using "1.IH"(3) [OF False _ "1.prems", of m] d
        by (subst walk_node.simps) simp
    next
      case (NodeLeaf c)
      then show ?thesis using d by (subst walk_node.simps) simp
    qed
  qed
next
  case (3 n ns d l)
  show ?case
  proof (cases "walk_node n d l")
    case (Inl e)
    then show ?thesis using "3.IH"(1) [OF "3.prems"] by auto
  next
    case (Inr l')
    then have "l' = l + node_leaves n" "l' \<le> MAX_TREE_LEAVES" "d + node_depth n \<le> Suc MAX_TREE_DEPTH"
      using "3.IH"(1) [OF "3.prems"] by auto
    with Inr "3.IH"(2) [OF Inr this(2)] show ?thesis by (simp add: add.assoc)
  qed
qed simp

text \<open>A condition tree is accepted exactly when it is at most \<^verbatim>\<open>MAX_TREE_DEPTH\<close> levels deep and has
  at most \<^verbatim>\<open>MAX_TREE_LEAVES\<close> conditions.\<close>

theorem tree_accepted_iff:
  "validate_tree n = None \<longleftrightarrow> node_depth n \<le> 16 \<and> node_leaves n \<le> 256"
  using walk_bounds(1) [of 0 n 1]
  by (cases "walk_node n 1 0") (auto simp: validate_tree_def MAX_TREE_DEPTH_def MAX_TREE_LEAVES_def)

section \<open>Compiled rules mean what their conditions say\<close>

definition plain_lib :: "(string, string, ip_addr) rule_lib" where
  "plain_lib = \<lparr>rl_regex_new = Some, rl_regex_is_match = sublist, rl_glob_new = Some, rl_glob_is_match = (=),
     rl_net = exact_lib, rl_to_lowercase = to_ascii_lowercase, rl_rhai_eval = \<lambda>_ _ _. None\<rparr>"

definition sample_rule :: custom_rule where
  "sample_rule = \<lparr>cr_id = ''r1'', cr_host_code = ''*'', cr_name = ''admin'', cr_priority = 10, cr_enabled = True,
     cr_condition_op = CondAnd,
     cr_conditions = [\<lparr>co_field = CfPath, co_operator = OpStartsWith, co_value = CvStr ''/''\<rparr>,
                      \<lparr>co_field = CfMethod, co_operator = OpNe, co_value = CvStr ''post''\<rparr>],
     cr_action = RaBlock, cr_action_status = 403, cr_action_msg = None, cr_script = None, cr_match_tree = None\<rparr>"

definition cond_holds :: "('x, 'g, 'n) rule_lib \<Rightarrow> request_ctx \<Rightarrow> condition \<Rightarrow> bool" where
  "cond_holds lib ctx c =
     (case (co_operator c, co_value c) of
        (OpWildcard, CvStr s) \<Rightarrow>
          (case rl_glob_new lib (trim_str s) of Some g \<Rightarrow> rl_glob_is_match lib g (field_str lib ctx (co_field c)) | None \<Rightarrow> False)
      | _ \<Rightarrow> eval_one lib ctx c)"

fun node_holds :: "('x, 'g, 'n) rule_lib \<Rightarrow> request_ctx \<Rightarrow> condition_node \<Rightarrow> bool" where
  "node_holds lib ctx (NodeLeaf c) = cond_holds lib ctx c"
| "node_holds lib ctx (NodeAnd b) = list_all (node_holds lib ctx) b"
| "node_holds lib ctx (NodeOr b) = list_ex (node_holds lib ctx) b"
| "node_holds lib ctx (NodeNot m) = (\<not> node_holds lib ctx m)"

definition rule_holds :: "('x, 'g, 'n) rule_lib \<Rightarrow> request_ctx \<Rightarrow> custom_rule \<Rightarrow> bool" where
  "rule_holds lib ctx rule =
     (case cr_match_tree rule of
        Some tree \<Rightarrow> node_holds lib ctx tree
      | None \<Rightarrow> (case cr_condition_op rule of
                  CondAnd \<Rightarrow> list_all (cond_holds lib ctx) (cr_conditions rule)
                | CondOr \<Rightarrow> list_ex (cond_holds lib ctx) (cr_conditions rule)))"

lemma compiled_condition_holds:
  assumes "compile_condition lib c = Inr cc"
  shows "eval_compiled_node lib ctx (CLeaf cc) = cond_holds lib ctx c"
proof -
  obtain m where m: "compile_matcher lib (co_operator c) (co_value c) = Inr m" and cc: "cc = \<lparr>cc_field = co_field c, cc_matcher = m\<rparr>"
    using assms by (auto simp: compile_condition_def split: sum.splits)
  have "matcher_matches lib m (field_str lib ctx (co_field c)) (ctx_client_ip ctx) = cond_holds lib ctx c"
    using m by (cases "co_operator c"; cases "co_value c")
      (auto simp: compile_matcher_def cond_holds_def eval_one_def Let_def list_ex_iff split: option.splits if_splits)
  then show ?thesis by (simp add: cc)
qed

lemma collect_holds:
  "collect f xs = Inr ys \<Longrightarrow> (\<And>x y. x \<in> set xs \<Longrightarrow> f x = Inr y \<Longrightarrow> P x = Q y) \<Longrightarrow>
   list_all P xs = list_all Q ys \<and> list_ex P xs = list_ex Q ys"
proof (induction xs arbitrary: ys)
  case (Cons x xs)
  then obtain z zs where "f x = Inr z" "collect f xs = Inr zs" "ys = z # zs" by (auto split: sum.splits)
  with Cons show ?case by (simp add: Cons.IH [of zs])
qed simp

lemma compiled_tree_holds: "compile_tree lib n = Inr cn \<Longrightarrow> eval_compiled_node lib ctx cn = node_holds lib ctx n"
proof (induction lib n arbitrary: cn rule: compile_tree.induct)
  case (1 lib c)
  then show ?case using compiled_condition_holds [of lib c _ ctx] by (auto split: sum.splits)
next
  case (2 lib b)
  then obtain ns where "collect (compile_tree lib) b = Inr ns" "cn = CAnd ns" by (auto split: sum.splits)
  with collect_holds [of "compile_tree lib" b ns "node_holds lib ctx" "eval_compiled_node lib ctx"] "2.IH" show ?case by simp
next
  case (3 lib b)
  then obtain ns where "collect (compile_tree lib) b = Inr ns" "cn = COr ns" by (auto split: sum.splits)
  with collect_holds [of "compile_tree lib" b ns "node_holds lib ctx" "eval_compiled_node lib ctx"] "3.IH" show ?case by simp
next
  case (4 lib m)
  then show ?case by (auto split: sum.splits)
qed

lemma compiled_rule_holds:
  assumes "compile_rule lib rule = Inr cn"
  shows "eval_compiled_node lib ctx cn = rule_holds lib ctx rule"
proof (cases "cr_match_tree rule")
  case None
  then obtain ccs where ccs: "collect (compile_condition lib) (cr_conditions rule) = Inr ccs"
    and cn: "cn = (case cr_condition_op rule of CondAnd \<Rightarrow> CAnd (map CLeaf ccs) | CondOr \<Rightarrow> COr (map CLeaf ccs))"
    using assms by (auto simp: compile_rule_def split: sum.splits)
  have "list_all (cond_holds lib ctx) (cr_conditions rule) = list_all (\<lambda>cc. eval_compiled_node lib ctx (CLeaf cc)) ccs
      \<and> list_ex (cond_holds lib ctx) (cr_conditions rule) = list_ex (\<lambda>cc. eval_compiled_node lib ctx (CLeaf cc)) ccs"
    by (rule collect_holds [OF ccs]) (rule compiled_condition_holds [symmetric])
  then show ?thesis using None cn
    by (simp add: rule_holds_def list.pred_map list_ex_iff comp_def split: condition_op.splits)
next
  case (Some tree)
  with assms show ?thesis
    by (auto simp: compile_rule_def rule_holds_def compiled_tree_holds split: option.splits)
qed

text \<open>C10. Compilation preserves meaning: a rule that compiles matches a request exactly when its
  condition tree, or the conjunction or disjunction of its conditions, holds for the request; for
  a flat rule without wildcards this is also what the uncompiled evaluation says, as long as the
  rule has a condition.\<close>

theorem compilation_sound:
  assumes "compile_rule lib rule = Inr cn"
  shows "eval_compiled_node lib ctx cn = rule_holds lib ctx rule
    \<and> (cr_match_tree rule = None \<and> cr_conditions rule \<noteq> [] \<and> OpWildcard \<notin> co_operator ` set (cr_conditions rule) \<longrightarrow>
        eval_conditions lib ctx (cr_conditions rule) (cr_condition_op rule) = eval_compiled_node lib ctx cn)"
proof -
  have "cond_holds lib ctx c = eval_one lib ctx c" if "co_operator c \<noteq> OpWildcard" for c
    using that by (cases "co_operator c") (simp_all add: cond_holds_def)
  then have "list_all (cond_holds lib ctx) cs = list_all (eval_one lib ctx) cs \<and> list_ex (cond_holds lib ctx) cs = list_ex (eval_one lib ctx) cs"
    if "OpWildcard \<notin> co_operator ` set cs" for cs
    using that by (induction cs) auto
  then show ?thesis using compiled_rule_holds [OF assms, of ctx]
    by (auto simp: rule_holds_def eval_conditions_def split: condition_op.splits)
qed

theorem compilation_sound_witness:
  "\<exists>cn. compile_rule plain_lib sample_rule = Inr cn \<and> eval_compiled_node plain_lib (probe_ctx []) cn
     \<and> eval_conditions plain_lib (probe_ctx []) (cr_conditions sample_rule) CondAnd"
proof -
  let ?cn = "CAnd [CLeaf \<lparr>cc_field = CfPath, cc_matcher = MStartsWith ''/''\<rparr>, CLeaf \<lparr>cc_field = CfMethod, cc_matcher = MNe ''post''\<rparr>]
      :: (string, string, ip_addr) compiled_node"
  have c: "compile_rule plain_lib sample_rule = Inr ?cn"
    by (simp add: compile_rule_def sample_rule_def compile_condition_def compile_matcher_def)
  have "eval_compiled_node plain_lib (probe_ctx []) ?cn"
    by (simp add: field_str_def probe_ctx_def eq_ignore_ascii_case_def to_ascii_lowercase_def)
  with c compilation_sound [OF c, of "probe_ctx []"] show ?thesis by (auto simp: sample_rule_def)
qed

section \<open>Rules whose conditions cannot be read\<close>

text \<open>C37. A rule of the database whose conditions do not deserialise is loaded with no conditions;
  with the default connective it then matches every request, although the direct evaluation of
  an empty list of conditions matches none.\<close>

theorem unreadable_rule_matches_all:
  assumes "top_level_tree (db_conditions row) = None" and "conds_from_json (db_conditions row) = None"
    and "db_script row = None" and "to_ascii_lowercase (db_condition_op row) \<noteq> ''or''"
  shows "\<exists>rule. from_db_rule node_from_json conds_from_json row = Some rule
    \<and> entry_matches lib ctx (from_rule_with_source lib rule SrcDb)
    \<and> \<not> eval_conditions lib ctx (cr_conditions rule) (cr_condition_op rule)"
  using assms
  by (simp add: from_db_rule_def entry_matches_def from_rule_with_source_def compile_rule_def condition_op_parse_str_def
      eval_conditions_def)

definition unreadable_row :: db_custom_rule where
  "unreadable_row = \<lparr>db_id = ''7'', db_host_code = ''*'', db_name = ''broken'', db_priority = 1, db_enabled = True,
     db_condition_op = ''and'', db_conditions = JNull, db_action = ''block'', db_action_status = 403, db_action_msg = None,
     db_script = None\<rparr>"

theorem unreadable_rule_matches_all_witness:
  "\<exists>rule. from_db_rule (\<lambda>_. None) (\<lambda>_. None) unreadable_row = Some rule
     \<and> entry_matches plain_lib (probe_ctx []) (from_rule_with_source plain_lib rule SrcDb)"
  using unreadable_rule_matches_all [of unreadable_row "\<lambda>_. None" "\<lambda>_. None" plain_lib "probe_ctx []"]
  by (auto simp: unreadable_row_def to_ascii_lowercase_def lower_char_def is_upper_def byte_def)

section \<open>Priorities\<close>

datatype engine_op =
    LoadHost string "custom_rule list" | AddRule custom_rule | AddFileRule custom_rule | ClearFileRules
  | RemoveRule string string

fun engine_step ::
  "('x, 'g, 'n) rule_lib \<Rightarrow> engine_op \<Rightarrow> ('x, 'g, 'n) custom_rules_engine \<Rightarrow> ('x, 'g, 'n) custom_rules_engine" where
  "engine_step lib (LoadHost h rules) s = custom_load_host lib h rules s"
| "engine_step lib (AddRule r) s = add_rule lib r s"
| "engine_step lib (AddFileRule r) s = add_file_rule lib r s"
| "engine_step lib ClearFileRules s = clear_file_rules s"
| "engine_step lib (RemoveRule h i) s = remove_rule h i s"

abbreviation priority :: "('x, 'g, 'n) rule_entry \<Rightarrow> int" where
  "priority e \<equiv> cr_priority (re_raw e)"

definition buckets_sorted :: "('x, 'g, 'n) custom_rules_engine \<Rightarrow> bool" where
  "buckets_sorted s \<longleftrightarrow> (\<forall>h b. am_get s h = Some b \<longrightarrow> sorted (map priority b))"

lemma sorted_by_priority: "sorted (map priority (by_priority es))"
  by (simp add: by_priority_def)

lemma sorted_map_filter: "sorted (map f xs) \<Longrightarrow> sorted (map f (filter P xs))"
  by (rule sorted_filter)

lemma clear_file_get: "am_get (clear_file_rules s) h = map_option (filter (\<lambda>e. re_source e \<noteq> SrcFile)) (am_get s h)"
  by (induction s) (auto simp: clear_file_rules_def am_get_def)

lemma engine_step_sorted: "buckets_sorted s \<Longrightarrow> buckets_sorted (engine_step lib op s)"
proof (cases op)
  case (RemoveRule h i)
  assume "buckets_sorted s"
  then show ?thesis by (auto simp: RemoveRule remove_rule_def buckets_sorted_def map_simps sorted_map_filter split: option.splits)
qed (auto simp: buckets_sorted_def custom_load_host_def add_rule_def add_file_rule_def insert_rule_def Let_def
    clear_file_get map_simps sorted_by_priority sorted_map_filter split: if_splits)

lemma engine_run_sorted: "buckets_sorted s \<Longrightarrow> buckets_sorted (fold (engine_step lib) ops s)"
  by (induction ops arbitrary: s) (simp_all add: engine_step_sorted)

definition matching :: "('x, 'g, 'n) rule_lib \<Rightarrow> request_ctx \<Rightarrow> ('x, 'g, 'n) custom_rules_engine \<Rightarrow> string \<Rightarrow> ('x, 'g, 'n) rule_entry list" where
  "matching lib ctx s h =
     filter (\<lambda>e. cr_enabled (re_raw e) \<and> entry_matches lib ctx e) (case am_get s h of Some b \<Rightarrow> b | None \<Rightarrow> [])"

lemma eval_list_filter:
  "eval_list lib ctx b = (case filter (\<lambda>e. cr_enabled (re_raw e) \<and> entry_matches lib ctx e) b of
     [] \<Rightarrow> None | e # _ \<Rightarrow> Some (rule_result (re_raw e)))"
  by (induction b) auto

lemma bucket_check:
  "(case am_get s h of None \<Rightarrow> None | Some b \<Rightarrow> eval_list lib ctx b) =
     (case matching lib ctx s h of [] \<Rightarrow> None | e # _ \<Rightarrow> Some (rule_result (re_raw e)))"
  by (simp add: matching_def eval_list_filter split: option.splits)

lemma first_is_least:
  assumes "sorted (map priority (e # es))"
  shows "priority e = Min (priority ` set (e # es))"
  using assms by (intro Min_eqI [symmetric]) auto

lemma decided_by_least:
  assumes "cands = e # es" and "sorted (map priority cands)" and "d = Some (rule_result (re_raw e))"
  shows "cands = [] \<and> d = None \<or> (\<exists>e\<in>set cands. d = Some (rule_result (re_raw e)) \<and> priority e = Min (priority ` set cands))"
proof -
  have "e \<in> set cands" "priority e = Min (priority ` set cands)"
    using assms(1) first_is_least [OF assms(2) [unfolded assms(1)]] unfolding assms(1) by simp_all
  with assms(3) show ?thesis by blast
qed

text \<open>C26. Priorities are respected whatever the history of the engine: after any sequence of loads,
  additions, removals and file reloads, the rule that decides is an enabled rule of the host that
  matches and has the least priority number among those, or, when no rule of the host matches,
  such a rule among the global ones.\<close>

theorem priority_respected:
  "let s = fold (engine_step lib) ops [];
       own = matching lib ctx s (hc_code (ctx_host_config ctx));
       cands = (if own = [] then matching lib ctx s ''*'' else own)
   in cands = [] \<and> custom_check lib s ctx = None
      \<or> (\<exists>e\<in>set cands. custom_check lib s ctx = Some (rule_result (re_raw e)) \<and> priority e = Min (priority ` set cands))"
proof -
  let ?s = "fold (engine_step lib) ops []"
  let ?m = "matching lib ctx ?s" and ?h = "hc_code (ctx_host_config ctx)"
  have "buckets_sorted ?s" by (rule engine_run_sorted) (simp add: buckets_sorted_def map_simps)
  then have sorted: "sorted (map priority (?m h))" for h
    by (auto simp: matching_def buckets_sorted_def sorted_map_filter split: option.splits)
  show ?thesis
  proof (cases "?m ?h")
    case own: Nil
    show ?thesis
    proof (cases "?m ''*''")
      case Nil
      then show ?thesis by (simp add: Let_def custom_check_def bucket_check own)
    next
      case (Cons e es)
      then have "custom_check lib ?s ctx = Some (rule_result (re_raw e))" by (simp add: custom_check_def bucket_check own)
      from decided_by_least [OF Cons sorted this] show ?thesis unfolding Let_def own by (simp only: if_True simp_thms)
    qed
  next
    case (Cons e es)
    then have "custom_check lib ?s ctx = Some (rule_result (re_raw e))" and "?m ?h \<noteq> []" by (simp_all add: custom_check_def bucket_check)
    from decided_by_least [OF Cons sorted this(1)] this(2) show ?thesis unfolding Let_def by (simp only: if_False simp_thms)
  qed
qed

end
