(* ===== verification/Owasp.thy ===== *)
theory Owasp
  imports CustomRules
begin

text \<open>
  The OWASP rule set (\<^verbatim>\<open>checks/owasp.rs\<close>): compilation of the rules of a YAML document, the walk
  over a rules directory, the fields a rule inspects and the paranoia filter.  The \<^verbatim>\<open>regex\<close> and
  \<^verbatim>\<open>libinjection\<close> crates, the YAML parser and the file system are parameters.
\<close>

section \<open>Rules\<close>

datatype yaml_value = YStr string | YList "string list" | YInt int

record yaml_rule =
  yr_id :: string
  yr_name :: string
  yr_paranoia :: nat
  yr_field :: string
  yr_operator :: string
  yr_value :: yaml_value
  yr_action :: string

record 'x owasp_lib =
  ow_regex_new :: "string \<Rightarrow> 'x option"
  ow_is_match :: "'x \<Rightarrow> string \<Rightarrow> bool"
  ow_detect_sqli :: "string \<Rightarrow> bool"
  ow_detect_xss :: "string \<Rightarrow> bool"
  ow_header_order :: "(string \<rightharpoonup> string) \<Rightarrow> string list"

definition is_routing_header :: "string \<Rightarrow> bool" where
  "is_routing_header name \<longleftrightarrow> name \<in> set
     [''host'', '':authority'', '':method'', '':path'', '':scheme'', ''accept'', ''accept-encoding'', ''accept-language'',
      ''connection'', ''content-length'', ''x-forwarded-host'', ''x-real-ip'']"

datatype 'x owasp_matcher =
    OwRegex 'x | OwContains string | OwNotIn "string list" | OwGt int | OwLt int | OwDetectSqli | OwDetectXss

record 'x owasp_rule =
  or_id :: string
  or_name :: string
  or_paranoia :: nat
  or_field :: string
  or_matcher :: "'x owasp_matcher"
  or_action :: string

definition owasp_matcher_of :: "'x owasp_lib \<Rightarrow> yaml_rule \<Rightarrow> 'x owasp_matcher option" where
  "owasp_matcher_of lib r =
     (if yr_operator r = ''regex'' then
        (case yr_value r of YStr s \<Rightarrow> map_option OwRegex (ow_regex_new lib s) | _ \<Rightarrow> None)
      else if yr_operator r = ''contains'' then (case yr_value r of YStr s \<Rightarrow> Some (OwContains s) | _ \<Rightarrow> None)
      else if yr_operator r = ''not_in'' then (case yr_value r of YList l \<Rightarrow> Some (OwNotIn l) | _ \<Rightarrow> None)
      else if yr_operator r = ''gt'' then (case yr_value r of YInt n \<Rightarrow> Some (OwGt n) | _ \<Rightarrow> None)
      else if yr_operator r = ''lt'' then (case yr_value r of YInt n \<Rightarrow> Some (OwLt n) | _ \<Rightarrow> None)
      else if yr_operator r = ''detect_sqli'' \<or> yr_operator r = ''@detectSQLi'' then Some OwDetectSqli
      else if yr_operator r = ''detect_xss'' \<or> yr_operator r = ''@detectXSS'' then Some OwDetectXss
      else None)"

definition owasp_compile_rule :: "'x owasp_lib \<Rightarrow> yaml_rule \<Rightarrow> 'x owasp_rule option" where
  "owasp_compile_rule lib r =
     (case owasp_matcher_of lib r of
        None \<Rightarrow> None
      | Some m \<Rightarrow> Some \<lparr>or_id = yr_id r, or_name = yr_name r, or_paranoia = yr_paranoia r, or_field = yr_field r,
                        or_matcher = m, or_action = yr_action r\<rparr>)"

section \<open>Matching\<close>

definition owasp_get_field :: "string \<Rightarrow> request_ctx \<Rightarrow> string option" where
  "owasp_get_field field ctx =
     (if field = ''method'' then Some (ctx_method ctx)
      else if field = ''path'' then Some (ctx_path ctx)
      else if field = ''query'' then Some (ctx_query ctx)
      else if field = ''content_length'' then Some (show_dec (ctx_content_length ctx))
      else if field = ''content_type'' \<or> field = ''header_content_type'' then ctx_headers ctx ''content-type''
      else if field = ''user_agent'' \<or> field = ''header_user_agent'' then ctx_headers ctx ''user-agent''
      else if field = ''body'' then Some (from_utf8_lossy (ctx_body_preview ctx))
      else if field = ''path_length'' then Some (show_dec (length (ctx_path ctx)))
      else if field = ''query_arg_count''
      then Some (show_dec (length (filter (\<lambda>s. s \<noteq> []) (split_on (CHR ''&'') (ctx_query ctx)))))
      else None)"

text \<open>A value is tested as it is, decoded once and decoded three times.\<close>

definition test_with_decoded :: "(string \<Rightarrow> bool) \<Rightarrow> string \<Rightarrow> bool" where
  "test_with_decoded P raw =
     (if P raw then True
      else let decoded = url_decode raw
           in if decoded \<noteq> raw \<and> P decoded then True
              else let recursive = url_decode_recursive raw in recursive \<noteq> decoded \<and> P recursive)"

definition payload_headers :: "'x owasp_lib \<Rightarrow> request_ctx \<Rightarrow> string list" where
  "payload_headers lib ctx =
     map (\<lambda>k. case ctx_headers ctx k of Some v \<Rightarrow> v | None \<Rightarrow> [])
       (filter (\<lambda>k. \<not> is_routing_header k) (ow_header_order lib (ctx_headers ctx)))"

definition regex_matches :: "'x owasp_lib \<Rightarrow> string \<Rightarrow> 'x \<Rightarrow> request_ctx \<Rightarrow> bool" where
  "regex_matches lib field re ctx =
     (if field = ''all''
      then if test_with_decoded (ow_is_match lib re) (ctx_path ctx) then True
           else if test_with_decoded (ow_is_match lib re) (ctx_query ctx) then True
           else if test_with_decoded (ow_is_match lib re) (from_utf8_lossy (ctx_body_preview ctx)) then True
           else list_ex (test_with_decoded (ow_is_match lib re)) (payload_headers lib ctx)
      else (case owasp_get_field field ctx of Some v \<Rightarrow> test_with_decoded (ow_is_match lib re) v | None \<Rightarrow> False))"

definition detect_injection :: "'x owasp_lib \<Rightarrow> string \<Rightarrow> request_ctx \<Rightarrow> (string \<Rightarrow> bool) \<Rightarrow> bool" where
  "detect_injection lib field ctx detector =
     (if field = ''all''
      then test_with_decoded detector (ctx_path ctx) \<or> test_with_decoded detector (ctx_query ctx)
           \<or> detector (ctx_body_preview ctx) \<or> test_with_decoded detector (from_utf8_lossy (ctx_body_preview ctx))
           \<or> list_ex (test_with_decoded detector) (payload_headers lib ctx)
      else (case owasp_get_field field ctx of Some v \<Rightarrow> test_with_decoded detector v | None \<Rightarrow> False))"

definition owasp_rule_matches :: "'x owasp_lib \<Rightarrow> 'x owasp_rule \<Rightarrow> request_ctx \<Rightarrow> bool" where
  "owasp_rule_matches lib r ctx =
     (let field_val = owasp_get_field (or_field r) ctx;
          on_field = (\<lambda>P. case field_val of Some v \<Rightarrow> P v | None \<Rightarrow> False)
      in case or_matcher r of
           OwRegex re \<Rightarrow> regex_matches lib (or_field r) re ctx
         | OwContains s \<Rightarrow> on_field (sublist s)
         | OwNotIn l \<Rightarrow> on_field (\<lambda>v. \<not> list_ex (\<lambda>allowed. eq_ignore_ascii_case allowed v) l)
         | OwGt n \<Rightarrow> on_field (compares (\<lambda>v. n < v))
         | OwLt n \<Rightarrow> on_field (compares (\<lambda>v. v < n))
         | OwDetectSqli \<Rightarrow> detect_injection lib (or_field r) ctx (ow_detect_sqli lib)
         | OwDetectXss \<Rightarrow> detect_injection lib (or_field r) ctx (ow_detect_xss lib))"

section \<open>Loading\<close>

text \<open>The rules directory: a tree of directories and files, an unreadable directory or file being
  \<open>None\<close>; a document that is not a rule set does not parse.\<close>

datatype rules_entry = RulesDir "rules_entry list option" | RulesFile string "string option"

fun walk_directory :: "'x owasp_lib \<Rightarrow> (string \<Rightarrow> yaml_rule list option) \<Rightarrow> rules_entry list option \<Rightarrow> 'x owasp_rule list"
  and walk_entry :: "'x owasp_lib \<Rightarrow> (string \<Rightarrow> yaml_rule list option) \<Rightarrow> rules_entry \<Rightarrow> 'x owasp_rule list"
  and walk_entries :: "'x owasp_lib \<Rightarrow> (string \<Rightarrow> yaml_rule list option) \<Rightarrow> rules_entry list \<Rightarrow> 'x owasp_rule list" where
  "walk_directory lib parse None = []"
| "walk_directory lib parse (Some entries) = walk_entries lib parse entries"
| "walk_entry lib parse (RulesDir d) = walk_directory lib parse d"
| "walk_entry lib parse (RulesFile extension content) =
     (if extension \<noteq> ''yaml'' then []
      else case content of
             None \<Rightarrow> []
           | Some c \<Rightarrow> (case parse c of None \<Rightarrow> [] | Some rules \<Rightarrow> List.map_filter (owasp_compile_rule lib) rules))"
| "walk_entries lib parse [] = []"
| "walk_entries lib parse (e # es) = walk_entry lib parse e @ walk_entries lib parse es"

definition owasp_from_yaml :: "'x owasp_lib \<Rightarrow> (string \<Rightarrow> yaml_rule list option) \<Rightarrow> string \<Rightarrow> 'x owasp_rule list" where
  "owasp_from_yaml lib parse yaml =
     (case parse yaml of None \<Rightarrow> [] | Some rules \<Rightarrow> List.map_filter (owasp_compile_rule lib) rules)"

text \<open>The embedded fallback document, by the rules it contains.\<close>

definition EMBEDDED_RULES :: "yaml_rule list" where
  "EMBEDDED_RULES =
     [\<lparr>yr_id = ''BUILTIN-911100'', yr_name = ''Method is not allowed by policy'', yr_paranoia = 1, yr_field = ''method'',
       yr_operator = ''not_in'',
       yr_value = YList [''GET'', ''POST'', ''PUT'', ''DELETE'', ''PATCH'', ''HEAD'', ''OPTIONS'', ''CONNECT'', ''TRACE''],
       yr_action = ''block''\<rparr>,
      \<lparr>yr_id = ''BUILTIN-920160'', yr_name = ''Request body too large (>10 MB)'', yr_paranoia = 1, yr_field = ''content_length'',
       yr_operator = ''gt'', yr_value = YInt 10485760, yr_action = ''block''\<rparr>,
      \<lparr>yr_id = ''BUILTIN-944150'', yr_name = ''Potential RCE: Log4j / Log4shell JNDI injection'', yr_paranoia = 1,
       yr_field = ''all'', yr_operator = ''regex'',
       yr_value = YStr (unbang ''(?i)(?:!$|&dollar;?)(?:!{|&l(?:brace|cub);?)(?:[^!}]{0,15}(?:!$|&dollar;?)(?:!{|&l(?:brace|cub);?)|jndi|ctx)''),
       yr_action = ''block''\<rparr>]"

definition owasp_new ::
  "'x owasp_lib \<Rightarrow> (string \<Rightarrow> yaml_rule list option) \<Rightarrow> rules_entry list option option \<Rightarrow> 'x owasp_rule list" where
  "owasp_new lib parse dir =
     (let embedded = List.map_filter (owasp_compile_rule lib) EMBEDDED_RULES
      in case dir of
           None \<Rightarrow> embedded
         | Some d \<Rightarrow> let loaded = walk_directory lib parse d in if 0 < length loaded then loaded else embedded)"

fun owasp_rules_check :: "'x owasp_lib \<Rightarrow> nat \<Rightarrow> request_ctx \<Rightarrow> 'x owasp_rule list \<Rightarrow> detection_result option" where
  "owasp_rules_check lib paranoia ctx [] = None"
| "owasp_rules_check lib paranoia ctx (r # rs) =
     (if paranoia < or_paranoia r then owasp_rules_check lib paranoia ctx rs
      else if owasp_rule_matches lib r ctx
      then Some \<lparr>dr_rule_id = Some (or_id r), dr_rule_name = or_name r, dr_phase = Owasp,
                 dr_detail = ''OWASP rule '' @ or_id r @ '' triggered ('' @ or_name r @ '')''\<rparr>
      else owasp_rules_check lib paranoia ctx rs)"

definition owasp_check :: "'x owasp_lib \<Rightarrow> 'x owasp_rule list \<Rightarrow> request_ctx \<Rightarrow> detection_result option" where
  "owasp_check lib rules ctx =
     (if \<not> dc_owasp_set (defense ctx) then None
      else owasp_rules_check lib (dc_owasp_paranoia (defense ctx)) ctx rules)"

section \<open>What the rules see\<close>

lemma test_with_decoded_iff:
  "test_with_decoded P v \<longleftrightarrow> P v \<or> P (url_decode v) \<or> P (url_decode_recursive v)"
  by (auto simp: test_with_decoded_def Let_def)

lemma owasp_rules_check_iff:
  "owasp_rules_check lib p ctx rs \<noteq> None \<longleftrightarrow> (\<exists>r\<in>set rs. or_paranoia r \<le> p \<and> owasp_rule_matches lib r ctx)"
  by (induction rs) auto

text \<open>The values a rule on all fields looks at.\<close>

definition owasp_sees :: "'x owasp_lib \<Rightarrow> request_ctx \<Rightarrow> string \<Rightarrow> bool" where
  "owasp_sees lib ctx v \<longleftrightarrow> v = ctx_path ctx \<or> v = ctx_query ctx \<or> v = from_utf8_lossy (ctx_body_preview ctx)
     \<or> (\<exists>k. k \<in> set (ow_header_order lib (ctx_headers ctx)) \<and> \<not> is_routing_header k \<and> ctx_headers ctx k = Some v)"

lemma all_fields_seen:
  assumes "owasp_sees lib ctx v" and "test_with_decoded P v"
  shows "test_with_decoded P (ctx_path ctx) \<or> test_with_decoded P (ctx_query ctx)
    \<or> test_with_decoded P (from_utf8_lossy (ctx_body_preview ctx)) \<or> list_ex (test_with_decoded P) (payload_headers lib ctx)"
  using assms by (auto simp: owasp_sees_def payload_headers_def list_ex_iff intro!: bexI)

text \<open>A rule set that is switched on catches encoded payloads in every place it looks at: if a
  rule on all fields within the paranoia level matches the plain payload by its expression or its
  injection detector, a request with the payload encoded up to three times in the path, the query,
  the body or any header that is not a routing header is detected.\<close>

theorem owasp_detects_encoded:
  assumes "dc_owasp_set (defense ctx)" and "r \<in> set rules" and "or_paranoia r \<le> dc_owasp_paranoia (defense ctx)"
    and "or_field r = ''all''"
    and "or_matcher r = OwRegex re \<and> ow_is_match lib re s \<or> or_matcher r = OwDetectSqli \<and> ow_detect_sqli lib s
       \<or> or_matcher r = OwDetectXss \<and> ow_detect_xss lib s"
    and "owasp_sees lib ctx e" and "encoded n s e" and "n \<le> 3" and "ascii s" and "url_decode s = s"
  shows "owasp_check lib rules ctx \<noteq> None"
proof -
  have test: "P s \<Longrightarrow> test_with_decoded P e" for P
    using three_passes [OF assms(9,7,8,10)] by (simp add: test_with_decoded_iff)
  note seen = all_fields_seen [OF assms(6) test]
  have "owasp_rule_matches lib r ctx"
    using assms(5)
  proof (elim disjE conjE)
    assume "or_matcher r = OwRegex re" "ow_is_match lib re s"
    with seen [of "ow_is_match lib re"] show ?thesis by (simp add: owasp_rule_matches_def assms(4) regex_matches_def) blast
  next
    assume "or_matcher r = OwDetectSqli" "ow_detect_sqli lib s"
    with seen [of "ow_detect_sqli lib"] show ?thesis by (simp add: owasp_rule_matches_def assms(4) detect_injection_def) blast
  next
    assume "or_matcher r = OwDetectXss" "ow_detect_xss lib s"
    with seen [of "ow_detect_xss lib"] show ?thesis by (simp add: owasp_rule_matches_def assms(4) detect_injection_def) blast
  qed
  then show ?thesis using assms(1-3) owasp_rules_check_iff [of lib _ ctx rules] by (auto simp: owasp_check_def)
qed

definition substring_owasp :: "string owasp_lib" where
  "substring_owasp = \<lparr>ow_regex_new = Some, ow_is_match = sublist, ow_detect_sqli = \<lambda>_. False, ow_detect_xss = \<lambda>_. False,
     ow_header_order = \<lambda>_. []\<rparr>"

definition strict_ctx :: "string \<Rightarrow> request_ctx" where
  "strict_ctx query = (probe_ctx query)\<lparr>ctx_host_config := host_config_default\<lparr>hc_defense_config :=
     defense_config_default\<lparr>dc_owasp_set := True\<rparr>\<rparr>\<rparr>"

definition sample_owasp :: "string owasp_rule" where
  "sample_owasp = \<lparr>or_id = ''1'', or_name = ''t'', or_paranoia = 1, or_field = ''all'', or_matcher = OwRegex ''b'',
     or_action = ''block''\<rparr>"

theorem owasp_detects_encoded_witness:
  "owasp_check substring_owasp [sample_owasp] (strict_ctx ''<%62'') \<noteq> None"
proof -
  have digit: "to_digit 16 (CHR ''6'') = Some 6" "to_digit 16 (CHR ''2'') = Some 2" by (simp_all add: to_digit_def byte_def)
  have code: "char_of (6 * 16 + 2 :: nat) = CHR ''b''" by code_simp
  have "url_encodes ''<b'' ''<%62''" using enc_plain [OF enc_hex [OF enc_nil digit], of "CHR ''<''"] by (simp only: code) simp
  then have enc: "encoded 1 ''<b'' ''<%62''" by simp
  have plain: "ascii ''<b''" by (simp add: ascii_def byte_def)
  then have "url_decode ''<b'' = ''<b''" by (simp add: url_decode_def lossy_ascii)
  moreover have "sublist ''b'' ''<b''" by (simp add: sublist_code)
  ultimately show ?thesis
    using enc plain
    by (intro owasp_detects_encoded [where r = sample_owasp and s = "''<b''" and e = "''<%62''" and n = 1 and re = "''b''"])
      (simp_all add: strict_ctx_def probe_ctx_def host_config_default_def defense_config_default_def substring_owasp_def
        owasp_sees_def sample_owasp_def)
qed

end
