(* ===== verification/TxVelocity.thy ===== *)
theory TxVelocity
  imports Common "HOL-Library.Sublist"
begin

text \<open>
  Transaction velocity (\<^verbatim>\<open>checks/tx_velocity\<close>): the configuration and its validation, the role
  tagger, session keys, the ring of recent events of an actor, the three classifiers and the
  recorder with its cooldown.  Times are milliseconds since the recorder started, as natural
  numbers, whose subtraction is the saturating one of the code.  The \<^verbatim>\<open>regex\<close> crate and the YAML
  parser are parameters.
\<close>

section \<open>Configuration\<close>

datatype endpoint_role = Login | Otp | Deposit | Withdrawal | LimitChange | NoRole

record tx_event =
  ev_role :: endpoint_role
  ev_ts_ms :: nat
  ev_ok :: bool

record role_rule =
  rr_role :: endpoint_role
  rr_path :: string

record velocity_cfg =
  vc_max_count :: nat
  vc_window_ms :: nat

record classifier_configs =
  cl_sequence_min_human_ms :: "nat option"
  cl_withdrawal_velocity :: "velocity_cfg option"
  cl_limit_change_velocity :: "velocity_cfg option"

definition classifier_configs_default :: classifier_configs where
  "classifier_configs_default =
     \<lparr>cl_sequence_min_human_ms = None, cl_withdrawal_velocity = None, cl_limit_change_velocity = None\<rparr>"

record tx_file_config =
  tf_schema_version :: nat
  tf_enabled :: bool
  tf_session_cookie :: string
  tf_signal_cooldown_ms :: nat
  tf_session_ttl_secs :: nat
  tf_janitor_period_secs :: nat
  tf_endpoint_roles :: "role_rule list"
  tf_classifiers :: classifier_configs

definition TX_SCHEMA_VERSION :: nat where "TX_SCHEMA_VERSION = 1"

definition tx_file_default :: tx_file_config where
  "tx_file_default =
     \<lparr>tf_schema_version = TX_SCHEMA_VERSION, tf_enabled = False, tf_session_cookie = ''SESSIONID'',
      tf_signal_cooldown_ms = 5000, tf_session_ttl_secs = 600, tf_janitor_period_secs = 60, tf_endpoint_roles = [],
      tf_classifiers = classifier_configs_default\<rparr>"

type_synonym 'x role_tagger = "(endpoint_role \<times> 'x) list"

fun tagger_compile :: "(string \<Rightarrow> 'x option) \<Rightarrow> role_rule list \<Rightarrow> 'x role_tagger option" where
  "tagger_compile re_new [] = Some []"
| "tagger_compile re_new (r # rs) =
     (case re_new (rr_path r) of
        None \<Rightarrow> None
      | Some re \<Rightarrow> (case tagger_compile re_new rs of None \<Rightarrow> None | Some ts \<Rightarrow> Some ((rr_role r, re) # ts)))"

fun tagger_classify :: "('x \<Rightarrow> string \<Rightarrow> bool) \<Rightarrow> 'x role_tagger \<Rightarrow> string \<Rightarrow> endpoint_role" where
  "tagger_classify is_match [] path = NoRole"
| "tagger_classify is_match ((role, re) # ts) path = (if is_match re path then role else tagger_classify is_match ts path)"

record 'x tx_config =
  tx_enabled :: bool
  tx_session_cookie :: string
  tx_signal_cooldown_ms :: nat
  tx_session_ttl_secs :: nat
  tx_janitor_period_secs :: nat
  tx_role_tagger :: "'x role_tagger"
  tx_classifiers :: classifier_configs

definition tx_config_default :: "'x tx_config" where
  "tx_config_default =
     \<lparr>tx_enabled = False, tx_session_cookie = ''SESSIONID'', tx_signal_cooldown_ms = 5000, tx_session_ttl_secs = 600,
      tx_janitor_period_secs = 60, tx_role_tagger = [], tx_classifiers = classifier_configs_default\<rparr>"

datatype 'y tx_error =
    TxParse 'y | TxSchemaVersion nat | TxEmptyCookie | TxZeroTtl | TxZeroJanitor | TxEmptyPath nat | TxNestedQuantifier nat
  | TxRegex

fun tx_validate_roles :: "nat \<Rightarrow> role_rule list \<Rightarrow> 'y tx_error option" where
  "tx_validate_roles idx [] = None"
| "tx_validate_roles idx (r # rs) =
     (if rr_path r = [] then Some (TxEmptyPath idx)
      else if sublist ''*)*'' (rr_path r) \<or> sublist ''+)+'' (rr_path r) then Some (TxNestedQuantifier idx)
      else tx_validate_roles (Suc idx) rs)"

definition tx_validate :: "tx_file_config \<Rightarrow> 'y tx_error option" where
  "tx_validate c =
     (if tf_schema_version c \<noteq> TX_SCHEMA_VERSION then Some (TxSchemaVersion (tf_schema_version c))
      else if tf_session_cookie c = [] then Some TxEmptyCookie
      else if tf_session_ttl_secs c = 0 then Some TxZeroTtl
      else if tf_janitor_period_secs c = 0 then Some TxZeroJanitor
      else tx_validate_roles 0 (tf_endpoint_roles c))"

definition tx_into_runtime :: "(string \<Rightarrow> 'x option) \<Rightarrow> tx_file_config \<Rightarrow> 'y tx_error + 'x tx_config" where
  "tx_into_runtime re_new c =
     (case if tf_enabled c then tagger_compile re_new (tf_endpoint_roles c) else Some [] of
        None \<Rightarrow> Inl TxRegex
      | Some tagger \<Rightarrow>
          Inr \<lparr>tx_enabled = tf_enabled c, tx_session_cookie = tf_session_cookie c,
               tx_signal_cooldown_ms = tf_signal_cooldown_ms c, tx_session_ttl_secs = tf_session_ttl_secs c,
               tx_janitor_period_secs = tf_janitor_period_secs c, tx_role_tagger = tagger, tx_classifiers = tf_classifiers c\<rparr>)"

definition tx_from_yaml_str ::
  "(string \<Rightarrow> 'y + tx_file_config) \<Rightarrow> (string \<Rightarrow> 'x option) \<Rightarrow> string \<Rightarrow> 'y tx_error + 'x tx_config" where
  "tx_from_yaml_str parse re_new s =
     (case parse s of
        Inl e \<Rightarrow> Inl (TxParse e)
      | Inr c \<Rightarrow> (case tx_validate c of Some e \<Rightarrow> Inl e | None \<Rightarrow> tx_into_runtime re_new c))"

definition tx_reload ::
  "(string \<Rightarrow> 'y + tx_file_config) \<Rightarrow> (string \<Rightarrow> 'x option) \<Rightarrow> string option \<Rightarrow> 'x tx_config \<Rightarrow> 'x tx_config" where
  "tx_reload parse re_new file cur =
     (case file of
        None \<Rightarrow> cur
      | Some raw \<Rightarrow> (case tx_from_yaml_str parse re_new raw of Inr cfg \<Rightarrow> cfg | Inl _ \<Rightarrow> cur))"

section \<open>Session keys\<close>

record fp_key =
  fk_ja3 :: "string option"
  fk_ja4 :: "string option"
  fk_h2_akamai :: "string option"

definition fp_key_default :: fp_key where
  "fp_key_default = \<lparr>fk_ja3 = None, fk_ja4 = None, fk_h2_akamai = None\<rparr>"

definition fp_key_is_empty :: "fp_key \<Rightarrow> bool" where
  "fp_key_is_empty k \<longleftrightarrow> fk_ja3 k = None \<and> fk_ja4 k = None \<and> fk_h2_akamai k = None"

datatype session_ident = IdentCookie string | IdentFingerprint fp_key

record session_key =
  sk_host :: string
  sk_ident :: session_ident

definition extract_session_key :: "request_ctx \<Rightarrow> string \<Rightarrow> fp_key option \<Rightarrow> session_key option" where
  "extract_session_key ctx cookie_name fp =
     (let fallback = (case fp of
                        Some key \<Rightarrow> if \<not> fp_key_is_empty key
                                    then Some \<lparr>sk_host = ctx_host ctx, sk_ident = IdentFingerprint key\<rparr> else None
                      | None \<Rightarrow> None)
      in case ctx_cookies ctx cookie_name of
           Some value \<Rightarrow> if value \<noteq> [] then Some \<lparr>sk_host = ctx_host ctx, sk_ident = IdentCookie value\<rparr> else fallback
         | None \<Rightarrow> fallback)"

fun fp_key_for_submission :: "session_ident \<Rightarrow> fp_key" where
  "fp_key_for_submission (IdentFingerprint fp) = fp"
| "fp_key_for_submission (IdentCookie v) = fp_key_default"

section \<open>The ring of an actor\<close>

definition WINDOW :: nat where "WINDOW = 16"

record actor_tx =
  at_events :: "tx_event option list"
  at_head :: nat
  at_len :: nat
  at_updated_ms :: nat
  at_last_signal_ms :: nat

definition actor_new :: actor_tx where
  "actor_new = \<lparr>at_events = replicate WINDOW None, at_head = 0, at_len = 0, at_updated_ms = 0, at_last_signal_ms = 0\<rparr>"

definition actor_record :: "tx_event \<Rightarrow> actor_tx \<Rightarrow> actor_tx" where
  "actor_record e a =
     a\<lparr>at_events := (if at_head a < length (at_events a) then (at_events a)[at_head a := Some e] else at_events a),
       at_head := (at_head a + 1) mod WINDOW,
       at_len := (if at_len a < WINDOW then at_len a + 1 else at_len a),
       at_updated_ms := ev_ts_ms e\<rparr>"

definition actor_events :: "actor_tx \<Rightarrow> tx_event list" where
  "actor_events a =
     (let start = (if at_len a < WINDOW then 0 else at_head a)
      in List.map_filter (\<lambda>i. let j = (start + i) mod WINDOW in if j < length (at_events a) then at_events a ! j else None)
           [0..<at_len a])"

record actor_snapshot =
  as_events :: "tx_event list"
  as_updated_ms :: nat
  as_last_signal_ms :: nat

section \<open>Classifiers\<close>

datatype tx_signal =
    TxSequenceTooFast endpoint_role endpoint_role nat
  | WithdrawalVelocity nat nat
  | LimitChangeBurst nat nat

type_synonym 'x classifier = "actor_snapshot \<Rightarrow> nat \<Rightarrow> 'x tx_config \<Rightarrow> tx_signal option"

definition evaluate_velocity :: "actor_snapshot \<Rightarrow> nat \<Rightarrow> velocity_cfg \<Rightarrow> endpoint_role \<Rightarrow> (nat \<times> nat) option" where
  "evaluate_velocity snap now cfg role =
     (if vc_window_ms cfg = 0 then None
      else let cutoff = now - vc_window_ms cfg;
               n = min u32_max (length (filter (\<lambda>e. ev_role e = role \<and> cutoff \<le> ev_ts_ms e) (as_events snap)))
           in if vc_max_count cfg < n
              then Some (n, min u32_max ((vc_window_ms cfg + 999) div 1000))
              else None)"

definition withdrawal_velocity :: "'x classifier" where
  "withdrawal_velocity snap now cfg =
     (case cl_withdrawal_velocity (tx_classifiers cfg) of
        None \<Rightarrow> None
      | Some vcfg \<Rightarrow> map_option (\<lambda>(n, w). WithdrawalVelocity n w) (evaluate_velocity snap now vcfg Withdrawal))"

definition limit_change_burst :: "'x classifier" where
  "limit_change_burst snap now cfg =
     (case cl_limit_change_velocity (tx_classifiers cfg) of
        None \<Rightarrow> None
      | Some vcfg \<Rightarrow> map_option (\<lambda>(n, w). LimitChangeBurst n w) (evaluate_velocity snap now vcfg LimitChange))"

definition TRANSITIONS :: "(endpoint_role \<times> endpoint_role) list" where
  "TRANSITIONS = [(Login, Otp), (Otp, Deposit)]"

definition sequence_timing :: "'x classifier" where
  "sequence_timing snap now cfg =
     (case cl_sequence_min_human_ms (tx_classifiers cfg) of
        None \<Rightarrow> None
      | Some min_human_ms \<Rightarrow>
          (case rev (as_events snap) of
             [] \<Rightarrow> None
           | newest # older \<Rightarrow>
               (case List.find (\<lambda>(_, to). to = ev_role newest) TRANSITIONS of
                  None \<Rightarrow> None
                | Some (from, to) \<Rightarrow>
                    (case List.find (\<lambda>e. ev_role e = from) older of
                       None \<Rightarrow> None
                     | Some prior \<Rightarrow>
                         let interval_ms = ev_ts_ms newest - ev_ts_ms prior
                         in if interval_ms < min_human_ms then Some (TxSequenceTooFast from to interval_ms) else None))))"

definition default_classifiers :: "'x classifier list" where
  "default_classifiers = [sequence_timing, withdrawal_velocity, limit_change_burst]"

section \<open>The recorder\<close>

type_synonym tx_store = "(session_key, actor_tx) amap"

definition tx_snapshot :: "tx_store \<Rightarrow> session_key \<Rightarrow> actor_snapshot option" where
  "tx_snapshot s key =
     map_option (\<lambda>v. \<lparr>as_events = actor_events v, as_updated_ms = at_updated_ms v, as_last_signal_ms = at_last_signal_ms v\<rparr>)
       (am_get s key)"

definition mark_signal :: "session_key \<Rightarrow> nat \<Rightarrow> tx_store \<Rightarrow> tx_store" where
  "mark_signal key now s =
     (case am_get s key of None \<Rightarrow> s | Some a \<Rightarrow> am_put key (a\<lparr>at_last_signal_ms := now\<rparr>) s)"

text \<open>The submission to the aggregator, if there is one, is part of the result.\<close>

definition tx_record ::
  "'x classifier list \<Rightarrow> 'x tx_config \<Rightarrow> session_key \<Rightarrow> endpoint_role \<Rightarrow> bool \<Rightarrow> nat \<Rightarrow> tx_store \<Rightarrow>
   (fp_key \<times> tx_signal list) option \<times> tx_store" where
  "tx_record classifiers cfg key role ok now s =
     (if role = NoRole then (None, s)
      else let entry = (case am_get s key of Some a \<Rightarrow> a | None \<Rightarrow> actor_new);
               entry = actor_record \<lparr>ev_role = role, ev_ts_ms = now, ev_ok = ok\<rparr> entry;
               last_signal_ms = at_last_signal_ms entry;
               s = am_put key entry s
           in if classifiers = [] then (None, s)
              else if \<not> tx_enabled cfg then (None, s)
              else if now - last_signal_ms < tx_signal_cooldown_ms cfg \<and> last_signal_ms \<noteq> 0 then (None, s)
              else (case tx_snapshot s key of
                      None \<Rightarrow> (None, s)
                    | Some snap \<Rightarrow>
                        let signals = List.map_filter (\<lambda>c. c snap now cfg) classifiers
                        in if signals = [] then (None, s)
                           else (Some (fp_key_for_submission (sk_ident key), signals), mark_signal key (max now 1) s)))"

definition tx_purge_expired :: "'x tx_config \<Rightarrow> nat \<Rightarrow> tx_store \<Rightarrow> nat \<times> tx_store" where
  "tx_purge_expired cfg now s =
     (let ttl_ms = min (2 ^ 64 - 1) (tx_session_ttl_secs cfg * 1000);
          cutoff = now - ttl_ms;
          kept = am_retain (\<lambda>_ v. \<not> at_updated_ms v < cutoff) s
      in (length s - length kept, kept))"

definition tx_check ::
  "('x \<Rightarrow> string \<Rightarrow> bool) \<Rightarrow> 'x classifier list \<Rightarrow> 'x tx_config \<Rightarrow> nat \<Rightarrow> request_ctx \<Rightarrow> tx_store \<Rightarrow>
   detection_result option \<times> (fp_key \<times> tx_signal list) option \<times> tx_store" where
  "tx_check is_match classifiers cfg now ctx s =
     (if \<not> tx_enabled cfg then (None, None, s)
      else let role = tagger_classify is_match (tx_role_tagger cfg) (ctx_path ctx)
           in if role = NoRole then (None, None, s)
              else (case extract_session_key ctx (tx_session_cookie cfg) None of
                      None \<Rightarrow> (None, None, s)
                    | Some key \<Rightarrow> (None, tx_record classifiers cfg key role True now s)))"

section \<open>The ring holds the latest events\<close>

definition ring_repr :: "tx_event list \<Rightarrow> actor_tx \<Rightarrow> bool" where
  "ring_repr es a \<longleftrightarrow> length (at_events a) = 16 \<and> at_head a = length es mod 16 \<and> at_len a = min 16 (length es)
     \<and> (\<forall>i<length es. length es \<le> i + 16 \<longrightarrow> at_events a ! (i mod 16) = Some (es ! i))"

lemma ring_new: "ring_repr [] actor_new"
  by (simp add: ring_repr_def actor_new_def WINDOW_def)

lemma mod_16_inj: "i mod 16 = n mod 16 \<Longrightarrow> n < i + 16 \<Longrightarrow> i < n \<Longrightarrow> False" for i n :: nat
proof -
  assume h: "i mod 16 = n mod 16" "n < i + 16" "i < n"
  then have "(n - i) mod 16 = 0" by (metis less_imp_le_nat mod_eq_dvd_iff_nat mod_0_imp_dvd dvd_imp_mod_0)
  with h show False by simp
qed

lemma ring_record:
  assumes "ring_repr es a"
  shows "ring_repr (es @ [e]) (actor_record e a)"
proof -
  let ?n = "length es"
  have len: "length (at_events a) = 16" and head: "at_head a = ?n mod 16" and l: "at_len a = min 16 ?n"
    and slots: "\<And>i. i < ?n \<Longrightarrow> ?n \<le> i + 16 \<Longrightarrow> at_events a ! (i mod 16) = Some (es ! i)"
    using assms by (auto simp: ring_repr_def)
  have "(at_events a)[?n mod 16 := Some e] ! (i mod 16) = Some ((es @ [e]) ! i)" if "i < Suc ?n" "Suc ?n \<le> i + 16" for i
  proof (cases "i = ?n")
    case False
    with that have "i mod 16 \<noteq> ?n mod 16" using mod_16_inj [of i ?n] by auto
    with False that slots [of i] show ?thesis by (simp add: nth_append)
  qed (simp add: len)
  moreover have "Suc (?n mod 16) mod 16 = Suc ?n mod 16" by (simp add: mod_Suc_eq)
  ultimately show ?thesis by (simp add: ring_repr_def actor_record_def len head l WINDOW_def)
qed

lemma ring_events:
  assumes "ring_repr es a"
  shows "actor_events a = drop (length es - 16) es"
proof -
  let ?n = "length es" and ?start = "if at_len a < 16 then 0 else at_head a"
  have len: "length (at_events a) = 16" and head: "at_head a = ?n mod 16" and l: "at_len a = min 16 ?n"
    and slots: "\<And>i. i < ?n \<Longrightarrow> ?n \<le> i + 16 \<Longrightarrow> at_events a ! (i mod 16) = Some (es ! i)"
    using assms by (auto simp: ring_repr_def)
  have slot: "at_events a ! ((?start + i) mod 16) = Some (es ! (?n - 16 + i))" if "i < min 16 ?n" for i
  proof (cases "?n < 16")
    case False
    then have "(?n mod 16 + i) mod 16 = (?n - 16 + i) mod 16"
      by (metis add.commute le_add_diff_inverse2 linorder_not_less mod_add_left_eq mod_add_self2 add.assoc)
    then show ?thesis using False that slots [of "?n - 16 + i"] by (simp add: l head)
  qed (use that slots [of i] in \<open>simp add: l\<close>)
  have "actor_events a = map (\<lambda>i. es ! (?n - 16 + i)) [0..<min 16 ?n]"
    by (simp add: actor_events_def Let_def WINDOW_def len List.map_filter_def l slot [unfolded l] filter_True)
  also have "\<dots> = drop (?n - 16) es" by (intro nth_equalityI) (auto simp: min_def)
  finally show ?thesis .
qed

text \<open>The ring refines a list: an actor shows exactly the latest sixteen of its events, oldest
  first, however many it recorded.\<close>

theorem ring_shows_latest:
  "actor_events (fold actor_record es actor_new) = drop (length es - 16) es"
proof -
  have "ring_repr es (fold actor_record es actor_new)"
    by (induction es rule: rev_induct) (simp_all add: ring_new ring_record)
  then show ?thesis by (rule ring_events)
qed

text \<open>A velocity threshold of sixteen or more can therefore never be exceeded.\<close>

lemma velocity_beyond_ring:
  assumes "16 \<le> vc_max_count cfg"
  shows "evaluate_velocity \<lparr>as_events = actor_events (fold actor_record es actor_new), as_updated_ms = u, as_last_signal_ms = l\<rparr>
    now cfg role = None"
proof -
  have "ring_repr es (fold actor_record es actor_new)"
    by (induction es rule: rev_induct) (simp_all add: ring_new ring_record)
  then have "length (actor_events (fold actor_record es actor_new)) \<le> 16" by (simp add: ring_events)
  then have "\<not> vc_max_count cfg < length (filter P (actor_events (fold actor_record es actor_new)))" for P
    using assms length_filter_le [of P "actor_events (fold actor_record es actor_new)"] by linarith
  then show ?thesis by (simp add: evaluate_velocity_def Let_def)
qed

section \<open>The cooldown\<close>

definition last_signal :: "tx_store \<Rightarrow> session_key \<Rightarrow> nat" where
  "last_signal s key = (case am_get s key of Some a \<Rightarrow> at_last_signal_ms a | None \<Rightarrow> 0)"

lemma actor_record_keeps_signal [simp]: "at_last_signal_ms (actor_record e a) = at_last_signal_ms a"
  by (simp add: actor_record_def)

lemma record_signal:
  assumes "tx_record cls cfg key role ok now s = (f, s')"
  shows "last_signal s' k = (if f \<noteq> None \<and> k = key then max now 1 else last_signal s k)"
    and "f \<noteq> None \<Longrightarrow> last_signal s key = 0 \<or> tx_signal_cooldown_ms cfg \<le> now - last_signal s key"
proof -
  define entry where "entry = actor_record \<lparr>ev_role = role, ev_ts_ms = now, ev_ok = ok\<rparr> (case am_get s key of Some a \<Rightarrow> a | None \<Rightarrow> actor_new)"
  have e: "at_last_signal_ms entry = last_signal s key"
    by (simp add: entry_def last_signal_def actor_new_def split: option.splits)
  have put: "last_signal (am_put key entry s) k = last_signal s k" for k
    using e by (auto simp: last_signal_def map_simps)
  have mark: "last_signal (mark_signal key t (am_put key entry s)) k = (if k = key then t else last_signal s k)" for t k
    using put [of k] by (auto simp: mark_signal_def last_signal_def map_simps)
  note step = assms [unfolded tx_record_def Let_def, folded entry_def, unfolded e]
  show "last_signal s' k = (if f \<noteq> None \<and> k = key then max now 1 else last_signal s k)"
    using step put mark by (auto split: if_splits option.splits)
  show "last_signal s key = 0 \<or> tx_signal_cooldown_ms cfg \<le> now - last_signal s key" if "f \<noteq> None"
    using step that by (auto split: if_splits option.splits)
qed

text \<open>The times at which an actor is reported over a run of the recorder.\<close>

fun fires :: "'x classifier list \<Rightarrow> 'x tx_config \<Rightarrow> session_key \<Rightarrow> (session_key \<times> endpoint_role \<times> bool \<times> nat) list \<Rightarrow> tx_store \<Rightarrow> nat list" where
  "fires cls cfg k [] s = []"
| "fires cls cfg k ((key, role, ok, now) # tr) s =
     (let (f, s') = tx_record cls cfg key role ok now s
      in (if f \<noteq> None \<and> key = k then [now] else []) @ fires cls cfg k tr s')"

lemma fires_after: "t \<in> set (fires cls cfg k tr s) \<Longrightarrow> last_signal s k = 0 \<or> tx_signal_cooldown_ms cfg \<le> t - last_signal s k"
proof (induction tr arbitrary: s)
  case (Cons e tr)
  obtain key role ok now where e: "e = (key, role, ok, now)" by (cases e)
  obtain f s' where step: "tx_record cls cfg key role ok now s = (f, s')" by fastforce
  note sig = record_signal [OF step]
  have "t = now \<and> f \<noteq> None \<and> key = k \<or> t \<in> set (fires cls cfg k tr s')"
    using Cons.prems by (auto simp: e step split: if_splits)
  then show ?case
  proof
    assume "t = now \<and> f \<noteq> None \<and> key = k"
    then show ?thesis using sig(2) by auto
  next
    assume later: "t \<in> set (fires cls cfg k tr s')"
    show ?thesis using Cons.IH [OF later] sig(1) [of k] sig(2) by (cases "f \<noteq> None \<and> k = key") auto
  qed
qed simp

text \<open>Reports of an actor are spaced by the cooldown: over any run of the recorder, with any
  classifiers and any other actors in between, two reports of the same actor are at least
  \<^verbatim>\<open>signal_cooldown_ms\<close> apart.\<close>

theorem reports_spaced:
  assumes "0 < tx_signal_cooldown_ms cfg"
  shows "sorted_wrt (\<lambda>a b. a + tx_signal_cooldown_ms cfg \<le> b) (fires cls cfg k tr s)"
proof (induction tr arbitrary: s)
  case (Cons e tr)
  obtain key role ok now where e: "e = (key, role, ok, now)" by (cases e)
  obtain f s' where step: "tx_record cls cfg key role ok now s = (f, s')" by fastforce
  have "now + tx_signal_cooldown_ms cfg \<le> t" if "f \<noteq> None" "key = k" "t \<in> set (fires cls cfg k tr s')" for t
    using fires_after [OF that(3)] record_signal(1) [OF step, of k] that(1,2) assms by auto
  then show ?case using Cons.IH [of s'] by (simp add: e step)
qed simp

definition sample_tx :: "unit tx_config" where
  "sample_tx = tx_config_default\<lparr>tx_enabled := True,
     tx_classifiers := classifier_configs_default\<lparr>cl_sequence_min_human_ms := Some 1500\<rparr>\<rparr>"

theorem reports_spaced_witness:
  "let k = \<lparr>sk_host = ''h'', sk_ident = IdentCookie ''c''\<rparr>
   in fires default_classifiers sample_tx k [(k, Login, True, 100), (k, Otp, True, 300), (k, Otp, True, 400)] [] = [300]
      \<and> sorted_wrt (\<lambda>a b. a + 5000 \<le> b) [300 :: nat]"
proof -
  let ?k = "\<lparr>sk_host = ''h'', sk_ident = IdentCookie ''c''\<rparr>"
  have "fires default_classifiers sample_tx ?k [(?k, Login, True, 100), (?k, Otp, True, 300), (?k, Otp, True, 400)] [] = [300]"
    by code_simp
  with reports_spaced [of sample_tx default_classifiers ?k "[(?k, Login, True, 100), (?k, Otp, True, 300), (?k, Otp, True, 400)]" "[]"]
  show ?thesis by (simp add: Let_def sample_tx_def tx_config_default_def)
qed

text \<open>The engine builds the recorder without classifiers: nothing is ever reported.\<close>

lemma no_classifiers_no_reports: "fires [] cfg k tr s = []"
proof (induction tr arbitrary: s)
  case (Cons e tr)
  then show ?case by (cases e) (auto simp: tx_record_def Let_def)
qed simp

end
