(* ===== verification/Reporter.thy ===== *)
theory Reporter
  imports Common
begin

text \<open>
  The community reporter (\<^verbatim>\<open>community/reporter.rs\<close>): detections become signals, wait in a bounded
  channel and are flushed in batches by one background task.  The events of the task's
  \<^verbatim>\<open>select!\<close> loop and the pushes of the request path interleave in any order; the ghost field
  \<open>rp_flushed\<close> records the batches handed to \<^verbatim>\<open>flush_batch\<close>.
\<close>

section \<open>Signals\<close>

record waf_signal =
  ws_source_ip :: string
  ws_scenario :: string
  ws_rule_id :: string
  ws_rule_name :: string
  ws_detail :: string
  ws_http_method :: string
  ws_request_path :: string
  ws_request_host :: string
  ws_geo_country :: string
  ws_confidence :: rat
  ws_signal_ts :: int

record request_info =
  ri_http_method :: string
  ri_request_path :: string
  ri_request_host :: string
  ri_geo_country :: "string option"

definition CHANNEL_CAP_MULTIPLIER :: nat where "CHANNEL_CAP_MULTIPLIER = 16"
definition CHANNEL_CAP_MIN :: nat where "CHANNEL_CAP_MIN = 1024"

definition compute_confidence :: "phase \<Rightarrow> rat" where
  "compute_confidence p = f64_rnd
     (case p of
        SqlInjection \<Rightarrow> 95 / 100 | Rce \<Rightarrow> 95 / 100
      | Xss \<Rightarrow> 90 / 100
      | DirTraversal \<Rightarrow> 85 / 100 | Owasp \<Rightarrow> 85 / 100
      | CustomRule \<Rightarrow> 80 / 100 | IpBlacklist \<Rightarrow> 80 / 100 | UrlBlacklist \<Rightarrow> 80 / 100
      | Sensitive \<Rightarrow> 70 / 100 | Scanner \<Rightarrow> 70 / 100 | Bot \<Rightarrow> 70 / 100
      | RateLimit \<Rightarrow> 60 / 100 | CrowdSec \<Rightarrow> 60 / 100 | Ddos \<Rightarrow> 60 / 100
      | Community \<Rightarrow> 50 / 100
      | GeoIp \<Rightarrow> 40 / 100 | AntiHotlink \<Rightarrow> 40 / 100
      | IpWhitelist \<Rightarrow> 30 / 100 | UrlWhitelist \<Rightarrow> 30 / 100)"

definition waf_signal_of :: "int \<Rightarrow> ip_addr \<Rightarrow> detection_result \<Rightarrow> request_info option \<Rightarrow> waf_signal" where
  "waf_signal_of now client_ip detection req_info =
     \<lparr>ws_source_ip = show_ip client_ip, ws_scenario = phase_str (dr_phase detection),
      ws_rule_id = (case dr_rule_id detection of Some i \<Rightarrow> i | None \<Rightarrow> ''unknown''),
      ws_rule_name = dr_rule_name detection, ws_detail = dr_detail detection,
      ws_http_method = (case req_info of Some r \<Rightarrow> ri_http_method r | None \<Rightarrow> []),
      ws_request_path = (case req_info of Some r \<Rightarrow> ri_request_path r | None \<Rightarrow> []),
      ws_request_host = (case req_info of Some r \<Rightarrow> ri_request_host r | None \<Rightarrow> []),
      ws_geo_country = (case Option.bind req_info ri_geo_country of Some c \<Rightarrow> c | None \<Rightarrow> ''unknown''),
      ws_confidence = compute_confidence (dr_phase detection), ws_signal_ts = now\<rparr>"

section \<open>The reporter and its flush task\<close>

datatype flush_task = NotStarted | Running | Stopped

record reporter =
  rp_batch_size :: nat
  rp_capacity :: nat
  rp_queue :: "waf_signal list"
  rp_dropped :: u64
  rp_task :: flush_task
  rp_batch :: "waf_signal list"
  rp_flushed :: "waf_signal list list"

definition reporter_new :: "nat \<Rightarrow> reporter" where
  "reporter_new batch_size =
     \<lparr>rp_batch_size = batch_size, rp_capacity = max (batch_size * CHANNEL_CAP_MULTIPLIER) CHANNEL_CAP_MIN,
      rp_queue = [], rp_dropped = 0, rp_task = NotStarted, rp_batch = [], rp_flushed = []\<rparr>"

text \<open>A full channel, or one whose receiver is gone, drops the signal.\<close>

definition try_send :: "waf_signal \<Rightarrow> reporter \<Rightarrow> bool \<times> reporter" where
  "try_send sig r =
     (if rp_task r \<noteq> Stopped \<and> length (rp_queue r) < rp_capacity r
      then (True, r\<lparr>rp_queue := rp_queue r @ [sig]\<rparr>)
      else (False, r))"

definition try_push_detection :: "int \<Rightarrow> ip_addr \<Rightarrow> detection_result \<Rightarrow> request_info option \<Rightarrow> reporter \<Rightarrow> bool \<times> reporter" where
  "try_push_detection now client_ip detection req_info r =
     (let (sent, r') = try_send (waf_signal_of now client_ip detection req_info) r
      in (sent, if sent then r' else r'\<lparr>rp_dropped := rp_dropped r' + 1\<rparr>))"

definition log_and_reset_drops :: "reporter \<Rightarrow> reporter" where
  "log_and_reset_drops r = r\<lparr>rp_dropped := 0\<rparr>"

definition flush_batch :: "waf_signal list \<Rightarrow> reporter \<Rightarrow> reporter" where
  "flush_batch batch r = (if batch = [] then r else r\<lparr>rp_flushed := rp_flushed r @ [batch]\<rparr>)"

definition drain_all :: "reporter \<Rightarrow> reporter" where
  "drain_all r = r\<lparr>rp_batch := rp_batch r @ rp_queue r, rp_queue := []\<rparr>"

definition drain_upto :: "reporter \<Rightarrow> reporter" where
  "drain_upto r =
     (let n = rp_batch_size r - length (rp_batch r)
      in r\<lparr>rp_batch := rp_batch r @ take n (rp_queue r), rp_queue := drop n (rp_queue r)\<rparr>)"

definition flush_pending :: "reporter \<Rightarrow> reporter" where
  "flush_pending r = (if rp_batch r = [] then r else flush_batch (rp_batch r) (r\<lparr>rp_batch := []\<rparr>))"

text \<open>The arms of the loop: the timer, a received signal (\<open>None\<close> when the channel is closed), and a
  change of the shutdown flag, which stops the task when it is set or its sender is gone.\<close>

definition on_timer :: "reporter \<Rightarrow> reporter" where
  "on_timer r = flush_pending (log_and_reset_drops (drain_all r))"

definition on_recv :: "reporter \<Rightarrow> reporter" where
  "on_recv r =
     (case rp_queue r of
        sig # rest \<Rightarrow>
          let r = drain_upto (r\<lparr>rp_batch := rp_batch r @ [sig], rp_queue := rest\<rparr>)
          in if rp_batch_size r \<le> length (rp_batch r) then flush_batch (rp_batch r) (r\<lparr>rp_batch := []\<rparr>) else r
      | [] \<Rightarrow> (flush_pending (log_and_reset_drops r))\<lparr>rp_task := Stopped\<rparr>)"

definition on_shutdown :: "bool \<Rightarrow> reporter \<Rightarrow> reporter" where
  "on_shutdown stop r = (if stop then (flush_pending (log_and_reset_drops (drain_all r)))\<lparr>rp_task := Stopped\<rparr> else r)"

datatype flush_event =
    Push int ip_addr detection_result "request_info option"
  | StartTask | Timer | Recv | ShutdownChanged bool

definition run_flush_task_step :: "flush_event \<Rightarrow> reporter \<Rightarrow> reporter" where
  "run_flush_task_step ev r =
     (case ev of
        Push now ip d i \<Rightarrow> snd (try_push_detection now ip d i r)
      | StartTask \<Rightarrow> if rp_task r = NotStarted then r\<lparr>rp_task := Running\<rparr> else r
      | Timer \<Rightarrow> if rp_task r = Running then on_timer r else r
      | Recv \<Rightarrow> if rp_task r = Running \<and> rp_queue r \<noteq> [] then on_recv r else r
      | ShutdownChanged stop \<Rightarrow> if rp_task r = Running then on_shutdown stop r else r)"

section \<open>Signals are flushed once, in order\<close>

text \<open>The signals the channel accepted during a run, in order.\<close>

fun accepted :: "flush_event list \<Rightarrow> reporter \<Rightarrow> waf_signal list" where
  "accepted [] r = []"
| "accepted (ev # evs) r =
     (case ev of
        Push now ip d i \<Rightarrow> if fst (try_push_detection now ip d i r) then [waf_signal_of now ip d i] else []
      | _ \<Rightarrow> []) @ accepted evs (run_flush_task_step ev r)"

definition pending :: "reporter \<Rightarrow> waf_signal list" where
  "pending r = concat (rp_flushed r) @ rp_batch r @ rp_queue r"

definition reporter_ok :: "reporter \<Rightarrow> bool" where
  "reporter_ok r \<longleftrightarrow> length (rp_queue r) \<le> rp_capacity r \<and> length (rp_batch r) < max 1 (rp_batch_size r)
     \<and> [] \<notin> set (rp_flushed r) \<and> (rp_task r = Stopped \<longrightarrow> rp_batch r = [] \<and> rp_queue r = [])"

lemmas flush_defs = run_flush_task_step_def try_push_detection_def try_send_def on_timer_def on_recv_def
  on_shutdown_def flush_pending_def flush_batch_def drain_all_def drain_upto_def log_and_reset_drops_def

lemma step_pending:
  "pending (run_flush_task_step ev r) =
     pending r @ (case ev of
        Push now ip d i \<Rightarrow> if fst (try_push_detection now ip d i r) then [waf_signal_of now ip d i] else []
      | _ \<Rightarrow> [])"
  by (cases ev) (auto simp: flush_defs pending_def Let_def split: list.splits)

lemma step_ok: "reporter_ok r \<Longrightarrow> reporter_ok (run_flush_task_step ev r)"
  by (cases ev) (auto simp: flush_defs reporter_ok_def Let_def split: list.splits if_splits)

lemma run_reporter:
  "reporter_ok r \<Longrightarrow>
   pending (fold run_flush_task_step evs r) = pending r @ accepted evs r \<and> reporter_ok (fold run_flush_task_step evs r)"
  by (induction evs arbitrary: r) (simp_all add: step_pending step_ok)


end
