(* ===== verification/Community.thy ===== *)
theory Community
  imports Reporter
begin

text \<open>
  The community blocklist (\<^verbatim>\<open>community/blocklist.rs\<close>), its checker (\<^verbatim>\<open>community/checker.rs\<close>) and
  the initialisation of the integration (\<^verbatim>\<open>community/mod.rs\<close>).  Responses of the server are inputs; the
  \<^verbatim>\<open>hex\<close>, \<^verbatim>\<open>ed25519-dalek\<close>, \<^verbatim>\<open>zstd\<close> and \<^verbatim>\<open>serde_json\<close> crates are parameters.  With a
  verification key the blocklist changes only by payloads the key signed; the version counter,
  however, is not covered by the signature of a full snapshot.
\<close>

section \<open>Responses\<close>

definition ED25519_SIGNATURE_LEN :: nat where "ED25519_SIGNATURE_LEN = 64"
definition ED25519_PUBKEY_LEN :: nat where "ED25519_PUBKEY_LEN = 32"
definition MAX_BLOCKLIST_RESPONSE_BYTES :: nat where "MAX_BLOCKLIST_RESPONSE_BYTES = 8 * 1024 * 1024"
definition MAX_DECOMPRESSED_BYTES :: nat where "MAX_DECOMPRESSED_BYTES = 16 * 1024 * 1024"
definition MAX_KEYS_RESPONSE_BYTES :: nat where "MAX_KEYS_RESPONSE_BYTES = 64 * 1024"
definition MAX_VERSION_RESPONSE_BYTES :: nat where "MAX_VERSION_RESPONSE_BYTES = 4096"
definition MAX_SIGNING_KEYS :: nat where "MAX_SIGNING_KEYS = 32"
definition MAX_FIELD_LEN :: nat where "MAX_FIELD_LEN = 256"
definition MAX_IP_LEN :: nat where "MAX_IP_LEN = 45"

record signed_response =
  sr_version :: u64
  sr_key_id :: "string option"
  sr_payload_hex :: string
  sr_signature_hex :: string

record blocklist_entry =
  be_ip :: string
  be_reason :: string
  be_source :: string

record delta_added =
  da_ip :: string
  da_scenario :: string
  da_action :: "string option"

record delta_payload =
  dp_from_version :: int
  dp_to_version :: int
  dp_added :: "delta_added list"
  dp_removed :: "string list"

record delta_response =
  dr_payload :: delta_payload
  dr_signature_hex :: "string option"
  dr_payload_hex :: "string option"

record signed_entry =
  se_ip :: ip_addr
  se_scenario :: string
  se_action :: string

record key_info =
  ki_key_id :: string
  ki_public_key_hex :: string
  ki_algorithm :: string
  ki_status :: string

record community_decision =
  cd_reason :: string
  cd_source :: string

record 'k community_lib =
  hex_decode :: "string \<Rightarrow> string option"
  key_from_bytes :: "string \<Rightarrow> 'k option"
  ed_verify :: "'k \<Rightarrow> string \<Rightarrow> string \<Rightarrow> bool"
  zstd_decode :: "string \<Rightarrow> string option"
  json_version :: "string \<Rightarrow> u64 option"
  json_signed :: "string \<Rightarrow> signed_response option"
  json_decoded :: "string \<Rightarrow> (u64 \<times> blocklist_entry list) option"
  json_delta :: "string \<Rightarrow> delta_response option"
  json_delta_payload :: "string \<Rightarrow> delta_payload option"
  json_entries :: "string \<Rightarrow> signed_entry list option"
  json_keys :: "string \<Rightarrow> key_info list option"

text \<open>An HTTP exchange: it fails, or gives a status, the announced length and the chunks of the
  body, a chunk that cannot be read being \<open>None\<close>.\<close>

record http_response =
  hr_status :: nat
  hr_content_length :: "nat option"
  hr_chunks :: "string option list"

type_synonym http_result = "http_response option"

abbreviation success :: "nat \<Rightarrow> bool" where "success status \<equiv> 200 \<le> status \<and> status < 300"

fun read_chunks :: "nat \<Rightarrow> string \<Rightarrow> string option list \<Rightarrow> string option" where
  "read_chunks max_bytes body [] = Some body"
| "read_chunks max_bytes body (None # cs) = None"
| "read_chunks max_bytes body (Some c # cs) =
     (if max_bytes < length body + length c then None else read_chunks max_bytes (body @ c) cs)"

definition read_response_body_limited :: "nat \<Rightarrow> http_response \<Rightarrow> string option" where
  "read_response_body_limited max_bytes resp =
     (case hr_content_length resp of
        Some cl \<Rightarrow> if max_bytes < cl then None else read_chunks max_bytes [] (hr_chunks resp)
      | None \<Rightarrow> read_chunks max_bytes [] (hr_chunks resp))"

text \<open>The reader is cut off one byte after the limit, so a longer output is noticed.\<close>

definition decompress_with_limit :: "'k community_lib \<Rightarrow> string \<Rightarrow> nat \<Rightarrow> string option" where
  "decompress_with_limit lib data max_bytes =
     (case zstd_decode lib data of
        None \<Rightarrow> None
      | Some out \<Rightarrow> let buf = take (max_bytes + 1) out in if max_bytes < length buf then None else Some buf)"

section \<open>Keys and signatures\<close>

definition parse_public_key :: "'k community_lib \<Rightarrow> string \<Rightarrow> 'k option" where
  "parse_public_key lib hex_str =
     (case hex_decode lib hex_str of
        None \<Rightarrow> None
      | Some bytes \<Rightarrow> if length bytes \<noteq> ED25519_PUBKEY_LEN then None else key_from_bytes lib bytes)"

fun select_keys :: "'k community_lib \<Rightarrow> key_info list \<Rightarrow> (string \<times> 'k) list" where
  "select_keys lib [] = []"
| "select_keys lib (k # ks) =
     (if ki_status k \<noteq> ''active'' then select_keys lib ks
      else if ki_algorithm k \<noteq> [] \<and> ki_algorithm k \<noteq> ''ed25519'' then select_keys lib ks
      else (case parse_public_key lib (ki_public_key_hex k) of
              Some vk \<Rightarrow> (ki_key_id k, vk) # select_keys lib ks
            | None \<Rightarrow> select_keys lib ks))"

definition fetch_signing_keys_from_server :: "'k community_lib \<Rightarrow> http_result \<Rightarrow> (string \<times> 'k) list option" where
  "fetch_signing_keys_from_server lib res =
     (case res of
        None \<Rightarrow> None
      | Some resp \<Rightarrow>
          if \<not> success (hr_status resp) then None
          else (case read_response_body_limited MAX_KEYS_RESPONSE_BYTES resp of
                  None \<Rightarrow> None
                | Some body \<Rightarrow>
                    (case json_keys lib body of
                       None \<Rightarrow> None
                     | Some keys \<Rightarrow> if MAX_SIGNING_KEYS < length keys then None else Some (select_keys lib keys))))"

definition verify_signature :: "'k community_lib \<Rightarrow> 'k \<Rightarrow> string \<Rightarrow> string \<Rightarrow> bool" where
  "verify_signature lib vk signature_hex payload_hex =
     (case hex_decode lib payload_hex of
        None \<Rightarrow> False
      | Some payload \<Rightarrow>
          (case hex_decode lib signature_hex of
             None \<Rightarrow> False
           | Some sig \<Rightarrow> if length sig \<noteq> ED25519_SIGNATURE_LEN then False else ed_verify lib vk payload sig))"

section \<open>The blocklist\<close>

record 'k blocklist_sync =
  bs_verify_key :: "'k option"
  bs_blocked_ips :: "(ip_addr, community_decision) amap"
  bs_current_version :: u64

definition blocklist_new :: "'k option \<Rightarrow> 'k blocklist_sync" where
  "blocklist_new vk = \<lparr>bs_verify_key = vk, bs_blocked_ips = [], bs_current_version = 0\<rparr>"

definition blocklist_check_ip :: "'k blocklist_sync \<Rightarrow> ip_addr \<Rightarrow> community_decision option" where
  "blocklist_check_ip s ip = am_get (bs_blocked_ips s) ip"

fun apply_removed :: "string list \<Rightarrow> (ip_addr, community_decision) amap \<Rightarrow> (ip_addr, community_decision) amap" where
  "apply_removed [] m = m"
| "apply_removed (e # es) m =
     (if MAX_IP_LEN < length e then apply_removed es m
      else (case ip_from_str e of Some ip \<Rightarrow> apply_removed es (am_del ip m) | None \<Rightarrow> apply_removed es m))"

fun apply_added :: "delta_added list \<Rightarrow> (ip_addr, community_decision) amap \<Rightarrow> (ip_addr, community_decision) amap" where
  "apply_added [] m = m"
| "apply_added (e # es) m =
     (if MAX_IP_LEN < length (da_ip e) \<or> MAX_FIELD_LEN < length (da_scenario e)
         \<or> (case da_action e of Some a \<Rightarrow> MAX_FIELD_LEN < length a | None \<Rightarrow> False)
      then apply_added es m
      else (case ip_from_str (da_ip e) of
              Some ip \<Rightarrow>
                apply_added es (am_put ip
                  \<lparr>cd_reason = da_scenario e,
                   cd_source = ''community-'' @ (case da_action e of Some a \<Rightarrow> a | None \<Rightarrow> ''block'')\<rparr> m)
            | None \<Rightarrow> apply_added es m))"

datatype pull_result = PullOk bool | PullErr

definition apply_delta :: "delta_payload \<Rightarrow> 'k blocklist_sync \<Rightarrow> pull_result \<times> 'k blocklist_sync" where
  "apply_delta d s =
     (if dp_to_version d \<le> 0 then (PullErr, s)
      else if dp_to_version d \<le> dp_from_version d then (PullErr, s)
      else if dp_from_version d \<noteq> sint (bs_current_version s) then (PullOk False, s)
      else if 5000 < length (dp_added d) + length (dp_removed d) then (PullOk False, s)
      else (PullOk True, s\<lparr>bs_blocked_ips := apply_added (dp_added d) (apply_removed (dp_removed d) (bs_blocked_ips s)),
                           bs_current_version := of_int (dp_to_version d)\<rparr>))"

definition delta_pull :: "'k community_lib \<Rightarrow> http_result \<Rightarrow> 'k blocklist_sync \<Rightarrow> pull_result \<times> 'k blocklist_sync" where
  "delta_pull lib res s =
     (if bs_current_version s = 0 then (PullOk False, s)
      else case res of
             None \<Rightarrow> (PullErr, s)
           | Some resp \<Rightarrow>
               if hr_status resp = 410 then (PullOk False, s)
               else if \<not> success (hr_status resp) then (PullErr, s)
               else (case read_response_body_limited MAX_BLOCKLIST_RESPONSE_BYTES resp of
                       None \<Rightarrow> (PullErr, s)
                     | Some body \<Rightarrow>
                         (case json_delta lib body of
                            None \<Rightarrow> (PullErr, s)
                          | Some delta \<Rightarrow>
                              (case bs_verify_key s of
                                 None \<Rightarrow> apply_delta (dr_payload delta) s
                               | Some vk \<Rightarrow>
                                   (case (dr_signature_hex delta, dr_payload_hex delta) of
                                      (Some sig_hex, Some pay_hex) \<Rightarrow>
                                        if \<not> verify_signature lib vk sig_hex pay_hex then (PullOk False, s)
                                        else (case hex_decode lib pay_hex of
                                                None \<Rightarrow> (PullErr, s)
                                              | Some payload \<Rightarrow>
                                                  (case json_delta_payload lib payload of
                                                     None \<Rightarrow> (PullErr, s)
                                                   | Some verified \<Rightarrow> apply_delta verified s))
                                    | _ \<Rightarrow> (PullOk False, s))))))"

fun signed_map :: "signed_entry list \<Rightarrow> (ip_addr, community_decision) amap \<Rightarrow> (ip_addr, community_decision) amap" where
  "signed_map [] m = m"
| "signed_map (e # es) m =
     (if MAX_IP_LEN < length (show_ip (se_ip e)) \<or> MAX_FIELD_LEN < length (se_scenario e) \<or> MAX_FIELD_LEN < length (se_action e)
      then signed_map es m
      else signed_map es (am_put (se_ip e) \<lparr>cd_reason = se_scenario e, cd_source = ''community-'' @ se_action e\<rparr> m))"

definition full_pull_verified :: "'k community_lib \<Rightarrow> http_result \<Rightarrow> 'k \<Rightarrow> 'k blocklist_sync \<Rightarrow> 'k blocklist_sync" where
  "full_pull_verified lib res vk s =
     (case res of
        None \<Rightarrow> s
      | Some resp \<Rightarrow>
          if \<not> success (hr_status resp) then s
          else (case read_response_body_limited MAX_BLOCKLIST_RESPONSE_BYTES resp of
                  None \<Rightarrow> s
                | Some bytes \<Rightarrow>
                    (case json_signed lib bytes of
                       None \<Rightarrow> s
                     | Some data \<Rightarrow>
                         if \<not> verify_signature lib vk (sr_signature_hex data) (sr_payload_hex data) then s
                         else (case hex_decode lib (sr_payload_hex data) of
                                 None \<Rightarrow> s
                               | Some payload \<Rightarrow>
                                   (case decompress_with_limit lib payload MAX_DECOMPRESSED_BYTES of
                                      None \<Rightarrow> s
                                    | Some decompressed \<Rightarrow>
                                        (case json_entries lib decompressed of
                                           None \<Rightarrow> s
                                         | Some entries \<Rightarrow>
                                             s\<lparr>bs_blocked_ips := signed_map entries [], bs_current_version := sr_version data\<rparr>))))))"

fun decoded_map :: "blocklist_entry list \<Rightarrow> (ip_addr, community_decision) amap \<Rightarrow> (ip_addr, community_decision) amap" where
  "decoded_map [] m = m"
| "decoded_map (e # es) m =
     (if MAX_IP_LEN < length (be_ip e) \<or> MAX_FIELD_LEN < length (be_reason e) \<or> MAX_FIELD_LEN < length (be_source e)
      then decoded_map es m
      else (case ip_from_str (be_ip e) of
              Some ip \<Rightarrow> decoded_map es (am_put ip \<lparr>cd_reason = be_reason e, cd_source = be_source e\<rparr> m)
            | None \<Rightarrow> decoded_map es m))"

definition full_pull_decoded :: "'k community_lib \<Rightarrow> http_result \<Rightarrow> 'k blocklist_sync \<Rightarrow> 'k blocklist_sync" where
  "full_pull_decoded lib res s =
     (case res of
        None \<Rightarrow> s
      | Some resp \<Rightarrow>
          if \<not> success (hr_status resp) then s
          else (case read_response_body_limited MAX_BLOCKLIST_RESPONSE_BYTES resp of
                  None \<Rightarrow> s
                | Some bytes \<Rightarrow>
                    (case json_decoded lib bytes of
                       None \<Rightarrow> s
                     | Some (version, entries) \<Rightarrow>
                         s\<lparr>bs_blocked_ips := decoded_map entries [], bs_current_version := version\<rparr>)))"

definition full_pull :: "'k community_lib \<Rightarrow> http_result \<Rightarrow> 'k blocklist_sync \<Rightarrow> 'k blocklist_sync" where
  "full_pull lib res s =
     (case bs_verify_key s of Some vk \<Rightarrow> full_pull_verified lib res vk s | None \<Rightarrow> full_pull_decoded lib res s)"

definition fetch_version :: "'k community_lib \<Rightarrow> http_result \<Rightarrow> u64 option" where
  "fetch_version lib res =
     (case res of
        None \<Rightarrow> None
      | Some resp \<Rightarrow>
          if \<not> success (hr_status resp) then None
          else (case read_response_body_limited MAX_VERSION_RESPONSE_BYTES resp of
                  None \<Rightarrow> None
                | Some body \<Rightarrow> json_version lib body))"

text \<open>What the server answers during one turn of the sync loop.\<close>

record server_turn =
  st_version :: http_result
  st_delta :: http_result
  st_full :: http_result

definition sync_turn :: "'k community_lib \<Rightarrow> server_turn \<Rightarrow> 'k blocklist_sync \<Rightarrow> 'k blocklist_sync" where
  "sync_turn lib t s =
     (case fetch_version lib (st_version t) of
        None \<Rightarrow> s
      | Some server_version \<Rightarrow>
          if bs_current_version s < server_version
          then (case delta_pull lib (st_delta t) s of
                  (PullOk True, s') \<Rightarrow> s'
                | (PullOk False, s') \<Rightarrow> full_pull lib (st_full t) s'
                | (PullErr, s') \<Rightarrow> full_pull lib (st_full t) s')
          else s)"

definition run_sync_task :: "'k community_lib \<Rightarrow> http_result \<Rightarrow> server_turn list \<Rightarrow> 'k blocklist_sync \<Rightarrow> 'k blocklist_sync" where
  "run_sync_task lib startup turns s = fold (sync_turn lib) turns (full_pull lib startup s)"

definition community_check :: "'k blocklist_sync \<Rightarrow> request_ctx \<Rightarrow> detection_result option" where
  "community_check s ctx =
     (case blocklist_check_ip s (ctx_client_ip ctx) of
        None \<Rightarrow> None
      | Some d \<Rightarrow>
          Some \<lparr>dr_rule_id = Some (''community:'' @ cd_source d), dr_rule_name = ''Community Blocklist'', dr_phase = Community,
             dr_detail = ''Community blocklist hit for '' @ show_ip (ctx_client_ip ctx) @ '' (reason: '' @ cd_reason d
               @ '', source: '' @ cd_source d @ '')''\<rparr>)"

section \<open>Initialisation\<close>

record community_config =
  cc_enabled :: bool
  cc_server_url :: string
  cc_api_key :: "string option"
  cc_machine_id :: "string option"
  cc_public_key :: "string option"
  cc_batch_size :: nat
  cc_flush_interval_secs :: u64
  cc_sync_interval_secs :: u64

definition community_config_default :: community_config where
  "community_config_default =
     \<lparr>cc_enabled = False, cc_server_url = ''https://community.openprx.dev'', cc_api_key = None, cc_machine_id = None,
      cc_public_key = None, cc_batch_size = 50, cc_flush_interval_secs = 30, cc_sync_interval_secs = 300\<rparr>"

record enroll_response =
  er_machine_id :: string
  er_api_key :: string
  er_enrollment_credential :: "string option"

record 'k community_components =
  co_api_key :: string
  co_blocklist :: "'k blocklist_sync"
  co_reporter :: reporter

text \<open>The configured credentials, or those of an enrollment, whose answer is the argument.\<close>

definition community_credentials :: "community_config \<Rightarrow> enroll_response option \<Rightarrow> (string \<times> string) option" where
  "community_credentials cfg enroll =
     (case (cc_machine_id cfg, cc_api_key cfg) of
        (Some mid, Some key) \<Rightarrow>
          if mid \<noteq> [] \<and> key \<noteq> [] then Some (mid, key)
          else map_option (\<lambda>r. (er_machine_id r, er_api_key r)) enroll
      | _ \<Rightarrow> map_option (\<lambda>r. (er_machine_id r, er_api_key r)) enroll)"

text \<open>\<open>None\<close> refuses to initialise; \<open>Some None\<close> runs without verification.\<close>

definition init_verify_key :: "'k community_lib \<Rightarrow> community_config \<Rightarrow> http_result \<Rightarrow> 'k option option" where
  "init_verify_key lib cfg keys_res =
     (let discovered = (case fetch_signing_keys_from_server lib keys_res of
                          Some ((key_id, vk) # _) \<Rightarrow> Some (Some vk)
                        | Some [] \<Rightarrow> Some None
                        | None \<Rightarrow> Some None)
      in case map_option trim_str (cc_public_key cfg) of
           Some pk \<Rightarrow>
             if pk \<noteq> [] then (case parse_public_key lib pk of Some vk \<Rightarrow> Some (Some vk) | None \<Rightarrow> None)
             else discovered
         | None \<Rightarrow> discovered)"

definition init_community :: "'k community_lib \<Rightarrow> community_config \<Rightarrow> bool \<Rightarrow> enroll_response option \<Rightarrow> http_result \<Rightarrow>
    'k community_components option" where
  "init_community lib cfg client_ok enroll keys_res =
     (if \<not> cc_enabled cfg then None
      else if \<not> client_ok then None
      else case community_credentials cfg enroll of
             None \<Rightarrow> None
           | Some (machine_id, api_key) \<Rightarrow>
               (case init_verify_key lib cfg keys_res of
                  None \<Rightarrow> None
                | Some verify_key \<Rightarrow>
                    Some \<lparr>co_api_key = api_key, co_blocklist = blocklist_new verify_key,
                      co_reporter = reporter_new (cc_batch_size cfg)\<rparr>))"

section \<open>Only signed payloads change the blocklist\<close>

text \<open>The payload was signed by the key.\<close>

definition signed_by :: "'k community_lib \<Rightarrow> 'k \<Rightarrow> string \<Rightarrow> bool" where
  "signed_by lib vk payload \<longleftrightarrow> (\<exists>sig. length sig = ED25519_SIGNATURE_LEN \<and> ed_verify lib vk payload sig)"

text \<open>The blocklists that signed payloads can lead to.\<close>

inductive authentic :: "'k community_lib \<Rightarrow> 'k \<Rightarrow> (ip_addr, community_decision) amap \<Rightarrow> bool" for lib vk where
  auth_empty: "authentic lib vk []"
| auth_full: "signed_by lib vk payload \<Longrightarrow> decompress_with_limit lib payload MAX_DECOMPRESSED_BYTES = Some raw \<Longrightarrow>
    json_entries lib raw = Some entries \<Longrightarrow> authentic lib vk (signed_map entries [])"
| auth_delta: "authentic lib vk m \<Longrightarrow> signed_by lib vk payload \<Longrightarrow> json_delta_payload lib payload = Some d \<Longrightarrow>
    authentic lib vk (apply_added (dp_added d) (apply_removed (dp_removed d) m))"

lemma verified_signed:
  "verify_signature lib vk sig pay \<Longrightarrow> hex_decode lib pay = Some payload \<Longrightarrow> signed_by lib vk payload"
  by (auto simp: verify_signature_def signed_by_def split: option.splits if_splits)

lemma full_pull_keeps_key [simp]: "bs_verify_key (full_pull lib res s) = bs_verify_key s"
  by (simp add: full_pull_def full_pull_verified_def full_pull_decoded_def split: option.splits prod.splits)

lemma delta_pull_keeps_key: "delta_pull lib res s = (r, s') \<Longrightarrow> bs_verify_key s' = bs_verify_key s"
  by (auto simp: delta_pull_def apply_delta_def split: option.splits if_splits prod.splits)

lemma full_pull_authentic:
  assumes "bs_verify_key s = Some vk" and "authentic lib vk (bs_blocked_ips s)"
  shows "authentic lib vk (bs_blocked_ips (full_pull lib res s))"
  using assms
  by (auto simp: full_pull_def full_pull_verified_def split: option.splits intro: auth_full dest: verified_signed)

lemma apply_delta_map:
  "apply_delta d s = (r, s') \<Longrightarrow> bs_blocked_ips s' = bs_blocked_ips s
     \<or> bs_blocked_ips s' = apply_added (dp_added d) (apply_removed (dp_removed d) (bs_blocked_ips s))"
  by (auto simp: apply_delta_def split: if_splits)

lemma delta_pull_authentic:
  assumes "bs_verify_key s = Some vk" and "authentic lib vk (bs_blocked_ips s)" and "delta_pull lib res s = (r, s')"
  shows "authentic lib vk (bs_blocked_ips s')"
  using assms
  by (auto simp: delta_pull_def split: option.splits if_splits dest!: apply_delta_map
      intro: auth_delta [OF _ verified_signed])

lemma sync_turn_authentic:
  assumes "bs_verify_key s = Some vk" and "authentic lib vk (bs_blocked_ips s)"
  shows "authentic lib vk (bs_blocked_ips (sync_turn lib t s)) \<and> bs_verify_key (sync_turn lib t s) = Some vk"
proof -
  obtain r s' where d: "delta_pull lib (st_delta t) s = (r, s')" by fastforce
  have "authentic lib vk (bs_blocked_ips s')" "bs_verify_key s' = Some vk"
    using delta_pull_authentic [OF assms d] delta_pull_keeps_key [OF d] assms(1) by simp_all
  then show ?thesis using assms full_pull_authentic [of s' vk lib "st_full t"]
    by (auto simp: sync_turn_def d split: option.splits pull_result.splits bool.splits)
qed

lemma turns_authentic:
  assumes "bs_verify_key s = Some vk" and "authentic lib vk (bs_blocked_ips s)"
  shows "authentic lib vk (bs_blocked_ips (fold (sync_turn lib) turns s)) \<and>
         bs_verify_key (fold (sync_turn lib) turns s) = Some vk"
  using assms
proof (induction turns arbitrary: s)
  case (Cons t ts)
  then show ?case using sync_turn_authentic [of s vk lib t] by simp
qed simp

text \<open>Every address the checker reports stands in a payload the key signed.\<close>

definition vouched :: "'k community_lib \<Rightarrow> 'k \<Rightarrow> ip_addr \<Rightarrow> bool" where
  "vouched lib vk ip \<longleftrightarrow>
     (\<exists>payload. signed_by lib vk payload \<and>
        ((\<exists>raw entries. decompress_with_limit lib payload MAX_DECOMPRESSED_BYTES = Some raw \<and>
            json_entries lib raw = Some entries \<and> ip \<in> se_ip ` set entries)
         \<or> (\<exists>d. json_delta_payload lib payload = Some d \<and> Some ip \<in> (ip_from_str \<circ> da_ip) ` set (dp_added d))))"

lemma signed_map_keys: "am_get (signed_map es m) ip = Some d \<Longrightarrow> am_get m ip = Some d \<or> ip \<in> se_ip ` set es"
  by (induction es m rule: signed_map.induct) (auto simp: map_simps split: if_splits)

lemma apply_removed_keys: "am_get (apply_removed es m) ip = Some d \<Longrightarrow> am_get m ip = Some d"
  by (induction es m rule: apply_removed.induct) (auto simp: map_simps split: if_splits option.splits)

lemma apply_added_keys:
  "am_get (apply_added es m) ip = Some d \<Longrightarrow> am_get m ip = Some d \<or> Some ip \<in> (ip_from_str \<circ> da_ip) ` set es"
proof (induction es m rule: apply_added.induct)
  case (2 e es m)
  show ?case
  proof (cases "ip_from_str (da_ip e)")
    case None
    then show ?thesis using 2 by (auto split: if_splits)
  next
    case (Some a)
    then show ?thesis using 2 by (auto simp: map_simps split: if_splits)
  qed
qed simp

lemma authentic_vouched: "authentic lib vk m \<Longrightarrow> am_get m ip = Some d \<Longrightarrow> vouched lib vk ip"
proof (induction arbitrary: d rule: authentic.induct)
  case auth_empty
  then show ?case by (simp add: map_simps)
next
  case (auth_full payload raw entries)
  then have "ip \<in> se_ip ` set entries" using signed_map_keys [of entries "[]" ip d] by (auto simp: map_simps)
  with auth_full show ?case unfolding vouched_def by blast
next
  case (auth_delta m payload dl)
  consider d' where "am_get m ip = Some d'" | "Some ip \<in> (ip_from_str \<circ> da_ip) ` set (dp_added dl)"
    using apply_added_keys [OF auth_delta.prems] apply_removed_keys by blast
  then show ?case using auth_delta unfolding vouched_def by cases blast+
qed

lemma run_vouched:
  "community_check (run_sync_task lib startup turns (blocklist_new (Some vk))) ctx = None
     \<or> vouched lib vk (ctx_client_ip ctx)"
proof -
  let ?s = "run_sync_task lib startup turns (blocklist_new (Some vk))"
  have "authentic lib vk (bs_blocked_ips ?s)"
    unfolding run_sync_task_def
    by (rule conjunct1, rule turns_authentic)
       (simp_all add: blocklist_new_def full_pull_authentic auth_empty)
  then show ?thesis
    by (cases "am_get (bs_blocked_ips ?s) (ctx_client_ip ctx)")
       (auto simp: community_check_def blocklist_check_ip_def dest: authentic_vouched)
qed

text \<open>C11. With a public key configured the integration either refuses to start or trusts that key and
  nothing else: whatever the server, or anyone in between, answers to the requests for keys, versions,
  deltas and snapshots over any number of sync turns, every address the community check reports stands
  in the entries of a snapshot or delta whose payload carries a valid signature of the configured key.\<close>

theorem blocked_only_if_signed:
  assumes "cc_public_key cfg = Some pk" and "trim_str pk \<noteq> []"
    and "init_community lib cfg client_ok enroll keys_res = Some c"
  shows "\<exists>vk. parse_public_key lib (trim_str pk) = Some vk \<and>
           (community_check (run_sync_task lib startup turns (co_blocklist c)) ctx = None
            \<or> vouched lib vk (ctx_client_ip ctx))"
proof -
  obtain vk where "parse_public_key lib (trim_str pk) = Some vk" "co_blocklist c = blocklist_new (Some vk)"
    using assms by (auto simp: init_community_def init_verify_key_def split: if_splits option.splits prod.splits)
  then show ?thesis using run_vouched [of lib startup turns vk ctx] by auto
qed

section \<open>The version is not signed\<close>

lemma turns_frozen: "bs_current_version s = - 1 \<Longrightarrow> fold (sync_turn lib) turns s = s"
proof (induction turns)
  case (Cons t ts)
  have "sync_turn lib t s = s"
    using Cons.prems by (simp add: sync_turn_def word_less_nat_alt split: option.splits)
      (metis not_less word_le_nat_alt word_n1_ge)
  then show ?case using Cons by simp
qed simp

text \<open>C33. The version that stands beside a signed snapshot is stored although the signature does not
  cover it: one old snapshot with a valid signature, replayed with the greatest version, is installed
  and no later turn of the sync task, whatever the server answers, changes the blocklist again.\<close>

theorem replayed_snapshot_sticks:
  assumes "st_answer = \<lparr>hr_status = 200, hr_content_length = None, hr_chunks = [Some body]\<rparr>"
    and "length body \<le> MAX_BLOCKLIST_RESPONSE_BYTES"
    and "json_signed lib body = Some \<lparr>sr_version = - 1, sr_key_id = None, sr_payload_hex = pay, sr_signature_hex = sig\<rparr>"
    and "verify_signature lib vk sig pay" and "hex_decode lib pay = Some payload"
    and "decompress_with_limit lib payload MAX_DECOMPRESSED_BYTES = Some raw"
    and "json_entries lib raw = Some entries"
  shows "bs_blocked_ips (run_sync_task lib (Some st_answer) turns (blocklist_new (Some vk))) = signed_map entries []"
proof -
  let ?s = "full_pull lib (Some st_answer) (blocklist_new (Some vk))"
  have "?s = (blocklist_new (Some vk))\<lparr>bs_blocked_ips := signed_map entries [], bs_current_version := - 1\<rparr>"
    using assms
    by (simp add: full_pull_def full_pull_verified_def blocklist_new_def read_response_body_limited_def)
  then show ?thesis using turns_frozen [of ?s lib turns] by (simp add: run_sync_task_def)
qed

definition replay_lib :: "unit community_lib" where
  "replay_lib = \<lparr>hex_decode = \<lambda>h. Some (if h = ''s'' then replicate 64 CHR ''s'' else h),
     key_from_bytes = \<lambda>_. Some (), ed_verify = \<lambda>_ p _. p = ''old'', zstd_decode = Some,
     json_version = \<lambda>_. None,
     json_signed = \<lambda>_. Some \<lparr>sr_version = - 1, sr_key_id = None, sr_payload_hex = ''old'', sr_signature_hex = ''s''\<rparr>,
     json_decoded = \<lambda>_. None, json_delta = \<lambda>_. None, json_delta_payload = \<lambda>_. None,
     json_entries = \<lambda>_. Some [\<lparr>se_ip = V4 1 2 3 4, se_scenario = ''scan'', se_action = ''block''\<rparr>],
     json_keys = \<lambda>_. None\<rparr>"

definition replay_answer :: http_response where
  "replay_answer = \<lparr>hr_status = 200, hr_content_length = None, hr_chunks = [Some ''x'']\<rparr>"

theorem replayed_snapshot_sticks_witness:
  "bs_blocked_ips (run_sync_task replay_lib (Some replay_answer)
     [\<lparr>st_version = None, st_delta = None, st_full = None\<rparr>] (blocklist_new (Some ()))) =
   signed_map [\<lparr>se_ip = V4 1 2 3 4, se_scenario = ''scan'', se_action = ''block''\<rparr>] []"
  by (rule replayed_snapshot_sticks [where body = "''x''" and pay = "''old''" and sig = "''s''" and payload = "''old''"
        and raw = "''old''"])
     (simp_all add: replay_answer_def replay_lib_def verify_signature_def decompress_with_limit_def MAX_BLOCKLIST_RESPONSE_BYTES_def
        MAX_DECOMPRESSED_BYTES_def ED25519_SIGNATURE_LEN_def)

definition pinned_config :: community_config where
  "pinned_config = community_config_default\<lparr>cc_enabled := True, cc_machine_id := Some ''m'', cc_api_key := Some ''k'',
     cc_public_key := Some (replicate 32 CHR ''p'')\<rparr>"

theorem blocked_only_if_signed_witness:
  "\<exists>vk. parse_public_key replay_lib (trim_str (replicate 32 CHR ''p'')) = Some vk \<and>
     (community_check (run_sync_task replay_lib (Some replay_answer) [] (blocklist_new (Some ()))) (undefined\<lparr>ctx_client_ip := V4 1 2 3 4\<rparr>) = None
      \<or> vouched replay_lib vk (V4 1 2 3 4))"
proof -
  have p: "trim_str (replicate 32 CHR ''p'') = replicate 32 CHR ''p''" by code_simp
  have n: "replicate 32 CHR ''p'' \<noteq> ''s''" by code_simp
  have k: "parse_public_key replay_lib (replicate 32 CHR ''p'') = Some ()"
    by (simp add: parse_public_key_def replay_lib_def ED25519_PUBKEY_LEN_def n)
  have "init_community replay_lib pinned_config True None None =
      Some \<lparr>co_api_key = ''k'', co_blocklist = blocklist_new (Some ()), co_reporter = reporter_new 50\<rparr>"
    by (simp add: init_community_def community_credentials_def init_verify_key_def pinned_config_def
        community_config_default_def p k)
  from blocked_only_if_signed [OF _ _ this, of "replicate 32 CHR ''p''" "Some replay_answer" "[]" "undefined\<lparr>ctx_client_ip := V4 1 2 3 4\<rparr>"]
  show ?thesis by (simp add: pinned_config_def p)
qed

end
