(* ===== verification/CrowdSec.thy ===== *)
theory CrowdSec
  imports RuleSets "HOL-Library.Sublist"
begin

text \<open>
  The CrowdSec integration: the decision cache (\<^verbatim>\<open>crowdsec/cache.rs\<close>, \<^verbatim>\<open>crowdsec/models.rs\<close>), the bouncer
  check (\<^verbatim>\<open>crowdsec/checker.rs\<close>), the sync task (\<^verbatim>\<open>crowdsec/sync.rs\<close>), the AppSec client's reading of an
  answer (\<^verbatim>\<open>crowdsec/appsec.rs\<close>) and the alert pusher (\<^verbatim>\<open>crowdsec/pusher.rs\<close>).  Instants are nanoseconds;
  adding a duration to an instant panics when the seconds leave an \<^verbatim>\<open>i64\<close>, and a panic ends the
  sync task.  Scopes and types are compared in lower case with ASCII words that no other Unicode
  character folds to, so ASCII folding decides the comparison.
\<close>

section \<open>Configuration and decisions\<close>

datatype crowdsec_mode = Bouncer | Appsec | Both

datatype fallback_action = FallbackAllow | FallbackBlock | FallbackLog

record appsec_config =
  ac_endpoint :: string
  ac_api_key :: string
  ac_timeout_ms :: u64
  ac_failure_action :: fallback_action

record pusher_config =
  pc_login :: string
  pc_password :: string

record crowdsec_config =
  cs_enabled :: bool
  cs_mode :: crowdsec_mode
  cs_lapi_url :: string
  cs_api_key :: string
  cs_update_frequency_secs :: u64
  cs_cache_ttl_secs :: u64
  cs_fallback_action :: fallback_action
  cs_scenarios_containing :: "string list"
  cs_scenarios_not_containing :: "string list"
  cs_appsec :: "appsec_config option"
  cs_pusher :: "pusher_config option"

definition crowdsec_config_default :: crowdsec_config where
  "crowdsec_config_default =
     \<lparr>cs_enabled = False, cs_mode = Bouncer, cs_lapi_url = ''http://127.0.0.1:8080'', cs_api_key = [],
      cs_update_frequency_secs = 10, cs_cache_ttl_secs = 0, cs_fallback_action = FallbackAllow,
      cs_scenarios_containing = [], cs_scenarios_not_containing = [], cs_appsec = None, cs_pusher = None\<rparr>"

record cs_decision =
  de_id :: int
  de_origin :: string
  de_scope :: string
  de_value :: string
  de_type :: string
  de_scenario :: string
  de_duration :: "string option"
  de_created_at :: "string option"

record decision_stream =
  ds_new :: "cs_decision list option"
  ds_deleted :: "cs_decision list option"

record cached_decision =
  ca_decision :: cs_decision
  ca_expires_at :: int

definition cd_is_expired :: "int \<Rightarrow> cached_decision \<Rightarrow> bool" where
  "cd_is_expired now cd \<longleftrightarrow> ca_expires_at cd \<le> now"

section \<open>Durations\<close>

definition u64_of_f64 :: "rat \<Rightarrow> u64" where
  "u64_of_f64 x = (if x \<le> 0 then 0 else if 2 ^ 64 \<le> x then - 1 else word_of_int \<lfloor>x\<rfloor>)"

text \<open>Reading a decimal made of digits and dots as a float.\<close>

definition f64_of_digits :: "string \<Rightarrow> rat option" where
  "f64_of_digits s =
     (case split_on CHR ''.'' s of
        [a] \<Rightarrow> if a = [] then None else Some (f64_rnd (of_nat (read_base 10 a)))
      | [a, b] \<Rightarrow> if a @ b = [] then None else Some (f64_rnd (of_nat (read_base 10 (a @ b)) / 10 ^ length b))
      | _ \<Rightarrow> None)"

definition utf8_continuation :: "char \<Rightarrow> bool" where
  "utf8_continuation c \<longleftrightarrow> 128 \<le> byte c \<and> byte c < 192"

definition ascii_digit :: "char \<Rightarrow> bool" where
  "ascii_digit c \<longleftrightarrow> 48 \<le> byte c \<and> byte c \<le> 57"

definition duration_unit :: "char \<Rightarrow> rat \<Rightarrow> u64" where
  "duration_unit c n =
     (if c = CHR ''h'' then u64_of_f64 (f64_rnd (n * 3600))
      else if c = CHR ''m'' then u64_of_f64 (f64_rnd (n * 60))
      else if c = CHR ''s'' then u64_of_f64 n
      else 0)"

text \<open>The bytes of one character beyond the first belong to that character.\<close>

fun duration_chars :: "u64 \<Rightarrow> string \<Rightarrow> string \<Rightarrow> u64 option" where
  "duration_chars acc current [] = Some acc"
| "duration_chars acc current (c # cs) =
     (if utf8_continuation c then duration_chars acc current cs
      else if ascii_digit c \<or> c = CHR ''.'' then duration_chars acc (current @ [c]) cs
      else (case f64_of_digits current of
              None \<Rightarrow> None
            | Some n \<Rightarrow> duration_chars (acc + duration_unit c n) [] cs))"

definition parse_cs_duration :: "string \<Rightarrow> u64 option" where
  "parse_cs_duration s = duration_chars 0 [] s"

definition DEFAULT_DECISION_CACHE_FALLBACK_SECS :: u64 where
  "DEFAULT_DECISION_CACHE_FALLBACK_SECS = 4 * 3600"

definition instant_add :: "int \<Rightarrow> u64 \<Rightarrow> int option" where
  "instant_add now secs =
     (if i64_max < now div 1000000000 + uint secs then None else Some (now + uint secs * 1000000000))"

section \<open>The cache\<close>

record 'n decision_cache =
  dc_ip_decisions :: "(ip_addr, cached_decision) amap"
  dc_range_decisions :: "('n \<times> cached_decision) list"
  dc_other_decisions :: "(string, cached_decision) amap"
  dc_total_cached :: u64
  dc_hits :: u64
  dc_misses :: u64
  dc_cache_ttl_secs :: u64

definition decision_cache_new :: "u64 \<Rightarrow> 'n decision_cache" where
  "decision_cache_new ttl =
     \<lparr>dc_ip_decisions = [], dc_range_decisions = [], dc_other_decisions = [], dc_total_cached = 0,
      dc_hits = 0, dc_misses = 0, dc_cache_ttl_secs = ttl\<rparr>"

fun range_match :: "'n ipnet_lib \<Rightarrow> int \<Rightarrow> ip_addr \<Rightarrow> ('n \<times> cached_decision) list \<Rightarrow> cached_decision option" where
  "range_match lib now ip [] = None"
| "range_match lib now ip ((net, cd) # rs) =
     (if in_contains lib net ip \<and> \<not> cd_is_expired now cd then Some cd else range_match lib now ip rs)"

definition cache_lookup :: "'n ipnet_lib \<Rightarrow> int \<Rightarrow> ip_addr \<Rightarrow> 'n decision_cache \<Rightarrow> cached_decision option" where
  "cache_lookup lib now ip c =
     (case am_get (dc_ip_decisions c) ip of
        Some cd \<Rightarrow> if \<not> cd_is_expired now cd then Some cd else range_match lib now ip (dc_range_decisions c)
      | None \<Rightarrow> range_match lib now ip (dc_range_decisions c))"

definition cache_check_ip :: "'n ipnet_lib \<Rightarrow> int \<Rightarrow> ip_addr \<Rightarrow> 'n decision_cache \<Rightarrow> cached_decision option \<times> 'n decision_cache" where
  "cache_check_ip lib now ip c =
     (case cache_lookup lib now ip c of
        Some cd \<Rightarrow> (Some cd, c\<lparr>dc_hits := dc_hits c + 1\<rparr>)
      | None \<Rightarrow> (None, c\<lparr>dc_misses := dc_misses c + 1\<rparr>))"

definition should_cache :: "crowdsec_config \<Rightarrow> cs_decision \<Rightarrow> bool" where
  "should_cache cfg d \<longleftrightarrow>
     (if cs_scenarios_containing cfg \<noteq> [] \<and> \<not> list_ex (\<lambda>s. sublist s (de_scenario d)) (cs_scenarios_containing cfg)
      then False
      else \<not> list_ex (\<lambda>x. sublist x (de_scenario d)) (cs_scenarios_not_containing cfg))"

definition compute_expiry :: "int \<Rightarrow> 'n decision_cache \<Rightarrow> cs_decision \<Rightarrow> int option" where
  "compute_expiry now c d =
     (if 0 < dc_cache_ttl_secs c then instant_add now (dc_cache_ttl_secs c)
      else case Option.bind (de_duration d) parse_cs_duration of
             Some secs \<Rightarrow> instant_add now secs
           | None \<Rightarrow> instant_add now DEFAULT_DECISION_CACHE_FALLBACK_SECS)"

definition insert_decision :: "'n ipnet_lib \<Rightarrow> cs_decision \<Rightarrow> cached_decision \<Rightarrow> 'n decision_cache \<Rightarrow> 'n decision_cache" where
  "insert_decision lib d cd c =
     (let scope = to_ascii_lowercase (de_scope d)
      in if scope = ''ip''
         then (case ip_from_str (de_value d) of
                 Some ip \<Rightarrow> c\<lparr>dc_ip_decisions := am_put ip cd (dc_ip_decisions c)\<rparr> | None \<Rightarrow> c)
         else if scope = ''range''
         then (case in_from_str lib (de_value d) of
                 Some net \<Rightarrow> c\<lparr>dc_range_decisions := filter (\<lambda>e. fst e \<noteq> net) (dc_range_decisions c) @ [(net, cd)]\<rparr>
               | None \<Rightarrow> c)
         else c\<lparr>dc_other_decisions := am_put (de_value d) cd (dc_other_decisions c)\<rparr>)"

definition remove_decision :: "'n ipnet_lib \<Rightarrow> cs_decision \<Rightarrow> 'n decision_cache \<Rightarrow> 'n decision_cache" where
  "remove_decision lib d c =
     (let scope = to_ascii_lowercase (de_scope d)
      in if scope = ''ip''
         then (case ip_from_str (de_value d) of
                 Some ip \<Rightarrow> c\<lparr>dc_ip_decisions := am_del ip (dc_ip_decisions c)\<rparr> | None \<Rightarrow> c)
         else if scope = ''range''
         then (case in_from_str lib (de_value d) of
                 Some net \<Rightarrow> c\<lparr>dc_range_decisions := filter (\<lambda>e. fst e \<noteq> net) (dc_range_decisions c)\<rparr>
               | None \<Rightarrow> c)
         else c\<lparr>dc_other_decisions := am_del (de_value d) (dc_other_decisions c)\<rparr>)"

definition update_total :: "'n decision_cache \<Rightarrow> 'n decision_cache" where
  "update_total c = c\<lparr>dc_total_cached := of_nat (length (dc_ip_decisions c) + length (dc_range_decisions c)
     + length (dc_other_decisions c))\<rparr>"

text \<open>The flag says whether the call returned; after a panic the insertions made so far remain.\<close>

fun apply_new :: "'n ipnet_lib \<Rightarrow> int \<Rightarrow> crowdsec_config \<Rightarrow> cs_decision list \<Rightarrow> 'n decision_cache \<Rightarrow> bool \<times> 'n decision_cache" where
  "apply_new lib now cfg [] c = (True, c)"
| "apply_new lib now cfg (d # ds) c =
     (if \<not> should_cache cfg d then apply_new lib now cfg ds c
      else case compute_expiry now c d of
             None \<Rightarrow> (False, c)
           | Some t \<Rightarrow> apply_new lib now cfg ds (insert_decision lib d \<lparr>ca_decision = d, ca_expires_at = t\<rparr> c))"

definition apply_stream :: "'n ipnet_lib \<Rightarrow> int \<Rightarrow> crowdsec_config \<Rightarrow> decision_stream \<Rightarrow> 'n decision_cache \<Rightarrow> bool \<times> 'n decision_cache" where
  "apply_stream lib now cfg st c =
     (let (ok, c') = (case ds_new st of Some ds \<Rightarrow> apply_new lib now cfg ds c | None \<Rightarrow> (True, c))
      in if \<not> ok then (False, c')
         else (True, update_total (case ds_deleted st of Some ds \<Rightarrow> fold (remove_decision lib) ds c' | None \<Rightarrow> c')))"

definition cleanup_expired :: "int \<Rightarrow> 'n decision_cache \<Rightarrow> 'n decision_cache" where
  "cleanup_expired now c =
     update_total (c\<lparr>dc_ip_decisions := am_retain (\<lambda>_ v. now < ca_expires_at v) (dc_ip_decisions c),
       dc_range_decisions := filter (\<lambda>(_, v). now < ca_expires_at v) (dc_range_decisions c),
       dc_other_decisions := am_retain (\<lambda>_ v. now < ca_expires_at v) (dc_other_decisions c)\<rparr>)"

definition list_decisions :: "int \<Rightarrow> 'n decision_cache \<Rightarrow> cs_decision list" where
  "list_decisions now c =
     map ca_decision (filter (\<lambda>v. \<not> cd_is_expired now v)
       (map snd (dc_ip_decisions c) @ map snd (dc_range_decisions c) @ map snd (dc_other_decisions c)))"

record cache_stats =
  cs_total_cached :: u64
  cs_hits :: u64
  cs_misses :: u64
  cs_hit_rate_pct :: rat

definition cache_stats_of :: "'n decision_cache \<Rightarrow> cache_stats" where
  "cache_stats_of c =
     (let total_lookups = dc_hits c + dc_misses c
      in \<lparr>cs_total_cached = dc_total_cached c, cs_hits = dc_hits c, cs_misses = dc_misses c,
          cs_hit_rate_pct = (if 0 < total_lookups
            then f64_rnd (f64_rnd (f64_rnd (of_nat (unat (dc_hits c))) / f64_rnd (of_nat (unat total_lookups))) * 100)
            else 0)\<rparr>)"

section \<open>The bouncer check, the sync task and AppSec\<close>

definition crowdsec_check :: "'n ipnet_lib \<Rightarrow> int \<Rightarrow> crowdsec_config \<Rightarrow> request_ctx \<Rightarrow> 'n decision_cache \<Rightarrow>
    detection_result option \<times> 'n decision_cache" where
  "crowdsec_check lib now cfg ctx c =
     (if cs_mode cfg = Appsec then (None, c)
      else case cache_check_ip lib now (ctx_client_ip ctx) c of
             (Some cd, c') \<Rightarrow>
               let type_lower = to_ascii_lowercase (de_type (ca_decision cd));
                   rule_name = (if type_lower = ''captcha'' then ''CrowdSec Captcha''
                     else if type_lower = ''throttle'' then ''CrowdSec Throttle'' else ''CrowdSec Ban'')
               in (Some \<lparr>dr_rule_id = Some (''crowdsec:'' @ de_scenario (ca_decision cd)), dr_rule_name = rule_name,
                     dr_phase = phase.CrowdSec,
                     dr_detail = ''CrowdSec decision: '' @ de_type (ca_decision cd) @ '' for '' @ show_ip (ctx_client_ip ctx)
                       @ '' (scenario: '' @ de_scenario (ca_decision cd) @ '', origin: '' @ de_origin (ca_decision cd) @ '')''\<rparr>, c')
           | (None, c') \<Rightarrow> (None, c'))"

text \<open>One turn of the loop: the time, the answer of the server and whether the cleanup is due.  A task
  that panicked makes no more turns.\<close>

record cs_sync_turn =
  sy_now :: int
  sy_answer :: "decision_stream option"
  sy_cleanup_due :: bool

definition opt_len :: "'a list option \<Rightarrow> nat" where
  "opt_len xs = (case xs of Some ys \<Rightarrow> length ys | None \<Rightarrow> 0)"

definition decision_sync_turn :: "'n ipnet_lib \<Rightarrow> crowdsec_config \<Rightarrow> cs_sync_turn \<Rightarrow> bool \<times> 'n decision_cache \<Rightarrow> bool \<times> 'n decision_cache" where
  "decision_sync_turn lib cfg t s =
     (let (alive, c) = s
      in if \<not> alive then (False, c)
         else let (ok, c') = (case sy_answer t of
                                Some st \<Rightarrow> if 0 < opt_len (ds_new st) \<or> 0 < opt_len (ds_deleted st)
                                           then apply_stream lib (sy_now t) cfg st c else (True, c)
                              | None \<Rightarrow> (True, c))
              in if \<not> ok then (False, c')
                 else (True, if sy_cleanup_due t then cleanup_expired (sy_now t) c' else c'))"

definition run_decision_sync :: "'n ipnet_lib \<Rightarrow> crowdsec_config \<Rightarrow> int \<Rightarrow> decision_stream option \<Rightarrow> cs_sync_turn list \<Rightarrow>
    'n decision_cache \<Rightarrow> bool \<times> 'n decision_cache" where
  "run_decision_sync lib cfg now startup turns c =
     fold (decision_sync_turn lib cfg) turns
       (case startup of Some st \<Rightarrow> apply_stream lib now cfg st c | None \<Rightarrow> (True, c))"

datatype appsec_result = AppSecAllow | AppSecBlock string | AppSecUnavailable

text \<open>The answer: no response, or its status and the message of its JSON body.\<close>

definition appsec_check_request :: "(nat \<times> string option) option \<Rightarrow> appsec_result" where
  "appsec_check_request resp =
     (case resp of
        None \<Rightarrow> AppSecUnavailable
      | Some (status, message) \<Rightarrow>
          if status = 200 then AppSecAllow
          else if status = 403 then AppSecBlock (case message of Some msg \<Rightarrow> msg | None \<Rightarrow> ''blocked by CrowdSec AppSec'')
          else AppSecUnavailable)"

definition appsec_to_detection :: "string \<Rightarrow> detection_result" where
  "appsec_to_detection message =
     \<lparr>dr_rule_id = Some ''crowdsec:appsec'', dr_rule_name = ''CrowdSec AppSec'', dr_phase = phase.CrowdSec, dr_detail = message\<rparr>"

section \<open>The alert pusher\<close>

record alert_event =
  ae_scenario :: string
  ae_source_ip :: string
  ae_rule_name :: string
  ae_detail :: string

definition PUSHER_BATCH_SIZE :: nat where "PUSHER_BATCH_SIZE = 50"

record pusher =
  pu_buffer :: "alert_event list"
  pu_flushed :: "alert_event list list"

definition alert_of :: "string \<Rightarrow> detection_result \<Rightarrow> alert_event" where
  "alert_of client_ip d =
     \<lparr>ae_scenario = (case dr_rule_id d of Some i \<Rightarrow> i | None \<Rightarrow> ''prx-waf/detection''), ae_source_ip = client_ip,
      ae_rule_name = dr_rule_name d, ae_detail = dr_detail d\<rparr>"

definition pusher_flush_batch :: "alert_event list \<Rightarrow> pusher \<Rightarrow> pusher" where
  "pusher_flush_batch batch p = (if batch = [] then p else p\<lparr>pu_flushed := pu_flushed p @ [batch]\<rparr>)"

definition push_detection :: "string \<Rightarrow> detection_result \<Rightarrow> pusher \<Rightarrow> pusher" where
  "push_detection client_ip d p =
     (let buf = pu_buffer p @ [alert_of client_ip d]
      in if PUSHER_BATCH_SIZE \<le> length buf then pusher_flush_batch buf (p\<lparr>pu_buffer := []\<rparr>) else p\<lparr>pu_buffer := buf\<rparr>)"

definition pusher_tick :: "pusher \<Rightarrow> pusher" where
  "pusher_tick p = pusher_flush_batch (pu_buffer p) (p\<lparr>pu_buffer := []\<rparr>)"

lemma push_detection_conserves:
  "concat (pu_flushed (push_detection ip d p)) @ pu_buffer (push_detection ip d p) =
     concat (pu_flushed p) @ pu_buffer p @ [alert_of ip d]"
  "length (pu_buffer p) < PUSHER_BATCH_SIZE \<Longrightarrow> length (pu_buffer (push_detection ip d p)) < PUSHER_BATCH_SIZE"
  by (auto simp: push_detection_def pusher_flush_batch_def PUSHER_BATCH_SIZE_def Let_def)

lemma pusher_tick_conserves:
  "concat (pu_flushed (pusher_tick p)) @ pu_buffer (pusher_tick p) = concat (pu_flushed p) @ pu_buffer p"
  by (simp add: pusher_tick_def pusher_flush_batch_def)

section \<open>What a stream does to the cache\<close>

text \<open>The address a decision is about, if it is about one.\<close>

definition decision_ip :: "cs_decision \<Rightarrow> ip_addr option" where
  "decision_ip d = (if to_ascii_lowercase (de_scope d) = ''ip'' then ip_from_str (de_value d) else None)"

definition stream_new :: "decision_stream \<Rightarrow> cs_decision list" where
  "stream_new st = (case ds_new st of Some ds \<Rightarrow> ds | None \<Rightarrow> [])"

definition stream_deleted :: "decision_stream \<Rightarrow> cs_decision list" where
  "stream_deleted st = (case ds_deleted st of Some ds \<Rightarrow> ds | None \<Rightarrow> [])"

lemma apply_stream_fold:
  "apply_stream lib now cfg st c =
     (fst (apply_new lib now cfg (stream_new st) c),
      if fst (apply_new lib now cfg (stream_new st) c)
      then update_total (fold (remove_decision lib) (stream_deleted st) (snd (apply_new lib now cfg (stream_new st) c)))
      else snd (apply_new lib now cfg (stream_new st) c))"
  by (auto simp: apply_stream_def stream_new_def stream_deleted_def Let_def split: option.splits prod.splits)

lemma insert_decision_ip:
  "dc_ip_decisions (insert_decision lib d cd c) =
     (case decision_ip d of Some ip \<Rightarrow> am_put ip cd (dc_ip_decisions c) | None \<Rightarrow> dc_ip_decisions c)"
  "dc_cache_ttl_secs (insert_decision lib d cd c) = dc_cache_ttl_secs c"
  by (simp_all add: insert_decision_def decision_ip_def Let_def split: option.splits)

lemma remove_decision_ip:
  "dc_ip_decisions (remove_decision lib d c) =
     (case decision_ip d of Some ip \<Rightarrow> am_del ip (dc_ip_decisions c) | None \<Rightarrow> dc_ip_decisions c)"
  by (simp add: remove_decision_def decision_ip_def Let_def split: option.splits)

lemma fold_remove_ip:
  "am_get (dc_ip_decisions (fold (remove_decision lib) ds c)) ip =
     (if Some ip \<in> decision_ip ` set ds then None else am_get (dc_ip_decisions c) ip)"
proof (induction ds arbitrary: c)
  case (Cons d ds)
  then show ?case by (cases "decision_ip d") (auto simp: remove_decision_ip map_simps image_iff)
qed simp

lemma compute_expiry_cong: "dc_cache_ttl_secs c = dc_cache_ttl_secs c' \<Longrightarrow> compute_expiry now c = compute_expiry now c'"
  by (rule ext) (simp add: compute_expiry_def)

definition latest_for :: "crowdsec_config \<Rightarrow> ip_addr \<Rightarrow> cs_decision list \<Rightarrow> cs_decision option" where
  "latest_for cfg ip ds = List.find (\<lambda>d. should_cache cfg d \<and> decision_ip d = Some ip) (rev ds)"

lemma find_append: "List.find P (xs @ ys) = (case List.find P xs of Some x \<Rightarrow> Some x | None \<Rightarrow> List.find P ys)"
  by (induction xs) auto

lemma latest_for_Cons:
  "latest_for cfg ip (d # ds) =
     (case latest_for cfg ip ds of
        Some d' \<Rightarrow> Some d'
      | None \<Rightarrow> if should_cache cfg d \<and> decision_ip d = Some ip then Some d else None)"
  by (auto simp: latest_for_def find_append split: option.splits)

lemma latest_for_Nil [simp]: "latest_for cfg ip [] = None"
  by (simp add: latest_for_def)

lemma apply_new_ip:
  assumes "apply_new lib now cfg ds c = (True, c')"
  shows "am_get (dc_ip_decisions c') ip =
    (case latest_for cfg ip ds of
       Some d \<Rightarrow> map_option (\<lambda>t. \<lparr>ca_decision = d, ca_expires_at = t\<rparr>) (compute_expiry now c d)
     | None \<Rightarrow> am_get (dc_ip_decisions c) ip)"
  using assms
proof (induction ds arbitrary: c)
  case (Cons d ds)
  show ?case
  proof (cases "should_cache cfg d")
    case False
    with Cons show ?thesis by (auto simp: latest_for_Cons split: option.splits)
  next
    case True
    with Cons.prems obtain t where t: "compute_expiry now c d = Some t"
      and a: "apply_new lib now cfg ds (insert_decision lib d \<lparr>ca_decision = d, ca_expires_at = t\<rparr> c) = (True, c')"
      by (auto split: option.splits)
    let ?c = "insert_decision lib d \<lparr>ca_decision = d, ca_expires_at = t\<rparr> c"
    have "compute_expiry now ?c = compute_expiry now c" by (rule compute_expiry_cong) (simp add: insert_decision_ip)
    with Cons.IH [OF a] True t show ?thesis
      by (cases "decision_ip d") (auto simp: latest_for_Cons insert_decision_ip map_simps split: option.splits)
  qed
qed simp

section \<open>A ban holds until it expires\<close>

text \<open>The cache as the check sees it between two requests: streams, cleanups and lookups in any order.\<close>

datatype cache_op = OpStream int decision_stream | OpCleanup int | OpLookup int ip_addr

fun cache_step :: "'n ipnet_lib \<Rightarrow> crowdsec_config \<Rightarrow> cache_op \<Rightarrow> 'n decision_cache \<Rightarrow> 'n decision_cache" where
  "cache_step lib cfg (OpStream now st) c = snd (apply_stream lib now cfg st c)"
| "cache_step lib cfg (OpCleanup now) c = cleanup_expired now c"
| "cache_step lib cfg (OpLookup now ip) c = snd (cache_check_ip lib now ip c)"

fun op_time :: "cache_op \<Rightarrow> int" where
  "op_time (OpStream now st) = now"
| "op_time (OpCleanup now) = now"
| "op_time (OpLookup now ip) = now"

fun op_mentions :: "ip_addr \<Rightarrow> cache_op \<Rightarrow> bool" where
  "op_mentions ip (OpStream now st) \<longleftrightarrow> Some ip \<in> decision_ip ` (set (stream_new st) \<union> set (stream_deleted st))"
| "op_mentions ip _ \<longleftrightarrow> False"

lemma apply_new_other_ip:
  "Some ip \<notin> decision_ip ` set ds \<Longrightarrow>
   am_get (dc_ip_decisions (snd (apply_new lib now cfg ds c))) ip = am_get (dc_ip_decisions c) ip"
proof (induction ds arbitrary: c)
  case (Cons d ds)
  then show ?case
    by (cases "decision_ip d") (auto simp: insert_decision_ip map_simps split: option.splits)
qed simp

lemma apply_new_wf: "am_wf (dc_ip_decisions c) \<Longrightarrow> am_wf (dc_ip_decisions (snd (apply_new lib now cfg ds c)))"
  by (induction ds arbitrary: c) (auto simp: insert_decision_ip map_simps split: option.splits)

lemma fold_remove_wf: "am_wf (dc_ip_decisions c) \<Longrightarrow> am_wf (dc_ip_decisions (fold (remove_decision lib) ds c))"
  by (induction ds arbitrary: c) (auto simp: remove_decision_ip map_simps split: option.splits)

lemma update_total_ip [simp]: "dc_ip_decisions (update_total c) = dc_ip_decisions c"
  by (simp add: update_total_def)

lemma cache_check_ip_state [simp]: "dc_ip_decisions (snd (cache_check_ip lib now ip c)) = dc_ip_decisions c"
  by (simp add: cache_check_ip_def split: option.splits)

lemma cache_step_wf: "am_wf (dc_ip_decisions c) \<Longrightarrow> am_wf (dc_ip_decisions (cache_step lib cfg op c))"
  by (cases op)
     (auto simp: apply_stream_fold cleanup_expired_def map_simps fold_remove_wf apply_new_wf)

lemma cache_step_keeps:
  assumes "am_wf (dc_ip_decisions c)" and "am_get (dc_ip_decisions c) ip = Some cd"
    and "\<not> op_mentions ip op" and "op_time op < ca_expires_at cd"
  shows "am_get (dc_ip_decisions (cache_step lib cfg op c)) ip = Some cd"
proof (cases op)
  case (OpStream now st)
  then show ?thesis using assms apply_new_other_ip [of ip "stream_new st" lib now cfg c]
    by (auto simp: apply_stream_fold fold_remove_ip image_Un)
qed (use assms in \<open>auto simp: cleanup_expired_def am.get_retain_iff\<close>)

lemma cache_run_keeps:
  assumes "am_wf (dc_ip_decisions c)" and "am_get (dc_ip_decisions c) ip = Some cd"
    and "\<forall>op\<in>set ops. \<not> op_mentions ip op \<and> op_time op < ca_expires_at cd"
  shows "am_get (dc_ip_decisions (fold (cache_step lib cfg) ops c)) ip = Some cd"
  using assms
  by (induction ops arbitrary: c) (auto simp: cache_step_wf cache_step_keeps)

lemma run_wf: "am_wf (dc_ip_decisions c) \<Longrightarrow> am_wf (dc_ip_decisions (fold (cache_step lib cfg) ops c))"
  by (induction ops arbitrary: c) (auto simp: cache_step_wf)

lemma apply_new_ttl [simp]: "dc_cache_ttl_secs (snd (apply_new lib now cfg ds c)) = dc_cache_ttl_secs c"
  by (induction ds arbitrary: c) (auto simp: insert_decision_ip split: option.splits)

lemma fold_remove_ttl [simp]: "dc_cache_ttl_secs (fold (remove_decision lib) ds c) = dc_cache_ttl_secs c"
  by (induction ds arbitrary: c) (auto simp: remove_decision_def Let_def split: option.splits)

lemma cache_step_ttl [simp]: "dc_cache_ttl_secs (cache_step lib cfg op c) = dc_cache_ttl_secs c"
  by (cases op) (auto simp: apply_stream_fold cleanup_expired_def update_total_def cache_check_ip_def split: option.splits)

lemma run_ttl [simp]: "dc_cache_ttl_secs (fold (cache_step lib cfg) ops c) = dc_cache_ttl_secs c"
  by (induction ops arbitrary: c) simp_all

text \<open>C25. A ban holds until it expires: when a stream brings a decision for an address, the last such
  decision of the stream is cached with the duration it carries, and as long as no later stream
  mentions the address, the bouncer reports the address before the expiry, whatever streams,
  cleanups and lookups come before and in between.\<close>

theorem ban_holds:
  assumes "apply_stream lib now cfg st (fold (cache_step lib cfg) earlier (decision_cache_new ttl)) = (True, c)"
    and "latest_for cfg (ctx_client_ip ctx) (stream_new st) = Some d"
    and "Some (ctx_client_ip ctx) \<notin> decision_ip ` set (stream_deleted st)"
    and "compute_expiry now (decision_cache_new ttl :: 'n decision_cache) d = Some t"
    and "\<forall>op\<in>set later. \<not> op_mentions (ctx_client_ip ctx) op \<and> op_time op < t"
    and "now' < t" and "cs_mode cfg \<noteq> Appsec"
  shows "fst (crowdsec_check lib now' cfg ctx (fold (cache_step lib cfg) later (c :: 'n decision_cache))) \<noteq> None"
proof -
  let ?c = "fold (cache_step lib cfg) earlier (decision_cache_new ttl) :: 'n decision_cache"
  let ?ip = "ctx_client_ip ctx" and ?cd = "\<lparr>ca_decision = d, ca_expires_at = t\<rparr>"
  have wf: "am_wf (dc_ip_decisions ?c)" by (rule run_wf) (simp add: decision_cache_new_def map_simps)
  have "compute_expiry now ?c d = Some t"
    using assms(4) compute_expiry_cong [of ?c "decision_cache_new ttl :: 'n decision_cache" now] by (simp add: run_ttl)
  moreover from assms(1) obtain c' where "apply_new lib now cfg (stream_new st) ?c = (True, c')"
    and c: "c = update_total (fold (remove_decision lib) (stream_deleted st) c')"
    by (cases "apply_new lib now cfg (stream_new st) ?c") (auto simp: apply_stream_fold)
  ultimately have "am_get (dc_ip_decisions c') ?ip = Some ?cd" and wf': "am_wf (dc_ip_decisions c')"
    using apply_new_ip [of lib now cfg "stream_new st" ?c c' ?ip] apply_new_wf [OF wf, of lib now cfg "stream_new st"] assms(2)
    by simp_all
  then have "am_get (dc_ip_decisions c) ?ip = Some ?cd" and "am_wf (dc_ip_decisions c)"
    using assms(3) by (simp_all add: c fold_remove_ip fold_remove_wf)
  then have "am_get (dc_ip_decisions (fold (cache_step lib cfg) later c)) ?ip = Some ?cd"
    using assms(5) by (intro cache_run_keeps) simp_all
  then show ?thesis using assms(6,7)
    by (simp add: crowdsec_check_def cache_check_ip_def cache_lookup_def cd_is_expired_def Let_def)
qed

definition sample_decision :: "int \<Rightarrow> string \<Rightarrow> cs_decision" where
  "sample_decision i dur = \<lparr>de_id = i, de_origin = ''cscli'', de_scope = ''Ip'', de_value = ''1.2.3.4'', de_type = ''ban'',
     de_scenario = ''manual'', de_duration = Some dur, de_created_at = None\<rparr>"

definition sample_stream :: decision_stream where
  "sample_stream = \<lparr>ds_new = Some [sample_decision 1 ''4h35m6s''], ds_deleted = None\<rparr>"

lemma f64_of_digits_nat:
  assumes "CHR ''.'' \<notin> set a" and "a \<noteq> []" and "read_base 10 a = n" and "n \<le> 2 ^ 53"
  shows "f64_of_digits a = Some (of_nat n)"
  using assms f64_rnd_exact [of n] by (simp add: f64_of_digits_def split_on_none)

lemma u64_of_f64_nat: "n < 2 ^ 64 \<Longrightarrow> u64_of_f64 (of_nat n) = of_nat n"
  by (simp add: u64_of_f64_def)

lemma sample_duration: "parse_cs_duration ''4h35m6s'' = Some 16506"
proof -
  have d: "f64_of_digits ''4'' = Some 4" "f64_of_digits ''35'' = Some 35" "f64_of_digits ''6'' = Some 6"
    using f64_of_digits_nat [of "''4''" 4] f64_of_digits_nat [of "''35''" 35] f64_of_digits_nat [of "''6''" 6]
    by (simp_all add: read_base_def digit_val_def byte_def)
  have "f64_rnd 14400 = 14400" "f64_rnd 2100 = 2100"
    using f64_rnd_exact [of 14400] f64_rnd_exact [of 2100] by simp_all
  then have "u64_of_f64 (f64_rnd 14400) = 14400" "u64_of_f64 (f64_rnd 2100) = 2100" "u64_of_f64 6 = 6"
    using u64_of_f64_nat [of 14400] u64_of_f64_nat [of 2100] u64_of_f64_nat [of 6] by simp_all
  with d show ?thesis
    by (simp add: parse_cs_duration_def utf8_continuation_def ascii_digit_def byte_def duration_unit_def)
qed

lemma sample_decision_ip: "decision_ip (sample_decision i dur) = Some (V4 1 2 3 4)"
proof -
  have "ip_from_str ''1.2.3.4'' = Some (V4 1 2 3 4)" "to_ascii_lowercase ''Ip'' = ''ip''" by code_simp+
  then show ?thesis by (simp add: decision_ip_def sample_decision_def)
qed

theorem ban_holds_witness:
  "\<exists>c. apply_stream exact_lib 0 crowdsec_config_default sample_stream (decision_cache_new 0) = (True, c)
     \<and> fst (crowdsec_check exact_lib (16000 * 1000000000) crowdsec_config_default (undefined\<lparr>ctx_client_ip := V4 1 2 3 4\<rparr>)
          (fold (cache_step exact_lib crowdsec_config_default) [OpCleanup 5, OpLookup 6 (V4 1 2 3 4)] c)) \<noteq> None"
proof -
  let ?d = "sample_decision 1 ''4h35m6s''"
  have e: "compute_expiry 0 (decision_cache_new 0 :: ip_addr decision_cache) ?d = Some (16506 * 1000000000)"
    by (simp add: compute_expiry_def decision_cache_new_def sample_decision_def sample_duration instant_add_def i64_max_def)
  have ok: "should_cache crowdsec_config_default ?d"
    by (simp add: should_cache_def crowdsec_config_default_def)
  obtain c where c: "apply_stream exact_lib 0 crowdsec_config_default sample_stream (decision_cache_new 0) = (True, c)"
    by (simp add: apply_stream_fold sample_stream_def stream_new_def ok e)
  have "latest_for crowdsec_config_default (V4 1 2 3 4) (stream_new sample_stream) = Some ?d"
    by (simp add: latest_for_def stream_new_def sample_stream_def ok sample_decision_ip)
  with c e ban_holds [where lib = exact_lib and cfg = crowdsec_config_default and earlier = "[]" and ttl = 0
      and st = sample_stream and now = 0 and c = c and d = ?d and t = "16506 * 1000000000" and now' = "16000 * 1000000000"
      and later = "[OpCleanup 5, OpLookup 6 (V4 1 2 3 4)]" and ctx = "undefined\<lparr>ctx_client_ip := V4 1 2 3 4\<rparr>"]
  have "fst (crowdsec_check exact_lib (16000 * 1000000000) crowdsec_config_default (undefined\<lparr>ctx_client_ip := V4 1 2 3 4\<rparr>)
          (fold (cache_step exact_lib crowdsec_config_default) [OpCleanup 5, OpLookup 6 (V4 1 2 3 4)] c)) \<noteq> None"
    by (simp add: stream_deleted_def sample_stream_def crowdsec_config_default_def)
  with c show ?thesis by (intro exI [of _ c]) simp
qed

section \<open>Two shortcomings\<close>

text \<open>Deletions are matched by the value and not by the decision: when two decisions for an address are
  active, the end of one of them removes the other from the cache.\<close>

lemma deletion_ignores_id:
  assumes "apply_stream lib now cfg \<lparr>ds_new = None, ds_deleted = Some [sample_decision i dur]\<rparr> c = (ok, c')"
  shows "am_get (dc_ip_decisions c') (V4 1 2 3 4) = None"
  using assms by (auto simp: apply_stream_fold stream_new_def stream_deleted_def remove_decision_ip sample_decision_ip map_simps)

text \<open>A decision with a duration beyond the clock's range ends the sync task.\<close>

lemma huge_duration_secs: "\<exists>secs. parse_cs_duration ''3000000000000000h'' = Some secs \<and> i64_max < uint secs"
proof -
  have d: "f64_of_digits ''3000000000000000'' = Some 3000000000000000"
    using f64_of_digits_nat [of "''3000000000000000''" 3000000000000000] by (simp add: read_base_def digit_val_def byte_def)
  let ?x = "f64_rnd (3000000000000000 * 3600)"
  have "(2::rat) powi exp2 (3000000000000000 * 3600) < 2 powi 64"
    using exp2_bounds(1) [of "3000000000000000 * 3600"] by (simp add: power_int_def)
  then have "exp2 (3000000000000000 * 3600) < 64"
    using power_int_increasing [of 64 "exp2 (3000000000000000 * 3600)" "2::rat"] by linarith
  then have "2 powi 63 \<le> ?x"
    using rnd_pos_ge_power [of 63 "3000000000000000 * 3600"] by (simp add: f64_rnd_def power_int_def ulp_exp_def)
  then have x: "2 ^ 63 \<le> ?x" by (simp add: power_int_def)
  have "i64_max < uint (u64_of_f64 ?x)"
  proof (cases "2 ^ 64 \<le> ?x")
    case True
    then show ?thesis using x by (simp add: u64_of_f64_def i64_max_def uint_word_ariths)
  next
    case False
    with x have "u64_of_f64 ?x = word_of_int \<lfloor>?x\<rfloor>" "2 ^ 63 \<le> \<lfloor>?x\<rfloor>" "\<lfloor>?x\<rfloor> < 2 ^ 64"
      by (auto simp: u64_of_f64_def le_floor_iff floor_less_iff)
    then show ?thesis by (simp add: uint_word_of_int i64_max_def take_bit_int_eq_self)
  qed
  with d show ?thesis
    by (simp add: parse_cs_duration_def utf8_continuation_def ascii_digit_def byte_def duration_unit_def)
qed

lemma sync_dead: "fold (decision_sync_turn lib cfg) turns (False, c) = (False, c)"
  by (induction turns) (simp_all add: decision_sync_turn_def)

lemma huge_duration_ends_sync:
  "run_decision_sync (lib :: 'n ipnet_lib) crowdsec_config_default 0 (Some \<lparr>ds_new = Some [sample_decision 1 ''3000000000000000h''], ds_deleted = None\<rparr>)
     turns (decision_cache_new 0) = (False, decision_cache_new 0)"
proof -
  have "should_cache crowdsec_config_default (sample_decision 1 ''3000000000000000h'')"
    by (simp add: should_cache_def crowdsec_config_default_def)
  moreover have "compute_expiry 0 (decision_cache_new 0 :: 'n decision_cache) (sample_decision 1 ''3000000000000000h'') = None"
    using huge_duration_secs by (auto simp: compute_expiry_def decision_cache_new_def sample_decision_def instant_add_def)
  ultimately show ?thesis
    by (simp add: run_decision_sync_def apply_stream_fold stream_new_def sync_dead)
qed

end
