(* ===== verification/RuleFiles.thy ===== *)
theory RuleFiles
  imports CustomRules
begin

text \<open>
  Custom rules that live in files: the YAML documents (\<^verbatim>\<open>rules/formats/custom_rule_yaml.rs\<close>), the scan of
  the directory and the watcher thread that reloads it (\<^verbatim>\<open>rules/custom_file_loader.rs\<close>).  The YAML reader
  is a parameter; a document is given as it is after syntax analysis.  The watcher is a run of the
  messages its channel delivers, each with the time and the state of the directory at that moment.
\<close>

section \<open>YAML documents\<close>

datatype yaml = YString string | YMapping "(string \<times> yaml) list" | YOther

text \<open>The fields of a document, \<open>None\<close> where one is absent.\<close>

record yaml_custom_rule =
  yc_id :: string
  yc_host_code :: "string option"
  yc_name :: string
  yc_priority :: "int option"
  yc_enabled :: "bool option"
  yc_condition_op :: "condition_op option"
  yc_conditions :: "condition list option"
  yc_match_tree :: "condition_node option"
  yc_action :: "rule_action option"
  yc_action_status :: "nat option"
  yc_action_msg :: "string option"
  yc_script :: "string option"

definition or_default :: "'a \<Rightarrow> 'a option \<Rightarrow> 'a" where
  "or_default d x = (case x of Some v \<Rightarrow> v | None \<Rightarrow> d)"

definition to_custom_rule :: "yaml_custom_rule \<Rightarrow> custom_rule" where
  "to_custom_rule dto =
     \<lparr>cr_id = yc_id dto, cr_host_code = or_default ''*'' (yc_host_code dto), cr_name = yc_name dto,
      cr_priority = or_default 0 (yc_priority dto), cr_enabled = or_default True (yc_enabled dto),
      cr_condition_op = or_default CondAnd (yc_condition_op dto), cr_conditions = or_default [] (yc_conditions dto),
      cr_action = or_default RaBlock (yc_action dto), cr_action_status = or_default 403 (yc_action_status dto),
      cr_action_msg = yc_action_msg dto, cr_script = yc_script dto, cr_match_tree = yc_match_tree dto\<rparr>"

definition KIND_V1 :: string where "KIND_V1 = ''custom_rule_v1''"
definition KIND_PREFIX :: string where "KIND_PREFIX = ''custom_rule_''"

fun yaml_kind :: "yaml \<Rightarrow> string option" where
  "yaml_kind (YMapping ms) = (case map_of ms ''kind'' of Some (YString k) \<Rightarrow> Some k | _ \<Rightarrow> None)"
| "yaml_kind _ = None"

datatype yaml_error = InvalidYaml | UnsupportedKind string | BadRule

record yaml_lib =
  yl_documents :: "string \<Rightarrow> yaml option list"
  yl_from_value :: "yaml \<Rightarrow> yaml_custom_rule option"

fun parse_documents :: "yaml_lib \<Rightarrow> yaml option list \<Rightarrow> yaml_error + custom_rule list" where
  "parse_documents lib [] = Inr []"
| "parse_documents lib (None # ds) = Inl InvalidYaml"
| "parse_documents lib (Some v # ds) =
     (case yaml_kind v of
        None \<Rightarrow> parse_documents lib ds
      | Some kind \<Rightarrow>
          if kind \<noteq> KIND_V1
          then (if prefix KIND_PREFIX kind then Inl (UnsupportedKind kind) else parse_documents lib ds)
          else (case yl_from_value lib v of
                  None \<Rightarrow> Inl BadRule
                | Some dto \<Rightarrow>
                    (case parse_documents lib ds of Inl e \<Rightarrow> Inl e | Inr rules \<Rightarrow> Inr (to_custom_rule dto # rules))))"

definition parse_custom_yaml :: "yaml_lib \<Rightarrow> string \<Rightarrow> yaml_error + custom_rule list" where
  "parse_custom_yaml lib content = parse_documents lib (yl_documents lib content)"

section \<open>The directory\<close>

record dir_entry =
  en_is_file :: bool
  en_extension :: "string option"
  en_content :: "string option"

datatype custom_dir = NotADirectory | UnreadableDir | Listing "dir_entry option list"

definition entry_rules :: "yaml_lib \<Rightarrow> dir_entry option \<Rightarrow> custom_rule list" where
  "entry_rules lib entry =
     (case entry of
        None \<Rightarrow> []
      | Some e \<Rightarrow>
          if \<not> en_is_file e then []
          else if en_extension e \<noteq> Some ''yaml'' then []
          else (case en_content e of
                  None \<Rightarrow> []
                | Some content \<Rightarrow> (case parse_custom_yaml lib content of Inr rules \<Rightarrow> rules | Inl _ \<Rightarrow> [])))"

definition load_dir :: "yaml_lib \<Rightarrow> custom_dir \<Rightarrow> custom_rule list option" where
  "load_dir lib d =
     (case d of
        NotADirectory \<Rightarrow> Some []
      | UnreadableDir \<Rightarrow> None
      | Listing entries \<Rightarrow> Some (concat (map (entry_rules lib) entries)))"

definition reload_now ::
  "('x, 'g, 'n) rule_lib \<Rightarrow> yaml_lib \<Rightarrow> custom_dir \<Rightarrow> ('x, 'g, 'n) custom_rules_engine \<Rightarrow> ('x, 'g, 'n) custom_rules_engine" where
  "reload_now rl lib d s =
     (case load_dir lib d of
        Some rules \<Rightarrow> fold (add_file_rule rl) rules (clear_file_rules s)
      | None \<Rightarrow> clear_file_rules s)"

section \<open>The watcher thread\<close>

definition DEBOUNCE :: int where "DEBOUNCE = 500"

datatype watch_msg = FsChange | FsAccess | FsError | RecvTimeout | Disconnected

record ('x, 'g, 'n) rule_watcher =
  rw_last_event :: int
  rw_pending :: bool
  rw_stopped :: bool
  rw_engine :: "('x, 'g, 'n) custom_rules_engine"

text \<open>One iteration of the loop, with the clock in milliseconds and the directory as it is then.\<close>

fun run_event_loop_step ::
  "('x, 'g, 'n) rule_lib \<Rightarrow> yaml_lib \<Rightarrow> int \<times> watch_msg \<times> custom_dir \<Rightarrow> ('x, 'g, 'n) rule_watcher \<Rightarrow> ('x, 'g, 'n) rule_watcher" where
  "run_event_loop_step rl lib (now, msg, d) w =
     (if rw_stopped w then w
      else case msg of
             FsChange \<Rightarrow> w\<lparr>rw_last_event := now, rw_pending := True\<rparr>
           | FsAccess \<Rightarrow> w
           | FsError \<Rightarrow> w
           | RecvTimeout \<Rightarrow>
               if rw_pending w \<and> DEBOUNCE \<le> now - rw_last_event w
               then w\<lparr>rw_pending := False, rw_engine := reload_now rl lib d (rw_engine w)\<rparr>
               else w
           | Disconnected \<Rightarrow> w\<lparr>rw_stopped := True\<rparr>)"

abbreviation watch_run where
  "watch_run rl lib msgs w \<equiv> fold (run_event_loop_step rl lib) msgs w"

section \<open>A reload replaces exactly the file rules\<close>

definition bucket :: "('x, 'g, 'n) custom_rules_engine \<Rightarrow> string \<Rightarrow> ('x, 'g, 'n) rule_entry list" where
  "bucket s h = (case am_get s h of Some b \<Rightarrow> b | None \<Rightarrow> [])"

definition of_source :: "rule_source \<Rightarrow> ('x, 'g, 'n) custom_rules_engine \<Rightarrow> string \<Rightarrow> ('x, 'g, 'n) rule_entry list" where
  "of_source src s h = filter (\<lambda>e. re_source e = src) (bucket s h)"

text \<open>The entries that the file rules of a host become.\<close>

definition file_entries :: "('x, 'g, 'n) rule_lib \<Rightarrow> custom_rule list \<Rightarrow> string \<Rightarrow> ('x, 'g, 'n) rule_entry list" where
  "file_entries rl rules h =
     by_priority (map (\<lambda>r. from_rule_with_source rl r SrcFile) (filter (\<lambda>r. cr_host_code r = h) rules))"

lemma by_priority_cong:
  assumes "mset xs = mset ys" and "\<And>k. filter (\<lambda>e. priority e = k) xs = filter (\<lambda>e. priority e = k) ys"
  shows "by_priority xs = by_priority ys"
  unfolding by_priority_def
proof (rule properties_for_sort_key)
  show "mset (sort_key (\<lambda>e. cr_priority (re_raw e)) ys) = mset xs" using assms(1) by simp
next
  fix k assume "k \<in> set (sort_key (\<lambda>e. cr_priority (re_raw e)) ys)"
  show "filter (\<lambda>x. priority k = priority x) (sort_key (\<lambda>e. cr_priority (re_raw e)) ys) = filter (\<lambda>x. priority k = priority x) xs"
    unfolding eq_commute [of "priority k"] by (simp add: sort_key_stable assms(2))
next
  show "sorted (map (\<lambda>e. cr_priority (re_raw e)) (sort_key (\<lambda>e. cr_priority (re_raw e)) ys))" by simp
qed

lemma by_priority_again:
  "by_priority (by_priority xs @ ys) = by_priority (xs @ ys)" "by_priority (xs @ by_priority ys) = by_priority (xs @ ys)"
  by (rule by_priority_cong; simp add: by_priority_def sort_key_stable)+

lemma filter_by_priority: "filter P (by_priority es) = by_priority (filter P es)"
  by (simp add: by_priority_def filter_sort)

lemma add_file_rule_bucket:
  "bucket (add_file_rule rl r s) h =
     (if cr_host_code r = h then by_priority (bucket s h @ [from_rule_with_source rl r SrcFile]) else bucket s h)"
  by (simp add: add_file_rule_def insert_rule_def bucket_def map_simps)

lemma source_of_entry [simp]: "re_source (from_rule_with_source rl r src) = src"
  by (simp add: from_rule_with_source_def)

lemma add_files_bucket:
  "by_priority (bucket (fold (add_file_rule rl) rules s) h) =
     by_priority (bucket s h @ map (\<lambda>r. from_rule_with_source rl r SrcFile) (filter (\<lambda>r. cr_host_code r = h) rules))"
  by (induction rules arbitrary: s) (auto simp: add_file_rule_bucket by_priority_again)

lemma by_priority_sorted: "sorted (map priority b) \<Longrightarrow> by_priority b = b"
  by (simp add: by_priority_def sort_key_id_if_sorted)

lemma bucket_sorted: "buckets_sorted s \<Longrightarrow> sorted (map priority (bucket s h))"
  by (auto simp: buckets_sorted_def bucket_def split: option.splits)

lemma add_files_sorted: "buckets_sorted s \<Longrightarrow> buckets_sorted (fold (add_file_rule rl) rules s)"
proof -
  assume "buckets_sorted s"
  moreover have "(\<lambda>r. engine_step rl (AddFileRule r)) = add_file_rule rl" by (rule ext)+ simp
  ultimately show ?thesis using engine_run_sorted [of s rl "map AddFileRule rules"] by (simp add: fold_map comp_def)
qed

lemma clear_file_bucket: "bucket (clear_file_rules s) h = filter (\<lambda>e. re_source e \<noteq> SrcFile) (bucket s h)"
  by (simp add: bucket_def clear_file_get split: option.splits)

lemma clear_file_sorted: "buckets_sorted s \<Longrightarrow> buckets_sorted (clear_file_rules s)"
  using engine_step_sorted [of s _ ClearFileRules] by simp

lemma add_files_source:
  assumes "buckets_sorted s"
  shows "of_source src (fold (add_file_rule rl) rules s) h =
    by_priority (of_source src s h @ (if src = SrcFile then map (\<lambda>r. from_rule_with_source rl r SrcFile)
      (filter (\<lambda>r. cr_host_code r = h) rules) else []))"
proof -
  let ?new = "map (\<lambda>r. from_rule_with_source rl r SrcFile) (filter (\<lambda>r. cr_host_code r = h) rules)"
  have "bucket (fold (add_file_rule rl) rules s) h = by_priority (bucket s h @ ?new)"
    using add_files_bucket [of rl rules s h] bucket_sorted [OF add_files_sorted [OF assms, of rl rules], of h]
    by (simp add: by_priority_sorted)
  moreover have "filter (\<lambda>e. re_source e = src) ?new = (if src = SrcFile then ?new else [])"
    by (auto simp: filter_map comp_def)
  ultimately show ?thesis by (simp add: of_source_def filter_by_priority)
qed

lemma not_file: "re_source e \<noteq> SrcFile \<longleftrightarrow> re_source e = SrcDb"
  by (cases "re_source e") simp_all

lemma reload_now_exact:
  assumes "buckets_sorted s" and "load_dir lib d = Some rules"
  shows "of_source SrcFile (reload_now rl lib d s) h = file_entries rl rules h"
    and "of_source SrcDb (reload_now rl lib d s) h = of_source SrcDb s h"
proof -
  have "of_source SrcFile (clear_file_rules s) h = []" "of_source SrcDb (clear_file_rules s) h = of_source SrcDb s h"
    by (simp_all add: of_source_def clear_file_bucket not_file)
  moreover have "by_priority (of_source SrcDb s h) = of_source SrcDb s h"
    using bucket_sorted [OF assms(1), of h] by (intro by_priority_sorted) (simp add: of_source_def sorted_map_filter)
  ultimately show "of_source SrcFile (reload_now rl lib d s) h = file_entries rl rules h"
    and "of_source SrcDb (reload_now rl lib d s) h = of_source SrcDb s h"
    using add_files_source [OF clear_file_sorted [OF assms(1)], of _ rl rules h]
    by (simp_all add: reload_now_def assms(2) file_entries_def)
qed

lemma reload_now_sorted: "buckets_sorted s \<Longrightarrow> buckets_sorted (reload_now rl lib d s)"
  by (simp add: reload_now_def clear_file_sorted add_files_sorted split: option.splits)

section \<open>Changes are picked up\<close>

text \<open>A run of the channel: time does not go back, and a timeout comes only after half a second without
  a message.\<close>

fun timed :: "int \<Rightarrow> (int \<times> watch_msg \<times> custom_dir) list \<Rightarrow> bool" where
  "timed t [] \<longleftrightarrow> True"
| "timed t ((now, msg, d) # ms) \<longleftrightarrow> (if msg = RecvTimeout then t + DEBOUNCE \<le> now else t \<le> now) \<and> timed now ms"

definition watching :: "int \<Rightarrow> ('x, 'g, 'n) rule_watcher \<Rightarrow> bool" where
  "watching t w \<longleftrightarrow> \<not> rw_stopped w \<and> rw_last_event w \<le> t \<and> buckets_sorted (rw_engine w)"

lemma watch_step:
  assumes "watching t w" and "timed t [(now, msg, d)]" and "msg \<noteq> Disconnected"
  shows "watching now (run_event_loop_step rl lib (now, msg, d) w)"
  using assms by (cases msg) (auto simp: watching_def DEBOUNCE_def reload_now_sorted)

lemma watch_run_watching:
  assumes "watching t w" and "timed t ms" and "Disconnected \<notin> (fst \<circ> snd) ` set ms" and "ms \<noteq> []"
  shows "watching (fst (last ms)) (watch_run rl lib ms w)"
  using assms
proof (induction ms arbitrary: t w)
  case (Cons m ms)
  obtain now msg d where m: "m = (now, msg, d)" by (cases m)
  have "watching now (run_event_loop_step rl lib m w)"
    using Cons.prems unfolding m by (intro watch_step) auto
  then show ?case using Cons.IH [of now] Cons.prems by (cases "ms = []") (auto simp: m)
qed simp

lemma timed_append: "timed t (xs @ ys) \<longleftrightarrow> timed t xs \<and> timed (if xs = [] then t else fst (last xs)) ys"
  by (induction t xs rule: timed.induct) auto

lemma pending_stays:
  assumes "rw_pending w" and "RecvTimeout \<notin> (fst \<circ> snd) ` set ms"
  shows "rw_pending (watch_run rl lib ms w)"
  using assms
proof (induction ms arbitrary: w)
  case (Cons m ms)
  obtain now msg d where m: "m = (now, msg, d)" by (cases m)
  have "rw_pending (run_event_loop_step rl lib m w)" using Cons.prems by (cases msg) (auto simp: m)
  then show ?case using Cons by simp
qed simp

lemma change_then_timeout:
  assumes "watching t w" and "timed t (pre @ (t1, FsChange, d1) # mid @ [(t2, RecvTimeout, d2)])"
    and "Disconnected \<notin> (fst \<circ> snd) ` set (pre @ mid)" and "RecvTimeout \<notin> (fst \<circ> snd) ` set mid"
  obtains w' where "watching (fst (last ((t1, FsChange, d1) # mid))) w'" and "rw_pending w'"
    and "watch_run rl lib (pre @ (t1, FsChange, d1) # mid) w = w'"
proof
  let ?ms = "pre @ (t1, FsChange, d1) # mid"
  have "timed t ?ms" using assms(2) timed_append [of t ?ms "[(t2, RecvTimeout, d2)]"] by simp
  moreover have "Disconnected \<notin> (fst \<circ> snd) ` set ?ms" using assms(3) by auto
  ultimately show "watching (fst (last ((t1, FsChange, d1) # mid))) (watch_run rl lib ?ms w)"
    using watch_run_watching [OF assms(1), of ?ms rl lib] by simp
  have live: "\<not> rw_stopped (watch_run rl lib pre w)"
  proof (cases "pre = []")
    case True
    then show ?thesis using assms(1) by (simp add: watching_def)
  next
    case False
    then show ?thesis using watch_run_watching [OF assms(1), of pre rl lib] assms(2,3)
      by (auto simp: watching_def timed_append)
  qed
  show "rw_pending (watch_run rl lib ?ms w)"
    using live pending_stays [OF _ assms(4), of "run_event_loop_step rl lib (t1, FsChange, d1) (watch_run rl lib pre w)" rl lib]
    by simp
  show "watch_run rl lib ?ms w = watch_run rl lib ?ms w" ..
qed

text \<open>C20. Changes to rule files are picked up: after any run of the watcher in which a file changed and the
  directory was then left alone for half a second, the file rules of every host in the engine are
  exactly those that the directory holds at that moment, in order of priority, the rules of the
  database are as they were, and nothing is pending.\<close>

theorem file_changes_picked_up:
  assumes "watching t w" and "timed t (pre @ (t1, FsChange, d1) # mid @ [(t2, RecvTimeout, d2)])"
    and "Disconnected \<notin> (fst \<circ> snd) ` set (pre @ mid)" and "RecvTimeout \<notin> (fst \<circ> snd) ` set mid"
    and "load_dir lib d2 = Some rules"
  shows "let before = watch_run rl lib (pre @ (t1, FsChange, d1) # mid) w;
             after = watch_run rl lib (pre @ (t1, FsChange, d1) # mid @ [(t2, RecvTimeout, d2)]) w
         in \<not> rw_pending after
            \<and> of_source SrcFile (rw_engine after) h = file_entries rl rules h
            \<and> of_source SrcDb (rw_engine after) h = of_source SrcDb (rw_engine before) h"
proof -
  obtain w' where w': "watching (fst (last ((t1, FsChange, d1) # mid))) w'" "rw_pending w'"
    "watch_run rl lib (pre @ (t1, FsChange, d1) # mid) w = w'"
    by (rule change_then_timeout [OF assms(1-4)])
  have "fst (last ((t1, FsChange, d1) # mid)) + DEBOUNCE \<le> t2"
    using assms(2) timed_append [of t "pre @ (t1, FsChange, d1) # mid" "[(t2, RecvTimeout, d2)]"] by simp
  with w' have "run_event_loop_step rl lib (t2, RecvTimeout, d2) w' =
      w'\<lparr>rw_pending := False, rw_engine := reload_now rl lib d2 (rw_engine w')\<rparr>" and "buckets_sorted (rw_engine w')"
    by (auto simp: watching_def)
  then show ?thesis using w'(3) reload_now_exact [OF _ assms(5), of "rw_engine w'" rl h] by (simp add: Let_def)
qed

definition sample_watcher :: "(string, string, ip_addr) rule_watcher" where
  "sample_watcher = \<lparr>rw_last_event = 0, rw_pending = False, rw_stopped = False, rw_engine = []\<rparr>"

definition sample_dto :: yaml_custom_rule where
  "sample_dto = \<lparr>yc_id = ''r1'', yc_host_code = None, yc_name = ''admin'', yc_priority = None, yc_enabled = None,
     yc_condition_op = None, yc_conditions = None, yc_match_tree = None, yc_action = None, yc_action_status = None,
     yc_action_msg = None, yc_script = None\<rparr>"

definition sample_yaml_lib :: yaml_lib where
  "sample_yaml_lib = \<lparr>yl_documents = \<lambda>_. [Some (YMapping [(''kind'', YString ''custom_rule_v1'')])],
     yl_from_value = \<lambda>_. Some sample_dto\<rparr>"

definition sample_dir :: custom_dir where
  "sample_dir = Listing [Some \<lparr>en_is_file = True, en_extension = Some ''yaml'', en_content = Some ''kind: custom_rule_v1''\<rparr>]"

theorem file_changes_picked_up_witness:
  "let after = watch_run plain_lib sample_yaml_lib
         [(10, FsChange, NotADirectory), (20, FsAccess, NotADirectory), (520, RecvTimeout, sample_dir)] sample_watcher
   in \<not> rw_pending after
      \<and> of_source SrcFile (rw_engine after) ''*'' = file_entries plain_lib [to_custom_rule sample_dto] ''*''"
proof -
  have "load_dir sample_yaml_lib sample_dir = Some [to_custom_rule sample_dto]"
    by (simp add: load_dir_def sample_dir_def entry_rules_def parse_custom_yaml_def sample_yaml_lib_def KIND_V1_def)
  with file_changes_picked_up [of 0 sample_watcher "[]" 10 NotADirectory "[(20, FsAccess, NotADirectory)]" 520 sample_dir
      sample_yaml_lib "[to_custom_rule sample_dto]" plain_lib "''*''"]
  show ?thesis by (simp add: sample_watcher_def watching_def DEBOUNCE_def buckets_sorted_def am_get_def Let_def)
qed

text \<open>A directory that is touched more often than twice a second, if only by readers, is not reloaded.\<close>

lemma busy_directory_not_reloaded:
  assumes "RecvTimeout \<notin> (fst \<circ> snd) ` set ms"
  shows "rw_engine (watch_run rl lib ms w) = rw_engine w"
  using assms
proof (induction ms arbitrary: w)
  case (Cons m ms)
  obtain now msg d where m: "m = (now, msg, d)" by (cases m)
  have "rw_engine (run_event_loop_step rl lib m w) = rw_engine w" using Cons.prems by (cases msg) (auto simp: m)
  then show ?case using Cons by simp
qed simp

end
