(* ===== verification/Engine.thy ===== *)
theory Engine
  imports RateCheck DdosCheck BlockPage HostChecks Owasp TxVelocity Community CrowdSec RuleFiles
begin

text \<open>
  The WAF engine (\<^verbatim>\<open>engine.rs\<close>): its state with every component plugged in, the reload of the rules from
  the database, and the inspection of a request through all phases.  The rows and events that the
  engine writes in passing are appended to a log in the state; signals go to the community reporter.
  A panic of a component (an overflow of the clock in a limiter) is \<open>None\<close>.
\<close>

section \<open>What the engine records\<close>

record attack_log =
  al_host_code :: string
  al_host :: string
  al_client_ip :: string
  al_method :: string
  al_path :: string
  al_query :: "string option"
  al_rule_id :: "string option"
  al_rule_name :: string
  al_action :: string
  al_phase :: string
  al_detail :: "string option"
  al_geo_info :: "json option"
  al_created_at :: int

record security_event =
  sv_host_code :: string
  sv_client_ip :: string
  sv_method :: string
  sv_path :: string
  sv_rule_id :: "string option"
  sv_rule_name :: string
  sv_action :: string
  sv_detail :: "string option"
  sv_geo_info :: "json option"

datatype audit_event_type = AeBlock | AeAllow | AeChallenge | AeRateLimit | AeLogOnly

record audit_event =
  au_timestamp :: int
  au_event_type :: audit_event_type
  au_rule_name :: string
  au_rule_id :: "string option"
  au_phase :: "string option"
  au_client_ip :: string
  au_host :: string
  au_method :: string
  au_path :: string
  au_tier :: "string option"
  au_detail :: "string option"
  au_req_id :: "string option"

datatype engine_record = LogAttack attack_log | LogSecurity security_event | SendAudit audit_event

section \<open>The engine\<close>

text \<open>The crates behind the checks.\<close>

record ('x, 'g, 'n, 'r, 'a) engine_lib =
  el_rules :: "('x, 'g, 'n) rule_lib"
  el_sets :: "'r regex_lib"
  el_scan :: scan_lib
  el_ac :: "'a ac_lib"
  el_owasp :: "'x owasp_lib"
  el_to_uppercase :: "string \<Rightarrow> string"
  el_tx_is_match :: "'x \<Rightarrow> string \<Rightarrow> bool"
  el_node_from_json :: "json \<Rightarrow> condition_node option"
  el_conds_from_json :: "json \<Rightarrow> condition list option"

record ('x, 'g, 'n, 'a, 'k) waf_engine =
  we_store :: "'n rule_store"
  we_custom_rules :: "('x, 'g, 'n) custom_rules_engine"
  we_sensitive :: "'a sensitive_check"
  we_hotlink :: hotlink_state
  we_rate_limit_cfg :: rate_limit_config
  we_rate_limit_store :: memory_store
  we_tx_cfg :: "'x tx_config"
  we_tx_store :: tx_store
  we_ddos_cfg :: ddos_config
  we_ddos :: "(memory_store, counter_map) ddos_state"
  we_owasp :: "'x owasp_rule list"
  we_geo_check :: geo_check_state
  we_sqli_cfg :: sqli_scan_config
  we_crowdsec :: "(crowdsec_config \<times> 'n decision_cache) option"
  we_appsec :: bool
  we_community :: "'k blocklist_sync option"
  we_reporter :: "reporter option"
  we_geoip :: "geoip_service option"
  we_audit_sender :: bool
  we_rate_limit_reloader :: bool
  we_tx_reloader :: bool
  we_ddos_reloader :: bool
  we_records :: "engine_record list"

definition waf_engine_new :: "('x, 'g, 'n, 'r, 'a) engine_lib \<Rightarrow> 'x owasp_rule list \<Rightarrow> sqli_scan_config \<Rightarrow> ('x, 'g, 'n, 'a, 'k) waf_engine" where
  "waf_engine_new lib owasp sqli_cfg =
     \<lparr>we_store = rule_store_new, we_custom_rules = [], we_sensitive = sensitive_new (el_ac lib), we_hotlink = [],
      we_rate_limit_cfg = rlc_default, we_rate_limit_store = [], we_tx_cfg = tx_config_default, we_tx_store = [],
      we_ddos_cfg = ddos_config_default, we_ddos = engine_ddos_state, we_owasp = owasp, we_geo_check = [],
      we_sqli_cfg = sqli_cfg, we_crowdsec = None, we_appsec = False, we_community = None, we_reporter = None,
      we_geoip = None, we_audit_sender = False, we_rate_limit_reloader = False, we_tx_reloader = False,
      we_ddos_reloader = False, we_records = []\<rparr>"

text \<open>The setters fill a cell once; later calls change nothing.\<close>

definition set_crowdsec :: "crowdsec_config \<Rightarrow> 'n decision_cache \<Rightarrow> bool \<Rightarrow> ('x, 'g, 'n, 'a, 'k) waf_engine \<Rightarrow> ('x, 'g, 'n, 'a, 'k) waf_engine" where
  "set_crowdsec cfg c appsec e =
     e\<lparr>we_crowdsec := (case we_crowdsec e of Some x \<Rightarrow> Some x | None \<Rightarrow> Some (cfg, c)), we_appsec := we_appsec e \<or> appsec\<rparr>"

definition set_community :: "'k blocklist_sync \<Rightarrow> ('x, 'g, 'n, 'a, 'k) waf_engine \<Rightarrow> ('x, 'g, 'n, 'a, 'k) waf_engine" where
  "set_community b e = e\<lparr>we_community := (case we_community e of Some x \<Rightarrow> Some x | None \<Rightarrow> Some b)\<rparr>"

definition set_community_reporter :: "reporter \<Rightarrow> ('x, 'g, 'n, 'a, 'k) waf_engine \<Rightarrow> ('x, 'g, 'n, 'a, 'k) waf_engine" where
  "set_community_reporter r e = e\<lparr>we_reporter := (case we_reporter e of Some x \<Rightarrow> Some x | None \<Rightarrow> Some r)\<rparr>"

definition set_geoip :: "geoip_service \<Rightarrow> ('x, 'g, 'n, 'a, 'k) waf_engine \<Rightarrow> ('x, 'g, 'n, 'a, 'k) waf_engine" where
  "set_geoip s e = e\<lparr>we_geoip := (case we_geoip e of Some x \<Rightarrow> Some x | None \<Rightarrow> Some s)\<rparr>"

definition set_audit_sender :: "('x, 'g, 'n, 'a, 'k) waf_engine \<Rightarrow> ('x, 'g, 'n, 'a, 'k) waf_engine" where
  "set_audit_sender e = e\<lparr>we_audit_sender := True\<rparr>"

definition reload_sqli_scan_config :: "sqli_scan_config \<Rightarrow> ('x, 'g, 'n, 'a, 'k) waf_engine \<Rightarrow> ('x, 'g, 'n, 'a, 'k) waf_engine" where
  "reload_sqli_scan_config cfg e = e\<lparr>we_sqli_cfg := cfg\<rparr>"

text \<open>The first load of a limiter's file: a file that does not load leaves the inert default; once a
  watcher runs, later calls change nothing.\<close>

definition start_rate_limit_watcher :: "'e + rate_limit_config \<Rightarrow> bool \<Rightarrow> ('x, 'g, 'n, 'a, 'k) waf_engine \<Rightarrow> ('x, 'g, 'n, 'a, 'k) waf_engine" where
  "start_rate_limit_watcher loaded watcher_ok e =
     (if we_rate_limit_reloader e then e
      else let e = (case loaded of Inr cfg \<Rightarrow> e\<lparr>we_rate_limit_cfg := cfg\<rparr> | Inl _ \<Rightarrow> e)
           in if watcher_ok then e\<lparr>we_rate_limit_reloader := True\<rparr> else e)"

definition start_tx_velocity_watcher :: "'e + 'x tx_config \<Rightarrow> bool \<Rightarrow> ('x, 'g, 'n, 'a, 'k) waf_engine \<Rightarrow> ('x, 'g, 'n, 'a, 'k) waf_engine" where
  "start_tx_velocity_watcher loaded watcher_ok e =
     (if we_tx_reloader e then e
      else let e = (case loaded of Inr cfg \<Rightarrow> e\<lparr>we_tx_cfg := cfg\<rparr> | Inl _ \<Rightarrow> e)
           in if watcher_ok then e\<lparr>we_tx_reloader := True\<rparr> else e)"

definition start_ddos_watcher :: "'e + ddos_config \<Rightarrow> bool \<Rightarrow> ('x, 'g, 'n, 'a, 'k) waf_engine \<Rightarrow> ('x, 'g, 'n, 'a, 'k) waf_engine" where
  "start_ddos_watcher loaded watcher_ok e =
     (if we_ddos_reloader e then e
      else let e = (case loaded of Inr cfg \<Rightarrow> e\<lparr>we_ddos_cfg := cfg\<rparr> | Inl _ \<Rightarrow> e)
           in if watcher_ok then e\<lparr>we_ddos_reloader := True\<rparr> else e)"

section \<open>Reload\<close>

record sensitive_row =
  sp_host_code :: string
  sp_pattern :: string
  sp_check_request :: bool

record hotlink_row =
  hr_host_code :: string
  hr_enabled :: bool
  hr_allow_empty_referer :: bool
  hr_allowed_domains :: json
  hr_redirect_url :: "string option"

record 'e engine_db =
  ed_rules :: "'e rule_db"
  ed_custom_rules :: "'e + db_custom_rule list"
  ed_sensitive_patterns :: "'e + sensitive_row list"
  ed_hotlink_configs :: "'e + hotlink_row list"

fun json_strings_of :: "json \<Rightarrow> string list" where
  "json_strings_of (JArray vs) = List.map_filter (\<lambda>v. case v of JString s \<Rightarrow> Some s | _ \<Rightarrow> None) vs"
| "json_strings_of _ = []"

definition hotlink_config_of_row :: "hotlink_row \<Rightarrow> hotlink_config" where
  "hotlink_config_of_row row =
     \<lparr>hl_enabled = hr_enabled row, hl_allow_empty_referer = hr_allow_empty_referer row,
      hl_allowed_domains = json_strings_of (hr_allowed_domains row), hl_redirect_url = hr_redirect_url row\<rparr>"

definition rules_by_host :: "('x, 'g, 'n, 'r, 'a) engine_lib \<Rightarrow> db_custom_rule list \<Rightarrow> (string, custom_rule list) amap" where
  "rules_by_host lib rows =
     group_rows (List.map_filter
       (\<lambda>row. map_option (Pair (db_host_code row)) (from_db_rule (el_node_from_json lib) (el_conds_from_json lib) row)) rows)"

definition patterns_by_host :: "sensitive_row list \<Rightarrow> (string, string list) amap" where
  "patterns_by_host rows = group_rows (map (\<lambda>r. (sp_host_code r, sp_pattern r)) (filter sp_check_request rows))"

definition load_custom_rules :: "('x, 'g, 'n, 'r, 'a) engine_lib \<Rightarrow> db_custom_rule list \<Rightarrow> custom_rule list option \<Rightarrow>
    ('x, 'g, 'n) custom_rules_engine \<Rightarrow> ('x, 'g, 'n) custom_rules_engine" where
  "load_custom_rules lib rows file_rules s =
     (let s = fold (\<lambda>(h, rules). custom_load_host (el_rules lib) h rules) (rules_by_host lib rows) s
      in case file_rules of Some rules \<Rightarrow> fold (add_file_rule (el_rules lib)) rules s | None \<Rightarrow> s)"

definition reload_rules :: "('x, 'g, 'n, 'r, 'a) engine_lib \<Rightarrow> yaml_lib \<Rightarrow> 'e engine_db \<Rightarrow> custom_dir \<Rightarrow>
    ('x, 'g, 'n, 'a, 'k) waf_engine \<Rightarrow> ('e + unit) \<times> ('x, 'g, 'n, 'a, 'k) waf_engine" where
  "reload_rules lib yl db dir e =
     (case reload_all (rl_net (el_rules lib)) (ed_rules db) (we_store e) of
        (Inl err, store) \<Rightarrow> (Inl err, e\<lparr>we_store := store\<rparr>)
      | (Inr _, store) \<Rightarrow>
          let e = e\<lparr>we_store := store\<rparr>
          in case ed_custom_rules db of
               Inl err \<Rightarrow> (Inl err, e)
             | Inr rows \<Rightarrow>
                 let e = e\<lparr>we_custom_rules := load_custom_rules lib rows (load_dir yl dir) (we_custom_rules e)\<rparr>
                 in case ed_sensitive_patterns db of
                      Inl err \<Rightarrow> (Inl err, e)
                    | Inr pats \<Rightarrow>
                        let e = e\<lparr>we_sensitive := fold (\<lambda>(h, ps). sensitive_load_host (el_ac lib) h ps)
                                    (patterns_by_host pats) (we_sensitive e)\<rparr>
                        in case ed_hotlink_configs db of
                             Inl err \<Rightarrow> (Inl err, e)
                           | Inr hls \<Rightarrow>
                               (Inr (), e\<lparr>we_hotlink := fold (\<lambda>row. hotlink_set_config (hr_host_code row)
                                  (hotlink_config_of_row row)) hls (we_hotlink e)\<rparr>))"

section \<open>Recording a decision\<close>

text \<open>What the world shows during one inspection: the clocks of the limiters, the monotonic clock of the
  decision cache, and the answer of the AppSec endpoint.\<close>

record inspect_env =
  ie_now :: int
  ie_tx_now :: nat
  ie_instant :: int
  ie_appsec :: "(nat \<times> string option) option"

definition action_str :: "waf_action \<Rightarrow> string" where
  "action_str a = (case a of Block _ _ \<Rightarrow> ''block'' | Allow \<Rightarrow> ''allow'' | LogOnly \<Rightarrow> ''log_only'' | Redirect _ \<Rightarrow> ''redirect'')"

definition geo_json :: "geo_ip_info \<Rightarrow> json" where
  "geo_json g = JObject [(''country'', JString (geo_country g)), (''province'', JString (geo_province g)),
     (''city'', JString (geo_city g)), (''isp'', JString (geo_isp g)), (''iso_code'', JString (geo_iso_code g))]"

definition tier_debug :: "tier \<Rightarrow> string" where
  "tier_debug t = (case t of Critical \<Rightarrow> ''Critical'' | High \<Rightarrow> ''High'' | Medium \<Rightarrow> ''Medium'' | CatchAll \<Rightarrow> ''CatchAll'')"

definition attack_log_of :: "inspect_env \<Rightarrow> request_ctx \<Rightarrow> waf_decision \<Rightarrow> detection_result \<Rightarrow> attack_log" where
  "attack_log_of env ctx d res =
     \<lparr>al_host_code = hc_code (ctx_host_config ctx), al_host = ctx_host ctx, al_client_ip = show_ip (ctx_client_ip ctx),
      al_method = ctx_method ctx, al_path = ctx_path ctx,
      al_query = (if ctx_query ctx = [] then None else Some (ctx_query ctx)), al_rule_id = dr_rule_id res,
      al_rule_name = dr_rule_name res, al_action = action_str (wd_action d), al_phase = phase_str (dr_phase res),
      al_detail = Some (dr_detail res), al_geo_info = map_option geo_json (ctx_geo ctx), al_created_at = ie_now env\<rparr>"

definition security_event_of :: "request_ctx \<Rightarrow> waf_decision \<Rightarrow> detection_result \<Rightarrow> security_event" where
  "security_event_of ctx d res =
     \<lparr>sv_host_code = hc_code (ctx_host_config ctx), sv_client_ip = show_ip (ctx_client_ip ctx),
      sv_method = ctx_method ctx, sv_path = ctx_path ctx, sv_rule_id = dr_rule_id res,
      sv_rule_name = dr_rule_name res, sv_action = action_str (wd_action d), sv_detail = Some (dr_detail res),
      sv_geo_info = map_option geo_json (ctx_geo ctx)\<rparr>"

definition audit_event_of :: "inspect_env \<Rightarrow> request_ctx \<Rightarrow> waf_decision \<Rightarrow> detection_result \<Rightarrow> audit_event" where
  "audit_event_of env ctx d res =
     \<lparr>au_timestamp = ie_now env,
      au_event_type = (case wd_action d of Block _ _ \<Rightarrow> AeBlock | Allow \<Rightarrow> AeAllow | LogOnly \<Rightarrow> AeLogOnly
                         | Redirect _ \<Rightarrow> AeChallenge),
      au_rule_name = dr_rule_name res, au_rule_id = dr_rule_id res, au_phase = Some (phase_str (dr_phase res)),
      au_client_ip = show_ip (ctx_client_ip ctx), au_host = ctx_host ctx, au_method = ctx_method ctx,
      au_path = ctx_path ctx, au_tier = Some (tier_debug (ctx_tier ctx)), au_detail = Some (dr_detail res),
      au_req_id = Some (ctx_req_id ctx)\<rparr>"

definition log_attack :: "inspect_env \<Rightarrow> request_ctx \<Rightarrow> waf_decision \<Rightarrow> ('x, 'g, 'n, 'a, 'k) waf_engine \<Rightarrow> ('x, 'g, 'n, 'a, 'k) waf_engine" where
  "log_attack env ctx d e =
     (case wd_result d of
        None \<Rightarrow> e
      | Some res \<Rightarrow>
          e\<lparr>we_records := we_records e @ [LogAttack (attack_log_of env ctx d res)]\<rparr>)"

definition log_security_event :: "request_ctx \<Rightarrow> waf_decision \<Rightarrow> ('x, 'g, 'n, 'a, 'k) waf_engine \<Rightarrow> ('x, 'g, 'n, 'a, 'k) waf_engine" where
  "log_security_event ctx d e =
     (case wd_result d of
        None \<Rightarrow> e
      | Some res \<Rightarrow>
          e\<lparr>we_records := we_records e @ [LogSecurity (security_event_of ctx d res)]\<rparr>)"

definition send_audit_event :: "inspect_env \<Rightarrow> request_ctx \<Rightarrow> waf_decision \<Rightarrow> ('x, 'g, 'n, 'a, 'k) waf_engine \<Rightarrow> ('x, 'g, 'n, 'a, 'k) waf_engine" where
  "send_audit_event env ctx d e =
     (if \<not> we_audit_sender e then e
      else case wd_result d of
             None \<Rightarrow> e
           | Some res \<Rightarrow>
               e\<lparr>we_records := we_records e @ [SendAudit (audit_event_of env ctx d res)]\<rparr>)"

definition report_community_signal :: "inspect_env \<Rightarrow> request_ctx \<Rightarrow> waf_decision \<Rightarrow> ('x, 'g, 'n, 'a, 'k) waf_engine \<Rightarrow> ('x, 'g, 'n, 'a, 'k) waf_engine" where
  "report_community_signal env ctx d e =
     (case we_reporter e of
        None \<Rightarrow> e
      | Some r \<Rightarrow>
          (case wd_result d of
             None \<Rightarrow> e
           | Some res \<Rightarrow>
               e\<lparr>we_reporter := Some (snd (try_push_detection (ie_now env) (ctx_client_ip ctx) res
                  (Some \<lparr>ri_http_method = ctx_method ctx, ri_request_path = ctx_path ctx, ri_request_host = ctx_host ctx,
                         ri_geo_country = map_option geo_iso_code (ctx_geo ctx)\<rparr>) r))\<rparr>))"

section \<open>The checks of the pipeline\<close>

text \<open>A check returns its detection and the engine it leaves behind, or panics.\<close>

type_synonym ('x, 'g, 'n, 'a, 'k) engine_check =
  "request_ctx \<Rightarrow> ('x, 'g, 'n, 'a, 'k) waf_engine \<Rightarrow> (detection_result option \<times> ('x, 'g, 'n, 'a, 'k) waf_engine) option"

definition run_ddos :: "inspect_env \<Rightarrow> ('x, 'g, 'n, 'a, 'k) engine_check" where
  "run_ddos env ctx e =
     map_option (\<lambda>(r, st). (r, e\<lparr>we_ddos := st\<rparr>))
       (ddos_check engine_detectors engine_actions (we_ddos_cfg e) (ie_now env) ctx (we_ddos e))"

definition run_crowdsec :: "('x, 'g, 'n, 'r, 'a) engine_lib \<Rightarrow> inspect_env \<Rightarrow> ('x, 'g, 'n, 'a, 'k) engine_check" where
  "run_crowdsec lib env ctx e =
     Some (case we_crowdsec e of
             None \<Rightarrow> (None, e)
           | Some (cfg, c) \<Rightarrow>
               let (r, c') = crowdsec_check (rl_net (el_rules lib)) (ie_instant env) cfg ctx c
               in (r, e\<lparr>we_crowdsec := Some (cfg, c')\<rparr>))"

definition run_community :: "('x, 'g, 'n, 'a, 'k) engine_check" where
  "run_community ctx e =
     Some (case we_community e of None \<Rightarrow> None | Some b \<Rightarrow> community_check b ctx, e)"

definition run_geo :: "('x, 'g, 'n, 'r, 'a) engine_lib \<Rightarrow> ('x, 'g, 'n, 'a, 'k) engine_check" where
  "run_geo lib ctx e = Some (geo_check (el_to_uppercase lib) (we_geo_check e) ctx, e)"

definition run_rate_limit :: "inspect_env \<Rightarrow> ('x, 'g, 'n, 'a, 'k) engine_check" where
  "run_rate_limit env ctx e =
     map_option (\<lambda>(r, st). (r, e\<lparr>we_rate_limit_store := st\<rparr>))
       (rl_check memory_rl (we_rate_limit_cfg e) (ie_now env) ctx (we_rate_limit_store e))"

definition run_tx_velocity :: "('x, 'g, 'n, 'r, 'a) engine_lib \<Rightarrow> inspect_env \<Rightarrow> ('x, 'g, 'n, 'a, 'k) engine_check" where
  "run_tx_velocity lib env ctx e =
     (let (r, _, st) = tx_check (el_tx_is_match lib) [] (we_tx_cfg e) (ie_tx_now env) ctx (we_tx_store e)
      in Some (r, e\<lparr>we_tx_store := st\<rparr>))"

definition pure_check :: "(request_ctx \<Rightarrow> detection_result option) \<Rightarrow> ('x, 'g, 'n, 'a, 'k) engine_check" where
  "pure_check f ctx e = Some (f ctx, e)"

definition checkers :: "('x, 'g, 'n, 'r, 'a) engine_lib \<Rightarrow> inspect_env \<Rightarrow> ('x, 'g, 'n, 'a, 'k) engine_check list" where
  "checkers lib env =
     [run_rate_limit env, run_tx_velocity lib env, pure_check (scanner_check (el_sets lib)),
      pure_check (bot_check (el_sets lib)), pure_check (xss_check (el_sets lib)), pure_check (rce_check (el_sets lib)),
      pure_check (traversal_check (el_sets lib))]"

definition run_sqli :: "('x, 'g, 'n, 'r, 'a) engine_lib \<Rightarrow> ('x, 'g, 'n, 'a, 'k) engine_check" where
  "run_sqli lib ctx e = map_option (\<lambda>r. (r, e)) (sqli_check (el_scan lib) (el_sets lib) (we_sqli_cfg e) ctx)"

definition run_appsec :: "inspect_env \<Rightarrow> ('x, 'g, 'n, 'a, 'k) engine_check" where
  "run_appsec env ctx e =
     Some (if we_appsec e
           then (case appsec_check_request (ie_appsec env) of
                   AppSecBlock message \<Rightarrow> Some (appsec_to_detection message)
                 | AppSecAllow \<Rightarrow> None
                 | AppSecUnavailable \<Rightarrow> None)
           else None, e)"

definition run_custom :: "('x, 'g, 'n, 'r, 'a) engine_lib \<Rightarrow> ('x, 'g, 'n, 'a, 'k) engine_check" where
  "run_custom lib ctx e = Some (custom_check (el_rules lib) (we_custom_rules e) ctx, e)"

definition run_owasp :: "('x, 'g, 'n, 'r, 'a) engine_lib \<Rightarrow> ('x, 'g, 'n, 'a, 'k) engine_check" where
  "run_owasp lib ctx e = Some (owasp_check (el_owasp lib) (we_owasp e) ctx, e)"

definition run_sensitive :: "('x, 'g, 'n, 'r, 'a) engine_lib \<Rightarrow> ('x, 'g, 'n, 'a, 'k) engine_check" where
  "run_sensitive lib ctx e = Some (sensitive_run (el_ac lib) (we_sensitive e) ctx, e)"

definition run_hotlink :: "('x, 'g, 'n, 'r, 'a) engine_lib \<Rightarrow> ('x, 'g, 'n, 'a, 'k) engine_check" where
  "run_hotlink lib ctx e = Some (hotlink_check (rl_to_lowercase (el_rules lib)) (we_hotlink e) ctx, e)"

section \<open>Inspection\<close>

definition detection_decision :: "request_ctx \<Rightarrow> detection_result \<Rightarrow> waf_decision" where
  "detection_decision ctx res =
     (if hc_log_only_mode (ctx_host_config ctx) then \<lparr>wd_action = LogOnly, wd_result = Some res\<rparr>
      else waf_block 403 (Some (render_block_page ctx (dr_rule_name res))) res)"

text \<open>Which sinks a phase reports to, besides the security events: all of them, all but the audit stream,
  or none.\<close>

datatype sinks = AllSinks | NoAudit | EventOnly

definition record_decision :: "inspect_env \<Rightarrow> sinks \<Rightarrow> request_ctx \<Rightarrow> waf_decision \<Rightarrow> ('x, 'g, 'n, 'a, 'k) waf_engine \<Rightarrow> ('x, 'g, 'n, 'a, 'k) waf_engine" where
  "record_decision env k ctx d e =
     (let e = log_security_event ctx d e
      in case k of
           AllSinks \<Rightarrow> send_audit_event env ctx d (report_community_signal env ctx d e)
         | NoAudit \<Rightarrow> report_community_signal env ctx d e
         | EventOnly \<Rightarrow> e)"

fun run_phases :: "inspect_env \<Rightarrow> (sinks \<times> ('x, 'g, 'n, 'a, 'k) engine_check) list \<Rightarrow> request_ctx \<Rightarrow> ('x, 'g, 'n, 'a, 'k) waf_engine \<Rightarrow>
    (waf_decision \<times> ('x, 'g, 'n, 'a, 'k) waf_engine) option" where
  "run_phases env [] ctx e = Some (waf_allow, e)"
| "run_phases env ((k, check) # ps) ctx e =
     (case check ctx e of
        None \<Rightarrow> None
      | Some (Some res, e) \<Rightarrow> let d = detection_decision ctx res in Some (d, record_decision env k ctx d e)
      | Some (None, e) \<Rightarrow> run_phases env ps ctx e)"

definition phases :: "('x, 'g, 'n, 'r, 'a) engine_lib \<Rightarrow> inspect_env \<Rightarrow> (sinks \<times> ('x, 'g, 'n, 'a, 'k) engine_check) list" where
  "phases lib env =
     [(NoAudit, run_ddos env), (AllSinks, run_crowdsec lib env), (EventOnly, run_community), (AllSinks, run_geo lib)]
     @ map (Pair AllSinks) (checkers lib env)
     @ [(AllSinks, run_sqli lib), (AllSinks, run_appsec env), (AllSinks, run_custom lib), (AllSinks, run_owasp lib),
        (AllSinks, run_sensitive lib), (AllSinks, run_hotlink lib)]"

definition record_list_block :: "inspect_env \<Rightarrow> request_ctx \<Rightarrow> waf_decision \<Rightarrow> ('x, 'g, 'n, 'a, 'k) waf_engine \<Rightarrow> ('x, 'g, 'n, 'a, 'k) waf_engine" where
  "record_list_block env ctx d e = send_audit_event env ctx d (report_community_signal env ctx d (log_attack env ctx d e))"

definition inspect_lists :: "('x, 'g, 'n, 'r, 'a) engine_lib \<Rightarrow> inspect_env \<Rightarrow> request_ctx \<Rightarrow> ('x, 'g, 'n, 'a, 'k) waf_engine \<Rightarrow>
    (waf_decision \<times> ('x, 'g, 'n, 'a, 'k) waf_engine) option" where
  "inspect_lists lib env ctx e =
     (let net = rl_net (el_rules lib);
          ip_whitelist = check_ip_whitelist net ctx (we_store e);
          ip_blacklist = check_ip_blacklist net ctx (we_store e);
          url_bl = check_url_blacklist ctx (we_store e)
      in if (case wd_result ip_whitelist of
               Some res \<Rightarrow> wd_action ip_whitelist = Allow \<and> dr_phase res = IpWhitelist | None \<Rightarrow> False)
         then Some (ip_whitelist, e)
         else if \<not> is_allowed ip_blacklist then Some (ip_blacklist, record_list_block env ctx ip_blacklist e)
         else (case check_url_whitelist ctx (we_store e) of
                 Some url_wl \<Rightarrow> Some (url_wl, e)
               | None \<Rightarrow>
                   if \<not> is_allowed url_bl then Some (url_bl, record_list_block env ctx url_bl e) else None))"

definition enrich :: "('x, 'g, 'n, 'a, 'k) waf_engine \<Rightarrow> request_ctx \<Rightarrow> request_ctx" where
  "enrich e ctx =
     (case we_geoip e of Some s \<Rightarrow> ctx\<lparr>ctx_geo := Some (geoip_lookup s (ctx_client_ip ctx))\<rparr> | None \<Rightarrow> ctx)"

definition inspect :: "('x, 'g, 'n, 'r, 'a) engine_lib \<Rightarrow> inspect_env \<Rightarrow> request_ctx \<Rightarrow> ('x, 'g, 'n, 'a, 'k) waf_engine \<Rightarrow>
    (waf_decision \<times> request_ctx \<times> ('x, 'g, 'n, 'a, 'k) waf_engine) option" where
  "inspect lib env ctx e =
     (if \<not> hc_guard_status (ctx_host_config ctx) then Some (waf_allow, ctx, e)
      else let ctx = enrich e ctx
           in case inspect_lists lib env ctx e of
                Some (d, e') \<Rightarrow> Some (d, ctx, e')
              | None \<Rightarrow> map_option (\<lambda>(d, e'). (d, ctx, e')) (run_phases env (phases lib env) ctx e))"

end
