(* ===== verification/Pipeline.thy ===== *)
theory Pipeline
  imports Engine
begin

text \<open>
  Properties of the inspection pipeline of the engine.  Every check of the pipeline meets one contract, the
  locale \<open>pipeline_check\<close>, which is interpreted for each of them; the properties of a whole inspection
  follow from the contract: what is recorded for a decision, what a host in log-only mode still
  blocks, that an inspection always returns, and what a reload of the rules installs.
\<close>

section \<open>The contract of a check\<close>

text \<open>A check of the pipeline leaves the records, the reporter and the audit switch alone and reports only
  its own phase.\<close>

locale pipeline_check =
  fixes check :: "('x, 'g, 'n, 'a, 'k) engine_check" and own :: "phase set"
  assumes frame: "check ctx e = Some (r, e') \<Longrightarrow>
      we_records e' = we_records e \<and> we_reporter e' = we_reporter e \<and> we_audit_sender e' = we_audit_sender e"
    and phase: "check ctx e = Some (Some res, e') \<Longrightarrow> dr_phase res \<in> own"

lemma run_detectors_phase:
  "run_detectors ds acts ctx cfg now st = Some (Some res, st') \<Longrightarrow> dr_phase res = Ddos"
  by (induction ds arbitrary: st)
     (auto simp: ddos_result_def Let_def split: option.splits detector_verdict.splits prod.splits)

lemma ddos_check_phase: "ddos_check ds acts snap now ctx st = Some (Some res, st') \<Longrightarrow> dr_phase res = Ddos"
  by (auto simp: ddos_check_def ddos_result_def Let_def dest: run_detectors_phase
      split: option.splits if_splits degrade_action.splits)

interpretation ddos: pipeline_check "run_ddos env" "{Ddos}" for env
  by unfold_locales (auto simp: run_ddos_def dest: ddos_check_phase)

interpretation crowdsec: pipeline_check "run_crowdsec lib env" "{phase.CrowdSec}" for lib env
  by unfold_locales (auto simp: run_crowdsec_def crowdsec_check_def Let_def split: option.splits prod.splits if_splits)

interpretation community: pipeline_check run_community "{phase.Community}"
  by unfold_locales (auto simp: run_community_def community_check_def split: option.splits)

lemma match_rules_phase: "match_rules uc geo rules = Some res \<Longrightarrow> dr_phase res = GeoIp"
  by (induction rules) (auto simp: geo_result_def split: geo_rule_mode.splits if_splits)

interpretation geo: pipeline_check "run_geo lib" "{GeoIp}" for lib
  by unfold_locales (auto simp: run_geo_def geo_check_def eval_rules_def dest: match_rules_phase split: option.splits if_splits)

interpretation rate_limit: pipeline_check "run_rate_limit env" "{RateLimit}" for env
  by unfold_locales (auto simp: run_rate_limit_def rl_check_def rl_block_def handle_store_err_def Let_def
      split: option.splits prod.splits if_splits sum.splits fail_mode.splits)

interpretation tx: pipeline_check "run_tx_velocity lib env" "{}" for lib env
  by unfold_locales (auto simp: run_tx_velocity_def tx_check_def Let_def split: option.splits prod.splits if_splits)

lemma pure_check_contract:
  assumes "\<And>ctx res. f ctx = Some res \<Longrightarrow> dr_phase res \<in> P"
  shows "pipeline_check (pure_check f) P"
  by unfold_locales (auto simp: pure_check_def assms)

lemmas result_defs = scanner_check_def bot_check_def xss_check_def rce_check_def traversal_check_def pattern_result_def

interpretation scanner: pipeline_check "pure_check (scanner_check rx)" "{Scanner}" for rx
  by (rule pure_check_contract) (auto simp: result_defs Let_def split: option.splits if_splits)

interpretation bot: pipeline_check "pure_check (bot_check rx)" "{Bot}" for rx
  by (rule pure_check_contract) (auto simp: result_defs Let_def split: option.splits if_splits)

interpretation xss: pipeline_check "pure_check (xss_check rx)" "{Xss}" for rx
  by (rule pure_check_contract) (auto simp: result_defs Let_def split: option.splits if_splits)

interpretation rce: pipeline_check "pure_check (rce_check rx)" "{Rce}" for rx
  by (rule pure_check_contract) (auto simp: result_defs Let_def split: option.splits if_splits)

interpretation traversal: pipeline_check "pure_check (traversal_check rx)" "{DirTraversal}" for rx
  by (rule pure_check_contract) (auto simp: result_defs Let_def split: option.splits if_splits)

interpretation sqli: pipeline_check "run_sqli lib" "{SqlInjection}" for lib
  by unfold_locales (auto simp: run_sqli_def sqli_check_def sqli_result_def pattern_result_def split: option.splits if_splits)

interpretation appsec: pipeline_check "run_appsec env" "{phase.CrowdSec}" for env
  by unfold_locales (auto simp: run_appsec_def appsec_to_detection_def split: appsec_result.splits if_splits)

lemma eval_list_phase: "eval_list lib ctx es = Some res \<Longrightarrow> dr_phase res = CustomRule"
  by (induction es) (auto simp: rule_result_def split: if_splits)

interpretation custom: pipeline_check "run_custom lib" "{CustomRule}" for lib
  by unfold_locales (auto simp: run_custom_def custom_check_def dest: eval_list_phase split: option.splits)

lemma owasp_rules_check_phase: "owasp_rules_check lib p ctx rules = Some res \<Longrightarrow> dr_phase res = phase.Owasp"
  by (induction rules) (auto split: if_splits)

interpretation owasp: pipeline_check "run_owasp lib" "{phase.Owasp}" for lib
  by unfold_locales (auto simp: run_owasp_def owasp_check_def dest: owasp_rules_check_phase split: if_splits)

interpretation sensitive: pipeline_check "run_sensitive lib" "{Sensitive}" for lib
  by unfold_locales (auto simp: run_sensitive_def sensitive_run_def sensitive_result_def Let_def split: option.splits if_splits)

interpretation hotlink: pipeline_check "run_hotlink lib" "{AntiHotlink}" for lib
  by unfold_locales (auto simp: run_hotlink_def hotlink_check_def hotlink_result_def Let_def split: option.splits if_splits)

section \<open>Every decision is recorded\<close>

text \<open>Which phases may report to which sinks.\<close>

definition sinks_ok :: "sinks \<Rightarrow> phase set \<Rightarrow> bool" where
  "sinks_ok k P \<longleftrightarrow> P \<inter> {IpBlacklist, UrlBlacklist} = {}
     \<and> (case k of AllSinks \<Rightarrow> P \<inter> {Ddos, phase.Community} = {} | _ \<Rightarrow> P \<subseteq> {Ddos, phase.Community})"

lemmas contracts = ddos.pipeline_check_axioms crowdsec.pipeline_check_axioms community.pipeline_check_axioms
  geo.pipeline_check_axioms rate_limit.pipeline_check_axioms tx.pipeline_check_axioms scanner.pipeline_check_axioms
  bot.pipeline_check_axioms xss.pipeline_check_axioms rce.pipeline_check_axioms traversal.pipeline_check_axioms
  sqli.pipeline_check_axioms appsec.pipeline_check_axioms custom.pipeline_check_axioms owasp.pipeline_check_axioms
  sensitive.pipeline_check_axioms hotlink.pipeline_check_axioms

lemma contractI: "pipeline_check c P \<Longrightarrow> sinks_ok k P \<Longrightarrow> \<exists>P. pipeline_check c P \<and> sinks_ok k P"
  by blast

lemma phases_contract:
  assumes "(k, c) \<in> set (phases lib env)"
  shows "\<exists>P. pipeline_check c P \<and> sinks_ok k P"
proof -
  have "list_all (\<lambda>(k, c). \<exists>P. pipeline_check c P \<and> sinks_ok k P) (phases lib env)"
    unfolding phases_def checkers_def append.simps list.map list.pred_inject(2) prod.case
    by (intro conjI list.pred_inject(1); rule contractI, rule contracts, simp add: sinks_ok_def)
  with assms show ?thesis by (auto simp: list_all_iff)
qed

text \<open>The records a decision calls for.\<close>

definition decision_records :: "inspect_env \<Rightarrow> request_ctx \<Rightarrow> waf_decision \<Rightarrow> bool \<Rightarrow> engine_record list" where
  "decision_records env ctx d audited =
     (case wd_result d of
        None \<Rightarrow> []
      | Some res \<Rightarrow>
          if wd_action d = Allow then []
          else (if dr_phase res \<in> {IpBlacklist, UrlBlacklist} then LogAttack (attack_log_of env ctx d res)
                else LogSecurity (security_event_of ctx d res))
               # (if audited \<and> dr_phase res \<notin> {Ddos, phase.Community} then [SendAudit (audit_event_of env ctx d res)] else []))"

lemma reporter_records [simp]:
  "we_records (report_community_signal env ctx d e) = we_records e"
  "we_audit_sender (report_community_signal env ctx d e) = we_audit_sender e"
  by (simp_all add: report_community_signal_def split: option.splits)

lemma log_audit [simp]:
  "we_audit_sender (log_security_event ctx d e) = we_audit_sender e"
  "we_audit_sender (log_attack env ctx d e) = we_audit_sender e"
  by (simp_all add: log_security_event_def log_attack_def split: option.splits)

lemma run_phases_records:
  assumes "run_phases env ps ctx e = Some (d, e')" and "\<forall>(k, c)\<in>set ps. \<exists>P. pipeline_check c P \<and> sinks_ok k P"
  shows "we_records e' = we_records e @ decision_records env ctx d (we_audit_sender e)"
  using assms
proof (induction ps arbitrary: e)
  case (Cons p ps)
  obtain k c where p: "p = (k, c)" by (cases p)
  with Cons.prems(2) obtain P where P: "pipeline_check c P" "sinks_ok k P" by auto
  from Cons.prems(1) p obtain r e1 where c: "c ctx e = Some (r, e1)" by (auto split: option.splits)
  note f = pipeline_check.frame [OF P(1) c]
  show ?case
  proof (cases r)
    case None
    then show ?thesis using Cons c f by (simp add: p)
  next
    case (Some res)
    have "dr_phase res \<in> P" using pipeline_check.phase [OF P(1)] c Some by blast
    then have ph: "dr_phase res \<notin> {IpBlacklist, UrlBlacklist}"
      "k = AllSinks \<longleftrightarrow> dr_phase res \<notin> {Ddos, phase.Community}"
      using P(2) by (auto simp: sinks_ok_def split: sinks.splits)
    from Cons.prems(1) c Some p have "d = detection_decision ctx res" "e' = record_decision env k ctx d e1"
      by (auto simp: Let_def)
    then show ?thesis using f ph
      by (cases k) (auto simp: record_decision_def detection_decision_def waf_block_def decision_records_def
          log_security_event_def send_audit_event_def)
  qed
qed (auto simp: decision_records_def waf_allow_def)

lemma record_list_block_records:
  assumes "wd_result d = Some res" and "wd_action d \<noteq> Allow" and "dr_phase res \<in> {IpBlacklist, UrlBlacklist}"
  shows "we_records (record_list_block env ctx d e) = we_records e @ decision_records env ctx d (we_audit_sender e)"
  using assms by (auto simp: record_list_block_def log_attack_def send_audit_event_def decision_records_def)

lemma allowance_records: "wd_action d = Allow \<Longrightarrow> decision_records env ctx d audited = []"
  by (simp add: decision_records_def split: option.splits)

lemma ip_blacklist_block:
  assumes "\<not> is_allowed (check_ip_blacklist net ctx st)"
  shows "\<exists>res. wd_result (check_ip_blacklist net ctx st) = Some res \<and> dr_phase res = IpBlacklist
     \<and> wd_action (check_ip_blacklist net ctx st) \<noteq> Allow
     \<and> ipr_matches net (rs_block_ips st) (hc_code (ctx_host_config ctx)) (ctx_client_ip ctx)"
  using assms by (auto simp: check_ip_blacklist_def is_allowed_def waf_allow_def waf_block_def split: if_splits)

lemma url_blacklist_block:
  assumes "\<not> is_allowed (check_url_blacklist ctx st)"
  shows "\<exists>res. wd_result (check_url_blacklist ctx st) = Some res \<and> dr_phase res = UrlBlacklist
     \<and> wd_action (check_url_blacklist ctx st) \<noteq> Allow
     \<and> urs_matches (rs_block_urls st) (hc_code (ctx_host_config ctx)) (ctx_path ctx) \<noteq> None"
  using assms by (auto simp: check_url_blacklist_def is_allowed_def waf_allow_def waf_block_def split: option.splits)

lemma inspect_lists_cases:
  assumes "inspect_lists lib env ctx e = Some (d, e')"
  obtains (allow) "wd_action d = Allow" "e' = e"
  | (ip) res where "d = check_ip_blacklist (rl_net (el_rules lib)) ctx (we_store e)" "e' = record_list_block env ctx d e"
      "ipr_matches (rl_net (el_rules lib)) (rs_block_ips (we_store e)) (hc_code (ctx_host_config ctx)) (ctx_client_ip ctx)"
      "wd_result d = Some res" "wd_action d \<noteq> Allow" "dr_phase res = IpBlacklist"
  | (url) res where "d = check_url_blacklist ctx (we_store e)" "e' = record_list_block env ctx d e"
      "urs_matches (rs_block_urls (we_store e)) (hc_code (ctx_host_config ctx)) (ctx_path ctx) \<noteq> None"
      "wd_result d = Some res" "wd_action d \<noteq> Allow" "dr_phase res = UrlBlacklist"
proof -
  let ?iw = "check_ip_whitelist (rl_net (el_rules lib)) ctx (we_store e)"
    and ?ib = "check_ip_blacklist (rl_net (el_rules lib)) ctx (we_store e)"
    and ?uw = "check_url_whitelist ctx (we_store e)" and ?ub = "check_url_blacklist ctx (we_store e)"
  define w where "w \<longleftrightarrow> (case wd_result ?iw of Some res \<Rightarrow> wd_action ?iw = Allow \<and> dr_phase res = IpWhitelist | None \<Rightarrow> False)"
  have eq: "Some (d, e') = (if w then Some (?iw, e) else if \<not> is_allowed ?ib then Some (?ib, record_list_block env ctx ?ib e)
      else (case ?uw of Some url_wl \<Rightarrow> Some (url_wl, e)
            | None \<Rightarrow> if \<not> is_allowed ?ub then Some (?ub, record_list_block env ctx ?ub e) else None))"
    using assms unfolding inspect_lists_def Let_def w_def by (rule sym)
  show ?thesis
  proof (cases w)
    case True
    then have "wd_action ?iw = Allow" by (auto simp: w_def split: option.splits)
    with True eq show ?thesis by (intro allow) simp_all
  next
    case nw: False
    show ?thesis
    proof (cases "is_allowed ?ib")
      case False
      from ip_blacklist_block [OF this] obtain res where "wd_result ?ib = Some res" "dr_phase res = IpBlacklist" "wd_action ?ib \<noteq> Allow"
        "ipr_matches (rl_net (el_rules lib)) (rs_block_ips (we_store e)) (hc_code (ctx_host_config ctx)) (ctx_client_ip ctx)"
        by blast
      with nw False eq show ?thesis by (intro ip [of res]) simp_all
    next
      case ai: True
      show ?thesis
      proof (cases ?uw)
        case (Some d')
        then have "wd_action d' = Allow" by (auto simp: check_url_whitelist_def split: option.splits)
        with Some nw ai eq show ?thesis by (intro allow) simp_all
      next
        case None
        with nw ai eq have nu: "\<not> is_allowed ?ub" by (auto split: if_splits)
        from url_blacklist_block [OF this] obtain res where "wd_result ?ub = Some res" "dr_phase res = UrlBlacklist" "wd_action ?ub \<noteq> Allow"
          "urs_matches (rs_block_urls (we_store e)) (hc_code (ctx_host_config ctx)) (ctx_path ctx) \<noteq> None"
          by blast
        with nw ai None nu eq show ?thesis by (intro url [of res]) simp_all
      qed
    qed
  qed
qed

lemma inspect_lists_records:
  assumes "inspect_lists lib env ctx e = Some (d, e')"
  shows "we_records e' = we_records e @ decision_records env ctx d (we_audit_sender e)"
  using assms by (cases rule: inspect_lists_cases) (simp_all add: allowance_records record_list_block_records)

lemma inspect_cases:
  assumes "inspect lib env ctx e = Some (d, ctx', e')"
  obtains (off) "\<not> hc_guard_status (ctx_host_config ctx)" "d = waf_allow" "e' = e"
  | (lists) "ctx' = enrich e ctx" "inspect_lists lib env ctx' e = Some (d, e')"
  | (run) "ctx' = enrich e ctx" "inspect_lists lib env ctx' e = None" "run_phases env (phases lib env) ctx' e = Some (d, e')"
  using assms by (auto simp: inspect_def Let_def split: if_splits option.splits)

text \<open>C1. Every decision leaves its trace: an inspection that allows a request records nothing, and one that
  does not adds exactly one row to the database, an attack log for the address and URL lists and a
  security event otherwise, with the request and the rule that decided; with an audit sender
  installed the decision is also mirrored to the audit stream, except a decision of the DDoS
  protection or of the community blocklist, which the audit stream never sees.\<close>

theorem decisions_recorded:
  assumes "inspect lib env ctx e = Some (d, ctx', e')"
  shows "we_records e' = we_records e @ decision_records env ctx' d (we_audit_sender e)"
  using assms
proof (cases rule: inspect_cases)
  case off
  then show ?thesis by (simp add: decision_records_def waf_allow_def)
next
  case lists
  then show ?thesis by (simp add: inspect_lists_records)
next
  case run
  then show ?thesis using phases_contract by (intro run_phases_records) (auto simp: case_prod_beta)
qed

definition sample_engine_lib :: "(string, string, ip_addr, string, unit) engine_lib" where
  "sample_engine_lib = \<lparr>el_rules = plain_lib, el_sets = prefix_lib, el_scan = no_scan_lib,
     el_ac = \<lparr>ac_build = \<lambda>_. None, ac_find = \<lambda>_ _. None\<rparr>, el_owasp = substring_owasp, el_to_uppercase = id,
     el_tx_is_match = sublist, el_node_from_json = \<lambda>_. None, el_conds_from_json = \<lambda>_. None\<rparr>"

definition sample_env :: inspect_env where
  "sample_env = \<lparr>ie_now = 0, ie_tx_now = 0, ie_instant = 0, ie_appsec = None\<rparr>"

definition blocklisted_engine :: "(string, string, ip_addr, unit, unit) waf_engine" where
  "blocklisted_engine = (waf_engine_new sample_engine_lib [] sqli_scan_default)\<lparr>we_audit_sender := True,
     we_store := rule_store_new\<lparr>rs_block_ips := [(''*'', [V4 192 0 2 1])]\<rparr>\<rparr>"

definition log_only_ctx :: request_ctx where
  "log_only_ctx = (probe_ctx [])\<lparr>ctx_host_config := host_config_default\<lparr>hc_log_only_mode := True\<rparr>\<rparr>"

lemma blocklisted_inspection:
  "\<exists>d e'. inspect sample_engine_lib sample_env log_only_ctx blocklisted_engine = Some (d, log_only_ctx, e') \<and> \<not> is_allowed d
     \<and> (\<exists>res. wd_result d = Some res \<and> dr_phase res = IpBlacklist)"
  by (simp add: inspect_def log_only_ctx_def blocklisted_engine_def probe_ctx_def host_config_default_def inspect_lists_def
      check_ip_whitelist_def check_ip_blacklist_def ipr_matches_def rule_store_new_def am_get_def any_net_def enrich_def
      waf_engine_new_def sample_engine_lib_def plain_lib_def exact_lib_def waf_allow_def waf_block_def is_allowed_def Let_def)

theorem decisions_recorded_witness:
  "\<exists>d e'. inspect sample_engine_lib sample_env log_only_ctx blocklisted_engine = Some (d, log_only_ctx, e')
     \<and> \<not> is_allowed d \<and> length (we_records e') = 2"
proof -
  obtain d e' res where i: "inspect sample_engine_lib sample_env log_only_ctx blocklisted_engine = Some (d, log_only_ctx, e')"
    "\<not> is_allowed d" "wd_result d = Some res" "dr_phase res = IpBlacklist"
    using blocklisted_inspection by blast
  then have "length (we_records e') = 2"
    using decisions_recorded [OF i(1)]
    by (simp add: decision_records_def blocklisted_engine_def waf_engine_new_def is_allowed_def split: waf_action.splits)
  with i show ?thesis by blast
qed

section \<open>Log-only mode\<close>

lemma run_phases_log_only:
  "run_phases env ps ctx e = Some (d, e') \<Longrightarrow> hc_log_only_mode (ctx_host_config ctx) \<Longrightarrow> is_allowed d"
proof (induction ps arbitrary: e)
  case (Cons p ps)
  then show ?case
    by (cases p) (auto simp: Let_def detection_decision_def is_allowed_def split: option.splits)
qed (auto simp: waf_allow_def is_allowed_def)

lemma enrich_config [simp]: "ctx_host_config (enrich e ctx) = ctx_host_config ctx" "ctx_client_ip (enrich e ctx) = ctx_client_ip ctx"
  "ctx_path (enrich e ctx) = ctx_path ctx"
  by (simp_all add: enrich_def split: option.splits)

text \<open>C2. On a host in log-only mode no detector stops a request: a decision that is not an allowance comes
  from the address or the URL blacklist, which the mode does not switch off.\<close>

theorem log_only_blocks_by_lists:
  assumes "inspect lib env ctx e = Some (d, ctx', e')" and "hc_log_only_mode (ctx_host_config ctx)" and "\<not> is_allowed d"
  shows "ipr_matches (rl_net (el_rules lib)) (rs_block_ips (we_store e)) (hc_code (ctx_host_config ctx)) (ctx_client_ip ctx)
     \<or> urs_matches (rs_block_urls (we_store e)) (hc_code (ctx_host_config ctx)) (ctx_path ctx) \<noteq> None"
  using assms(1)
proof (cases rule: inspect_cases)
  case off
  then show ?thesis using assms(3) by (simp add: waf_allow_def is_allowed_def)
next
  case lists
  from lists(2) show ?thesis using assms(3) lists(1)
    by (cases rule: inspect_lists_cases) (auto simp: is_allowed_def)
next
  case run
  then show ?thesis using run_phases_log_only assms(2,3) by fastforce
qed

theorem log_only_blocks_by_lists_witness:
  "ipr_matches exact_lib [(''*'', [V4 192 0 2 1])] [] (V4 192 0 2 1)"
proof -
  obtain d e' where "inspect sample_engine_lib sample_env log_only_ctx blocklisted_engine = Some (d, log_only_ctx, e')" "\<not> is_allowed d"
    using blocklisted_inspection by blast
  from log_only_blocks_by_lists [OF this(1) _ this(2)] show ?thesis
    by (simp add: log_only_ctx_def probe_ctx_def host_config_default_def blocklisted_engine_def waf_engine_new_def
        rule_store_new_def urs_matches_def first_rule_def am_get_def sample_engine_lib_def plain_lib_def)
qed

section \<open>An inspection returns\<close>

text \<open>The files of the limiters either failed to load, which leaves the default, or were validated.\<close>

definition limits_loaded :: "('x, 'g, 'n, 'a, 'k) waf_engine \<Rightarrow> bool" where
  "limits_loaded e \<longleftrightarrow>
     (\<forall>t l. for_tier (we_rate_limit_cfg e) t = Some l \<longrightarrow> 0 < lc_window_secs l)
     \<and> (\<forall>t c. ddos_for_tier (we_ddos_cfg e) t = Some c \<longrightarrow> 0 < dt_per_fp_window_s c)"

lemma started_limits_loaded:
  "limits_loaded (start_ddos_watcher (ddos_from_yaml_str parse_d s_d) w2
     (start_rate_limit_watcher (rl_from_yaml_str parse_r s_r) w1 (waf_engine_new lib owasp sqli_cfg)))"
proof -
  have "0 < lc_window_secs l" if "for_tier c t = Some l" "rl_from_yaml_str parse_r s_r = Inr c" for c t l
    using loaded_limit [OF that(2,1)] by simp
  moreover have "0 < dt_per_fp_window_s x" if x: "ddos_for_tier c t = Some x" and c: "ddos_from_yaml_str parse_d s_d = Inr c" for c t x
  proof -
    obtain f where f: "ddos_validate f = Inr ()" "c = ddos_into_runtime f"
      using c by (auto simp: ddos_from_yaml_str_def split: sum.splits)
    then have "ddos_validate_tiers (ddos_iter_tiers f) = Inr ()"
      by (auto simp: ddos_validate_def split: if_splits sum.splits)
    then show ?thesis using ddos_for_tier_runtime [of f t x] x f(2) ddos_validate_tiers_ok by fastforce
  qed
  ultimately show ?thesis
    by (auto simp: limits_loaded_def start_ddos_watcher_def start_rate_limit_watcher_def waf_engine_new_def Let_def
        rlc_default_def for_tier_def ddos_config_default_def ddos_for_tier_def split: sum.splits)
qed

lemma ddos_check_total:
  assumes "\<forall>t c. ddos_for_tier snap t = Some c \<longrightarrow> 0 < dt_per_fp_window_s c"
  shows "\<exists>r st'. ddos_check engine_detectors engine_actions snap now ctx st = Some (r, st')"
proof (cases "ddos_for_tier snap (ctx_tier ctx)")
  case (Some cfg)
  with assms have "0 < lc_window_secs (to_limit_cfg cfg)" by (auto simp: to_limit_cfg_def)
  then obtain d m where "check_and_consume_inner (per_ip_key ctx) (to_limit_cfg cfg) now (dk_detectors st) = Some (d, m)"
    using check_and_consume_total [of "to_limit_cfg cfg" "per_ip_key ctx" now "dk_detectors st"] by auto
  then have "\<exists>r st'. run_detectors engine_detectors engine_actions ctx cfg now st = Some (r, st')"
    by (cases d) (auto simp: engine_detectors_def per_ip_detector_def per_ip_evaluate_def memory_check_and_consume_def Let_def
        split: prod.splits)
  then show ?thesis using Some by (auto simp: ddos_check_def Let_def split: degrade_action.splits)
qed (simp add: ddos_check_def)

definition returns :: "('x, 'g, 'n, 'a, 'k) engine_check \<Rightarrow> bool" where
  "returns c \<longleftrightarrow> (\<forall>ctx e. limits_loaded e \<longrightarrow> (\<exists>r e'. c ctx e = Some (r, e') \<and> limits_loaded e'))"

lemma returns_stateless: "(\<And>ctx e. \<exists>r. c ctx e = Some (r, e)) \<Longrightarrow> returns c"
  unfolding returns_def by metis

lemma returns_ddos: "returns (run_ddos env)"
  unfolding returns_def run_ddos_def
proof (intro allI impI)
  fix ctx :: request_ctx and e :: "('a, 'b, 'c, 'd, 'e) waf_engine"
  assume l: "limits_loaded e"
  then obtain r st where "ddos_check engine_detectors engine_actions (we_ddos_cfg e) (ie_now env) ctx (we_ddos e) = Some (r, st)"
    using ddos_check_total [of "we_ddos_cfg e" "ie_now env" ctx "we_ddos e"] unfolding limits_loaded_def by blast
  with l show "\<exists>r e'. map_option (\<lambda>(r, st). (r, e\<lparr>we_ddos := st\<rparr>))
      (ddos_check engine_detectors engine_actions (we_ddos_cfg e) (ie_now env) ctx (we_ddos e)) = Some (r, e') \<and> limits_loaded e'"
    by (simp add: limits_loaded_def)
qed

lemma returns_rate_limit: "returns (run_rate_limit env)"
  unfolding returns_def run_rate_limit_def
proof (intro allI impI)
  fix ctx :: request_ctx and e :: "('a, 'b, 'c, 'd, 'e) waf_engine"
  assume l: "limits_loaded e"
  then obtain r st where "rl_check memory_rl (we_rate_limit_cfg e) (ie_now env) ctx (we_rate_limit_store e) = Some (r, st)"
    using rl_check_memory_total [of "we_rate_limit_cfg e" "ie_now env" ctx "we_rate_limit_store e"]
    unfolding limits_loaded_def by blast
  with l show "\<exists>r e'. map_option (\<lambda>(r, st). (r, e\<lparr>we_rate_limit_store := st\<rparr>))
      (rl_check memory_rl (we_rate_limit_cfg e) (ie_now env) ctx (we_rate_limit_store e)) = Some (r, e') \<and> limits_loaded e'"
    by (simp add: limits_loaded_def)
qed

lemma returns_crowdsec: "returns (run_crowdsec lib env)"
  by (auto simp: returns_def run_crowdsec_def limits_loaded_def split: option.splits prod.splits)

lemma returns_tx: "returns (run_tx_velocity lib env)"
  by (auto simp: returns_def run_tx_velocity_def limits_loaded_def split: prod.splits)

lemma returns_sqli: "rx_set_new (el_sets lib) SQLI_PATTERNS \<noteq> None \<Longrightarrow> returns (run_sqli lib)"
  by (rule returns_stateless) (auto simp: run_sqli_def sqli_check_def split: option.splits)

lemma phases_return:
  assumes "rx_set_new (el_sets lib) SQLI_PATTERNS \<noteq> None"
  shows "list_all (\<lambda>(k, c). returns c) (phases lib env)"
  by (simp add: phases_def checkers_def returns_ddos returns_rate_limit returns_crowdsec returns_tx returns_sqli assms
      returns_stateless run_community_def run_geo_def pure_check_def run_appsec_def run_custom_def
      run_owasp_def run_sensitive_def run_hotlink_def)

lemma run_phases_return:
  assumes "list_all (\<lambda>(k, c). returns c) ps" and "limits_loaded e"
  shows "\<exists>d e'. run_phases env ps ctx e = Some (d, e') \<and> limits_loaded e'"
  using assms
proof (induction ps arbitrary: e)
  case (Cons p ps)
  obtain k c where p: "p = (k, c)" by (cases p)
  with Cons.prems obtain r e1 where c: "c ctx e = Some (r, e1)" "limits_loaded e1" unfolding returns_def by fastforce
  show ?case
  proof (cases r)
    case None
    then show ?thesis using Cons c by (simp add: p)
  next
    case (Some res)
    then show ?thesis using c
      by (auto simp: p Let_def limits_loaded_def record_decision_def log_security_event_def send_audit_event_def
          report_community_signal_def split: sinks.splits option.splits)
  qed
qed simp

lemma inspect_lists_limits: "inspect_lists lib env ctx e = Some (d, e') \<Longrightarrow> limits_loaded e \<Longrightarrow> limits_loaded e'"
  by (erule inspect_lists_cases)
     (auto simp: limits_loaded_def record_list_block_def log_attack_def send_audit_event_def report_community_signal_def
        split: option.splits)

lemma inspect_total:
  assumes "rx_set_new (el_sets lib) SQLI_PATTERNS \<noteq> None" and "limits_loaded e"
  shows "\<exists>d ctx' e'. inspect lib env ctx e = Some (d, ctx', e') \<and> limits_loaded e'"
proof (cases "inspect_lists lib env (enrich e ctx) e")
  case None
  then show ?thesis using run_phases_return [OF phases_return [OF assms(1)] assms(2), of env env "enrich e ctx"] assms(2)
    by (auto simp: inspect_def Let_def)
next
  case (Some p)
  then show ?thesis using inspect_lists_limits assms(2) by (cases p) (auto simp: inspect_def Let_def)
qed

text \<open>A run of inspections: the decisions in order, or \<open>None\<close> if one of them panics.\<close>

fun inspect_all :: "('x, 'g, 'n, 'r, 'a) engine_lib \<Rightarrow> (inspect_env \<times> request_ctx) list \<Rightarrow> ('x, 'g, 'n, 'a, 'k) waf_engine \<Rightarrow>
    waf_decision list option" where
  "inspect_all lib [] e = Some []"
| "inspect_all lib ((env, ctx) # reqs) e =
     (case inspect lib env ctx e of
        None \<Rightarrow> None
      | Some (d, _, e') \<Rightarrow> map_option (Cons d) (inspect_all lib reqs e'))"

lemma inspect_all_total:
  assumes "rx_set_new (el_sets lib) SQLI_PATTERNS \<noteq> None" and "limits_loaded e"
  shows "\<exists>ds. inspect_all lib reqs e = Some ds \<and> length ds = length reqs"
  using assms(2)
proof (induction reqs arbitrary: e)
  case (Cons r reqs)
  obtain env ctx where r: "r = (env, ctx)" by (cases r)
  obtain d ctx' e' where i: "inspect lib env ctx e = Some (d, ctx', e')" "limits_loaded e'"
    using inspect_total [OF assms(1) Cons.prems] by blast
  then obtain ds where "inspect_all lib reqs e' = Some ds" "length ds = length reqs" using Cons.IH by blast
  with i show ?case by (simp add: r)
qed simp

text \<open>C3. An inspection always returns a decision: whatever the files of the rate limiter and of the DDoS
  protection contain, an engine that started with them answers every request of any sequence of
  requests, as long as the built-in SQL patterns compile.\<close>

theorem inspections_return:
  assumes "rx_set_new (el_sets lib) SQLI_PATTERNS \<noteq> None"
  shows "\<exists>ds. inspect_all lib reqs (start_ddos_watcher (ddos_from_yaml_str parse_d s_d) w2
     (start_rate_limit_watcher (rl_from_yaml_str parse_r s_r) w1 (waf_engine_new lib owasp sqli_cfg))) = Some ds
     \<and> length ds = length reqs"
  by (rule inspect_all_total [OF assms started_limits_loaded])

theorem inspections_return_witness:
  "\<exists>ds. inspect_all sample_engine_lib [(sample_env, probe_ctx ''q=1''), (sample_env, probe_ctx ''%3Cb'')]
     (start_ddos_watcher (ddos_from_yaml_str (\<lambda>_. Inl ()) ''x'') True
       (start_rate_limit_watcher (rl_from_yaml_str (\<lambda>_. Inr sample_file) ''y'') True
         (waf_engine_new sample_engine_lib [] sqli_scan_default :: (_, _, _, _, unit) waf_engine))) = Some ds \<and> length ds = 2"
proof -
  have "rx_set_new (el_sets sample_engine_lib) SQLI_PATTERNS \<noteq> None"
    by (simp add: sample_engine_lib_def prefix_lib_def)
  from inspections_return [OF this, of "[(sample_env, probe_ctx ''q=1''), (sample_env, probe_ctx ''%3Cb'')]"
      "\<lambda>_. Inl ()" "''x''" True "\<lambda>_. Inr sample_file" "''y''" True "[]" sqli_scan_default]
  show ?thesis by (simp add: numeral_2_eq_2 del: inspect_all.simps)
qed

section \<open>The action of a custom rule\<close>

text \<open>The same rules with another action, status and message.\<close>

definition with_action :: "rule_action \<Rightarrow> nat \<Rightarrow> string option \<Rightarrow> ('x, 'g, 'n) custom_rules_engine \<Rightarrow> ('x, 'g, 'n) custom_rules_engine" where
  "with_action a st msg s =
     map (\<lambda>(h, b). (h, map (\<lambda>en. en\<lparr>re_raw := (re_raw en)\<lparr>cr_action := a, cr_action_status := st, cr_action_msg := msg\<rparr>\<rparr>) b)) s"

lemma with_action_get:
  "am_get (with_action a st msg s) h =
     map_option (map (\<lambda>en. en\<lparr>re_raw := (re_raw en)\<lparr>cr_action := a, cr_action_status := st, cr_action_msg := msg\<rparr>\<rparr>)) (am_get s h)"
  by (induction s) (auto simp: with_action_def am_get_def)

lemma entry_matches_action:
  "entry_matches lib ctx (en\<lparr>re_raw := (re_raw en)\<lparr>cr_action := a, cr_action_status := st, cr_action_msg := msg\<rparr>\<rparr>) =
     entry_matches lib ctx en"
  by (simp add: entry_matches_def split: option.splits)

lemma eval_list_with_action:
  "eval_list lib ctx (map (\<lambda>en. en\<lparr>re_raw := (re_raw en)\<lparr>cr_action := a, cr_action_status := st, cr_action_msg := msg\<rparr>\<rparr>) b) =
     eval_list lib ctx b"
  by (induction b) (simp_all add: entry_matches_action rule_result_def)

lemma custom_check_with_action: "custom_check lib (with_action a st msg s) ctx = custom_check lib s ctx"
  by (simp add: custom_check_def with_action_get eval_list_with_action split: option.splits)

definition relabel :: "rule_action \<Rightarrow> nat \<Rightarrow> string option \<Rightarrow> ('x, 'g, 'n, 'a, 'k) waf_engine \<Rightarrow> ('x, 'g, 'n, 'a, 'k) waf_engine" where
  "relabel a st msg e = e\<lparr>we_custom_rules := with_action a st msg (we_custom_rules e)\<rparr>"

definition blind :: "('x, 'g, 'n, 'a, 'k) engine_check \<Rightarrow> bool" where
  "blind c \<longleftrightarrow> (\<forall>a st msg ctx e. c ctx (relabel a st msg e) = map_option (\<lambda>(r, e'). (r, relabel a st msg e')) (c ctx e))"

lemma blind_checks:
  "blind (run_ddos env)" "blind (run_crowdsec lib env)" "blind run_community" "blind (run_geo lib)"
  "blind (run_rate_limit env)" "blind (run_tx_velocity lib env)" "blind (run_sqli lib)" "blind (run_appsec env)"
  "blind (run_custom lib)" "blind (run_owasp lib)" "blind (run_sensitive lib)" "blind (run_hotlink lib)" "blind (pure_check f)"
  unfolding blind_def relabel_def
  by (auto simp: run_ddos_def run_crowdsec_def run_community_def run_geo_def run_rate_limit_def run_tx_velocity_def run_sqli_def
      run_appsec_def run_custom_def run_owasp_def run_sensitive_def run_hotlink_def pure_check_def custom_check_with_action
      option.map_comp comp_def split: option.splits prod.splits intro!: option.map_cong)

lemma phases_blind: "list_all (\<lambda>(k, c). blind c) (phases lib env)"
  by (simp add: phases_def checkers_def blind_checks)

lemma log_relabel [simp]:
  "log_attack env ctx d (relabel a st msg e) = relabel a st msg (log_attack env ctx d e)"
  "log_security_event ctx d (relabel a st msg e) = relabel a st msg (log_security_event ctx d e)"
  "send_audit_event env ctx d (relabel a st msg e) = relabel a st msg (send_audit_event env ctx d e)"
  "report_community_signal env ctx d (relabel a st msg e) = relabel a st msg (report_community_signal env ctx d e)"
  by (simp_all add: relabel_def log_attack_def log_security_event_def send_audit_event_def report_community_signal_def
      split: option.splits)

lemma record_relabel:
  "record_decision env k ctx d (relabel a st msg e) = relabel a st msg (record_decision env k ctx d e)"
  "record_list_block env ctx d (relabel a st msg e) = relabel a st msg (record_list_block env ctx d e)"
  by (simp_all add: record_decision_def record_list_block_def Let_def split: sinks.splits)

lemma run_phases_relabel:
  "list_all (\<lambda>(k, c). blind c) ps \<Longrightarrow>
   run_phases env ps ctx (relabel a st msg e) = map_option (\<lambda>(d, e'). (d, relabel a st msg e')) (run_phases env ps ctx e)"
proof (induction ps arbitrary: e)
  case (Cons p ps)
  obtain k c where p: "p = (k, c)" by (cases p)
  have "c ctx (relabel a st msg e) = map_option (\<lambda>(r, e'). (r, relabel a st msg e')) (c ctx e)"
    using Cons.prems by (simp add: p blind_def)
  then show ?case using Cons by (auto simp: p Let_def record_relabel split: option.splits)
qed simp

text \<open>C29. The action of a custom rule is never looked at: with every custom rule's action, status and message
  replaced by any others, say those of a rule that allows or only logs, an inspection makes the same
  decision and leaves the same state, so a rule meant to allow blocks with the status 403.\<close>

theorem rule_actions_ignored:
  "inspect lib env ctx (relabel a st msg e) = map_option (\<lambda>(d, ctx', e'). (d, ctx', relabel a st msg e')) (inspect lib env ctx e)"
proof -
  have ge: "enrich (relabel a st msg e) ctx = enrich e ctx" by (simp add: enrich_def relabel_def)
  have "inspect_lists lib env c (relabel a st msg e) = map_option (\<lambda>(d, e'). (d, relabel a st msg e')) (inspect_lists lib env c e)" for c
  proof -
    have "we_store (relabel a st msg e) = we_store e" by (simp add: relabel_def)
    then show ?thesis by (auto simp: inspect_lists_def Let_def record_relabel split: option.splits)
  qed
  then show ?thesis unfolding inspect_def ge
    by (auto simp: Let_def run_phases_relabel [OF phases_blind] option.map_comp comp_def case_prod_beta split: option.splits)
qed

section \<open>What a reload installs\<close>

text \<open>The rules of the database for a host that convert.\<close>

definition db_rules_for :: "('x, 'g, 'n, 'r, 'a) engine_lib \<Rightarrow> db_custom_rule list \<Rightarrow> string \<Rightarrow> custom_rule list" where
  "db_rules_for lib rows h =
     List.map_filter (from_db_rule (el_node_from_json lib) (el_conds_from_json lib)) (filter (\<lambda>r. db_host_code r = h) rows)"

lemma rows_for_db_rules:
  "rows_for h (List.map_filter (\<lambda>row. map_option (Pair (db_host_code row))
     (from_db_rule (el_node_from_json lib) (el_conds_from_json lib) row)) rows) = db_rules_for lib rows h"
  by (induction rows) (auto simp: rows_for_def db_rules_for_def List.map_filter_simps split: option.splits)

definition db_entries :: "('x, 'g, 'n, 'r, 'a) engine_lib \<Rightarrow> db_custom_rule list \<Rightarrow> string \<Rightarrow> ('x, 'g, 'n) rule_entry list" where
  "db_entries lib rows h =
     by_priority (map (\<lambda>r. from_rule_with_source (el_rules lib) r SrcDb) (filter cr_enabled (db_rules_for lib rows h)))"

lemma load_db_bucket:
  "bucket (fold (\<lambda>(h, rules). custom_load_host (el_rules lib) h rules) (rules_by_host lib rows) s) h =
     (if db_rules_for lib rows h = [] then bucket s h else db_entries lib rows h)"
proof -
  have "fold (\<lambda>(h, rules). custom_load_host (el_rules lib) h rules) (rules_by_host lib rows) s =
      fold (\<lambda>(h, rules). am_put h (by_priority (map (\<lambda>r. from_rule_with_source (el_rules lib) r SrcDb) (filter cr_enabled rules))))
        (rules_by_host lib rows) s"
    by (simp add: custom_load_host_def [abs_def])
  then show ?thesis
    using fold_put_get [of "rules_by_host lib rows" "\<lambda>rules. by_priority (map (\<lambda>r. from_rule_with_source (el_rules lib) r SrcDb)
        (filter cr_enabled rules))" s h]
    by (simp add: rules_by_host_def group_rows_get bucket_def db_entries_def rows_for_db_rules)
qed

lemma load_db_sorted:
  "buckets_sorted s \<Longrightarrow> buckets_sorted (fold (\<lambda>(h, rules). custom_load_host rl h rules) l s)"
proof -
  assume "buckets_sorted s"
  moreover have "fold (\<lambda>(h, rules). custom_load_host rl h rules) l s = fold (engine_step rl) (map (\<lambda>(h, rules). LoadHost h rules) l) s"
    by (induction l arbitrary: s) auto
  ultimately show ?thesis by (simp add: engine_run_sorted)
qed

lemma by_priority_filter_id: "buckets_sorted s \<Longrightarrow> by_priority (of_source src s h) = of_source src s h"
  using bucket_sorted [of s h] by (intro by_priority_sorted) (simp add: of_source_def sorted_map_filter)

lemma of_source_db_entries:
  "filter (\<lambda>e. re_source e = src) (db_entries lib rows h) = (if src = SrcDb then db_entries lib rows h else [])"
  by (auto simp: db_entries_def filter_by_priority filter_map comp_def by_priority_def)

lemma load_custom_source:
  assumes "buckets_sorted s"
  shows "of_source src (load_custom_rules lib rows (Some files) s) h =
    by_priority ((if db_rules_for lib rows h = [] then of_source src s h else if src = SrcDb then db_entries lib rows h else [])
      @ (if src = SrcFile then map (\<lambda>r. from_rule_with_source (el_rules lib) r SrcFile) (filter (\<lambda>r. cr_host_code r = h) files)
         else []))"
  using add_files_source [OF load_db_sorted [OF assms, of "el_rules lib" "rules_by_host lib rows"], of src "el_rules lib" files h]
  by (simp add: load_custom_rules_def Let_def of_source_def load_db_bucket of_source_db_entries)

text \<open>C30. What a reload does to the custom rules of a host: if the database has rules for the host, the
  host gets exactly those that are enabled and the file rules, each in order of priority.  If it has
  none, the rules loaded for the host before stay in force, although they are no longer in the
  database, and the file rules are added to the copies that earlier reloads left.\<close>

theorem reload_installs:
  assumes "reload_rules lib yl db dir e = (Inr (), e')" and "ed_custom_rules db = Inr rows"
    and "load_dir yl dir = Some files" and "buckets_sorted (we_custom_rules e)"
  shows "if db_rules_for lib rows h \<noteq> []
    then of_source SrcDb (we_custom_rules e') h = db_entries lib rows h
      \<and> of_source SrcFile (we_custom_rules e') h = file_entries (el_rules lib) files h
    else of_source SrcDb (we_custom_rules e') h = of_source SrcDb (we_custom_rules e) h
      \<and> of_source SrcFile (we_custom_rules e') h =
          by_priority (of_source SrcFile (we_custom_rules e) h @ file_entries (el_rules lib) files h)"
proof -
  let ?s = "we_custom_rules e"
  have e': "we_custom_rules e' = load_custom_rules lib rows (Some files) ?s"
    using assms(1-3) by (auto simp: reload_rules_def Let_def split: prod.splits sum.splits)
  have db: "by_priority (db_entries lib rows h) = db_entries lib rows h"
    by (simp add: db_entries_def by_priority_def sort_key_id_if_sorted)
  show ?thesis using by_priority_filter_id [OF assms(4)]
    by (simp add: e' load_custom_source [OF assms(4)] db file_entries_def by_priority_again)
qed

definition sample_db :: "unit engine_db" where
  "sample_db = \<lparr>ed_rules = \<lparr>list_allow_ips = \<lambda>_. Inr [], list_block_ips = \<lambda>_. Inr [], list_allow_urls = \<lambda>_. Inr [],
     list_block_urls = \<lambda>_. Inr []\<rparr>, ed_custom_rules = Inr [], ed_sensitive_patterns = Inr [], ed_hotlink_configs = Inr []\<rparr>"

definition loaded_engine :: "(string, string, ip_addr, unit, unit) waf_engine" where
  "loaded_engine = (waf_engine_new sample_engine_lib [] sqli_scan_default)\<lparr>we_custom_rules :=
     [(''*'', [from_rule_with_source plain_lib sample_rule SrcDb])]\<rparr>"

theorem reload_installs_witness:
  "\<exists>e'. reload_rules sample_engine_lib sample_yaml_lib sample_db NotADirectory loaded_engine = (Inr (), e')
     \<and> of_source SrcDb (we_custom_rules e') ''*'' = [from_rule_with_source plain_lib sample_rule SrcDb]"
proof -
  obtain e' where r: "reload_rules sample_engine_lib sample_yaml_lib sample_db NotADirectory loaded_engine = (Inr (), e')"
    by (simp add: reload_rules_def sample_db_def reload_all_def list_rows_def Let_def)
  have "buckets_sorted (we_custom_rules loaded_engine)"
    by (auto simp: buckets_sorted_def loaded_engine_def am_get_def split: if_splits)
  from reload_installs [OF r _ _ this, of "[]" "[]" "''*''"]
  have "of_source SrcDb (we_custom_rules e') ''*'' = [from_rule_with_source plain_lib sample_rule SrcDb]"
    by (simp add: sample_db_def load_dir_def db_rules_for_def loaded_engine_def of_source_def bucket_def am_get_def)
  with r show ?thesis by blast
qed

end
