(* ===== verification/Registry.thy ===== *)
theory Registry
  imports Prelude "HOL-Library.List_Lexorder" "HOL-Library.Char_ord"
begin

text \<open>
  The rule registry (waf-engine/src/rules/registry.rs): the rules by identifier, the index of
  identifiers by category and the one by source, and the version counter.  The hash maps are the
  keyed maps of the prelude; where the code walks a map the order is that of the list, one of the
  orders the code may see.
\<close>

record rule =
  r_id :: string
  r_name :: string
  r_description :: "string option"
  r_category :: string
  r_source :: string
  r_enabled :: bool
  r_action :: string
  r_severity :: "string option"
  r_pattern :: "string option"
  r_tags :: "string list"
  r_metadata :: "(string, string) amap"

record rule_registry =
  rr_rules :: "(string, rule) amap"
  rr_by_category :: "(string, string list) amap"
  rr_by_source :: "(string, string list) amap"
  rr_version :: u64
  rr_loaded_at :: "int option"

definition registry_new :: rule_registry where
  "registry_new = \<lparr>rr_rules = [], rr_by_category = [], rr_by_source = [], rr_version = 0, rr_loaded_at = None\<rparr>"

definition drop_id :: "string \<Rightarrow> (string, string list) amap \<Rightarrow> (string, string list) amap" where
  "drop_id i ix = map (\<lambda>(k, ids). (k, filter (\<lambda>x. x \<noteq> i) ids)) ix"

definition remove_index :: "string \<Rightarrow> rule_registry \<Rightarrow> rule_registry" where
  "remove_index i g = g\<lparr>rr_by_category := drop_id i (rr_by_category g), rr_by_source := drop_id i (rr_by_source g)\<rparr>"

definition push_id :: "string \<Rightarrow> string \<Rightarrow> (string, string list) amap \<Rightarrow> (string, string list) amap" where
  "push_id k i ix = am_put k ((case am_get ix k of Some ids \<Rightarrow> ids | None \<Rightarrow> []) @ [i]) ix"

definition registry_insert :: "rule \<Rightarrow> rule_registry \<Rightarrow> rule_registry" where
  "registry_insert r g =
     (let i = r_id r;
          g = (if am_get (rr_rules g) i \<noteq> None then remove_index i g else g)
      in g\<lparr>rr_by_category := push_id (r_category r) i (rr_by_category g),
           rr_by_source := push_id (r_source r) i (rr_by_source g),
           rr_rules := am_put i r (rr_rules g), rr_version := rr_version g + 1\<rparr>)"

definition registry_remove :: "string \<Rightarrow> rule_registry \<Rightarrow> rule option \<times> rule_registry" where
  "registry_remove i g =
     (case am_get (rr_rules g) i of
        None \<Rightarrow> (None, g)
      | Some r \<Rightarrow>
          let g = remove_index i (g\<lparr>rr_rules := am_del i (rr_rules g)\<rparr>)
          in (Some r, g\<lparr>rr_version := rr_version g + 1\<rparr>))"

definition registry_get :: "rule_registry \<Rightarrow> string \<Rightarrow> rule option" where
  "registry_get g i = am_get (rr_rules g) i"

definition registry_list :: "rule_registry \<Rightarrow> rule list" where
  "registry_list g = sort_key r_id (map snd (rr_rules g))"

definition indexed :: "(string, string list) amap \<Rightarrow> rule_registry \<Rightarrow> string \<Rightarrow> rule list" where
  "indexed ix g k = (case am_get ix k of Some ids \<Rightarrow> List.map_filter (am_get (rr_rules g)) ids | None \<Rightarrow> [])"

definition filter_by_category :: "rule_registry \<Rightarrow> string \<Rightarrow> rule list" where
  "filter_by_category g k = indexed (rr_by_category g) g k"

definition filter_by_source :: "rule_registry \<Rightarrow> string \<Rightarrow> rule list" where
  "filter_by_source g k = indexed (rr_by_source g) g k"

definition registry_clear :: "rule_registry \<Rightarrow> rule_registry" where
  "registry_clear g = g\<lparr>rr_rules := [], rr_by_category := [], rr_by_source := [], rr_version := 0, rr_loaded_at := None\<rparr>"

definition mark_loaded :: "int \<Rightarrow> rule_registry \<Rightarrow> rule_registry" where
  "mark_loaded now g = g\<lparr>rr_loaded_at := Some now\<rparr>"

record rule_stats =
  st_total :: nat
  st_enabled :: nat
  st_disabled :: nat
  st_by_category :: "(string, nat) amap"
  st_by_source :: "(string, nat) amap"
  st_version :: u64

definition tally :: "('a \<Rightarrow> string) \<Rightarrow> 'a list \<Rightarrow> (string, nat) amap" where
  "tally f xs = fold (\<lambda>x m. am_put (f x) (Suc (case am_get m (f x) of Some n \<Rightarrow> n | None \<Rightarrow> 0)) m) xs []"

definition registry_stats :: "rule_registry \<Rightarrow> rule_stats" where
  "registry_stats g =
     (let rules = map snd (rr_rules g); enabled = length (filter r_enabled rules)
      in \<lparr>st_total = length rules, st_enabled = enabled, st_disabled = length rules - enabled,
          st_by_category = tally r_category rules, st_by_source = tally r_source rules,
          st_version = rr_version g\<rparr>)"

text \<open>
  The well-formed registries: every rule stands under its own identifier, and each index lists
  under a key exactly the identifiers of the rules with that key, each once.
\<close>

definition index_wf :: "(rule \<Rightarrow> string) \<Rightarrow> (string, rule) amap \<Rightarrow> (string, string list) amap \<Rightarrow> bool" where
  "index_wf f rules ix \<longleftrightarrow> am_wf ix \<and>
     (\<forall>k. let ids = (case am_get ix k of Some ids \<Rightarrow> ids | None \<Rightarrow> [])
           in distinct ids \<and> set ids = {i. \<exists>r. am_get rules i = Some r \<and> f r = k})"

definition registry_wf :: "rule_registry \<Rightarrow> bool" where
  "registry_wf g \<longleftrightarrow> am_wf (rr_rules g) \<and> (\<forall>i r. am_get (rr_rules g) i = Some r \<longrightarrow> r_id r = i)
     \<and> index_wf r_category (rr_rules g) (rr_by_category g) \<and> index_wf r_source (rr_rules g) (rr_by_source g)"

datatype registry_op = Insert rule | Remove string | Clear | MarkLoaded int

fun registry_step :: "registry_op \<Rightarrow> rule_registry \<Rightarrow> rule_registry" where
  "registry_step (Insert r) g = registry_insert r g"
| "registry_step (Remove i) g = snd (registry_remove i g)"
| "registry_step Clear g = registry_clear g"
| "registry_step (MarkLoaded now) g = mark_loaded now g"

text \<open>What a history of operations leaves behind, as a map of rules.\<close>

fun rules_after :: "registry_op list \<Rightarrow> string \<Rightarrow> rule option" where
  "rules_after [] = (\<lambda>_. None)"
| "rules_after (op # ops) =
     (case op of
        Insert r \<Rightarrow> (rules_after ops)(r_id r \<mapsto> r)
      | Remove i \<Rightarrow> (rules_after ops)(i := None)
      | Clear \<Rightarrow> (\<lambda>_. None)
      | MarkLoaded _ \<Rightarrow> rules_after ops)"

lemma get_drop_id: "am_get (drop_id i ix) k = map_option (filter (\<lambda>x. x \<noteq> i)) (am_get ix k)"
  unfolding am_get_def drop_id_def by (induction ix) auto

lemma wf_drop_id: "am_wf ix \<Longrightarrow> am_wf (drop_id i ix)"
  unfolding am_wf_def drop_id_def by (simp add: comp_def case_prod_unfold)

lemma index_wf_ids:
  assumes "index_wf f rules ix"
  shows "distinct (case am_get ix k of Some ids \<Rightarrow> ids | None \<Rightarrow> [])"
    and "set (case am_get ix k of Some ids \<Rightarrow> ids | None \<Rightarrow> []) = {i. \<exists>r. am_get rules i = Some r \<and> f r = k}"
  using assms unfolding index_wf_def by (auto simp: Let_def)

lemma index_wf_drop:
  assumes "index_wf f rules ix"
  shows "index_wf f (am_del i rules) (drop_id i ix)"
proof -
  have "distinct (case am_get (drop_id i ix) k of Some ids \<Rightarrow> ids | None \<Rightarrow> []) \<and>
        set (case am_get (drop_id i ix) k of Some ids \<Rightarrow> ids | None \<Rightarrow> []) =
          {j. \<exists>r. am_get (am_del i rules) j = Some r \<and> f r = k}" for k
    using index_wf_ids [OF assms, of k] by (cases "am_get ix k") (auto simp: get_drop_id map_simps)
  then show ?thesis using assms by (simp add: index_wf_def Let_def wf_drop_id)
qed

lemma index_wf_push:
  assumes wf: "index_wf f rules ix" and new: "am_get rules i = None"
  shows "index_wf f (am_put i r rules) (push_id (f r) i ix)"
proof -
  have "distinct (case am_get (push_id (f r) i ix) k of Some ids \<Rightarrow> ids | None \<Rightarrow> []) \<and>
        set (case am_get (push_id (f r) i ix) k of Some ids \<Rightarrow> ids | None \<Rightarrow> []) =
          {j. \<exists>r'. am_get (am_put i r rules) j = Some r' \<and> f r' = k}" for k
    using index_wf_ids [OF wf, of k] new
    by (cases "am_get ix k") (auto simp: push_id_def map_simps)
  then show ?thesis using wf by (simp add: index_wf_def Let_def push_id_def am.wf_put)
qed

lemma index_wf_cong: "index_wf f rules ix \<Longrightarrow> am_get rules' = am_get rules \<Longrightarrow> index_wf f rules' ix"
  by (simp add: index_wf_def)

lemma put_after_del: "am_get (am_put i r (am_del i rules)) = am_get (am_put i r rules)"
  by (simp add: fun_eq_iff map_simps)

lemma registry_insert_wf:
  assumes wf: "registry_wf g"
  shows "registry_wf (registry_insert r g)"
proof (cases "am_get (rr_rules g) (r_id r)")
  case None
  then show ?thesis using wf
    by (auto simp: registry_insert_def registry_wf_def index_wf_push am.wf_put map_simps Let_def)
next
  case (Some old)
  let ?i = "r_id r" and ?rules = "am_put (r_id r) r (rr_rules g)"
  have ix: "index_wf f ?rules (push_id (f r) ?i (drop_id ?i ix))" if "index_wf f (rr_rules g) ix" for f ix
    using index_wf_cong [OF index_wf_push [OF index_wf_drop [OF that], of ?i ?i r] put_after_del [symmetric]]
    by (simp add: map_simps)
  show ?thesis using wf Some ix
    by (auto simp: registry_insert_def registry_wf_def remove_index_def am.wf_put map_simps Let_def)
qed

lemma registry_remove_wf: "registry_wf g \<Longrightarrow> registry_wf (snd (registry_remove i g))"
  by (auto simp: registry_remove_def registry_wf_def remove_index_def index_wf_drop am.wf_del map_simps Let_def
      split: option.split)

lemma registry_new_wf: "registry_wf registry_new"
  by (simp add: registry_wf_def registry_new_def index_wf_def am.wf_empty map_simps)

lemma registry_step_wf: "registry_wf g \<Longrightarrow> registry_wf (registry_step op g)"
  by (cases op) (simp_all add: registry_insert_wf registry_remove_wf,
      simp_all add: registry_wf_def registry_clear_def mark_loaded_def index_wf_def am.wf_empty map_simps)

lemma registry_run_wf: "registry_wf g \<Longrightarrow> registry_wf (fold registry_step ops g)"
  by (induction ops arbitrary: g) (simp_all add: registry_step_wf)

lemma registry_get_insert:
  "registry_get (registry_insert r g) = (registry_get g)(r_id r \<mapsto> r)"
  by (auto simp: registry_get_def registry_insert_def remove_index_def map_simps fun_eq_iff Let_def)

lemma registry_get_remove: "registry_get (snd (registry_remove i g)) = (registry_get g)(i := None)"
  by (auto simp: registry_get_def registry_remove_def remove_index_def map_simps fun_eq_iff Let_def split: option.split)

lemma registry_get_clear: "registry_get (registry_clear g) = (\<lambda>_. None)"
  by (simp add: registry_get_def registry_clear_def map_simps fun_eq_iff)

lemma registry_get_loaded: "registry_get (mark_loaded now g) = registry_get g"
  by (simp add: registry_get_def mark_loaded_def fun_eq_iff)

lemmas registry_gets = registry_get_insert registry_get_remove registry_get_clear registry_get_loaded

lemma rules_after_run: "registry_get (fold registry_step ops registry_new) = rules_after (rev ops)"
proof (induction ops rule: rev_induct)
  case Nil
  then show ?case by (simp add: registry_get_def registry_new_def map_simps fun_eq_iff)
next
  case (snoc op ops)
  then show ?case by (cases op) (simp_all add: registry_gets)
qed

lemma indexed_exact:
  assumes "index_wf f (rr_rules g) ix"
  shows "set (indexed ix g k) = {r. \<exists>i. registry_get g i = Some r \<and> f r = k}"
  using index_wf_ids(2) [OF assms, of k]
  by (auto simp: indexed_def registry_get_def map_filter_def split: option.splits) force+

lemma indexed_distinct:
  assumes "index_wf f (rr_rules g) ix" and "\<forall>i r. am_get (rr_rules g) i = Some r \<longrightarrow> r_id r = i"
  shows "distinct (map r_id (indexed ix g k))"
proof -
  have keys: "map r_id (List.map_filter (am_get (rr_rules g)) ids) = filter (\<lambda>i. am_get (rr_rules g) i \<noteq> None) ids" for ids
    using assms(2) by (induction ids) (auto simp: List.map_filter_simps split: option.split)
  show ?thesis using index_wf_ids(1) [OF assms(1), of k]
    by (simp add: indexed_def keys distinct_filter split: option.splits)
qed

text \<open>C14. The registry is well typed and refines a map: after any sequence of insertions, removals and
  clears each rule stands under its identifier and each index lists exactly the rules with its key;
  a lookup gives the rule inserted last, and the queries by category and by source return exactly
  the rules that have it, each once.\<close>

theorem registry_refines_map:
  "let g = fold registry_step ops registry_new
   in registry_wf g \<and> registry_get g = rules_after (rev ops)
      \<and> set (filter_by_category g k) = {r. \<exists>i. rules_after (rev ops) i = Some r \<and> r_category r = k}
      \<and> set (filter_by_source g k) = {r. \<exists>i. rules_after (rev ops) i = Some r \<and> r_source r = k}
      \<and> distinct (map r_id (filter_by_category g k)) \<and> distinct (map r_id (filter_by_source g k))"
proof -
  let ?g = "fold registry_step ops registry_new"
  have wf: "registry_wf ?g" by (rule registry_run_wf [OF registry_new_wf])
  then have ix: "index_wf r_category (rr_rules ?g) (rr_by_category ?g)" "index_wf r_source (rr_rules ?g) (rr_by_source ?g)"
    and ids: "\<forall>i r. am_get (rr_rules ?g) i = Some r \<longrightarrow> r_id r = i"
    by (simp_all add: registry_wf_def)
  show ?thesis
    using wf indexed_exact [OF ix(1), of k] indexed_exact [OF ix(2), of k]
      indexed_distinct [OF ix(1) ids, of k] indexed_distinct [OF ix(2) ids, of k]
    by (simp add: Let_def rules_after_run filter_by_category_def filter_by_source_def)
qed

end
