(* ===== verification/RuleSync.thy ===== *)
theory RuleSync
  imports Registry
begin

text \<open>
  Rule and configuration synchronisation between the nodes of a cluster
  (waf-cluster/src/sync/rules.rs, sync/config.rs): the change log of the main node, the answers it
  builds for a worker, and what a worker does with an answer.  The JSON and LZ4 libraries are
  parameters, over a type of bytes; the laws the code relies on, that decoding inverts encoding, are the hypothesis
  \<open>sync_lib_ok\<close>.  Versions are 64-bit words.
\<close>

record ('j, 'b) sync_lib =
  to_value :: "rule \<Rightarrow> 'j option"
  from_value :: "'j \<Rightarrow> rule option"
  rules_to_vec :: "rule list \<Rightarrow> 'b list option"
  rules_from_slice :: "'b list \<Rightarrow> rule list option"
  lz4_compress :: "'b list \<Rightarrow> 'b list"
  lz4_decompress :: "'b list \<Rightarrow> 'b list option"

definition sync_lib_ok :: "('j, 'b) sync_lib \<Rightarrow> bool" where
  "sync_lib_ok lib \<longleftrightarrow> (\<forall>r. \<exists>j. to_value lib r = Some j \<and> from_value lib j = Some r)
     \<and> (\<forall>rs. \<exists>b. rules_to_vec lib rs = Some b \<and> rules_from_slice lib b = Some rs)
     \<and> (\<forall>b. lz4_decompress lib (lz4_compress lib b) = Some b)"

datatype change_op = Upsert | Delete

record 'j rule_change =
  rc_op :: change_op
  rc_rule_id :: string
  rc_rule_json :: "'j option"

datatype sync_type = Incremental | Full

record rule_sync_request =
  rq_current_version :: u64

record ('j, 'b) rule_sync_response =
  sp_version :: u64
  sp_sync_type :: sync_type
  sp_changes :: "'j rule_change list"
  sp_snapshot_lz4 :: "'b list"

record 'j rule_changelog =
  cl_changes :: "(u64 \<times> 'j rule_change) list"
  cl_max_retained :: nat
  cl_current_version :: u64

datatype sync_error = SerializeFailed | DecompressFailed | DeserializeFailed | ReloadFailed

section \<open>The main node\<close>

definition changelog_new :: "nat \<Rightarrow> 'j rule_changelog" where
  "changelog_new n = \<lparr>cl_changes = [], cl_max_retained = n, cl_current_version = 0\<rparr>"

definition changelog_push :: "u64 \<Rightarrow> 'j rule_change \<Rightarrow> 'j rule_changelog \<Rightarrow> 'j rule_changelog" where
  "changelog_push version change l =
     (let kept = (if cl_max_retained l \<le> length (cl_changes l) then tl (cl_changes l) else cl_changes l)
      in l\<lparr>cl_changes := kept @ [(version, change)]\<rparr>)"

definition record_change :: "('j, 'b) sync_lib \<Rightarrow> change_op \<Rightarrow> string \<Rightarrow> rule option \<Rightarrow> 'j rule_changelog \<Rightarrow> 'j rule_changelog" where
  "record_change lib op i r l =
     (let l = l\<lparr>cl_current_version := cl_current_version l + 1\<rparr>
      in changelog_push (cl_current_version l) \<lparr>rc_op = op, rc_rule_id = i, rc_rule_json = Option.bind r (to_value lib)\<rparr> l)"

definition delta_since :: "'j rule_changelog \<Rightarrow> u64 \<Rightarrow> 'j rule_change list option" where
  "delta_since l from_version =
     (case cl_changes l of
        [] \<Rightarrow> Some []
      | (first, _) # _ \<Rightarrow>
          if from_version < first then None
          else Some (map snd (filter (\<lambda>(v, _). from_version < v) (cl_changes l))))"

definition build_response :: "'j rule_changelog \<Rightarrow> u64 \<Rightarrow> ('j, 'b) rule_sync_response" where
  "build_response l from_version =
     (case delta_since l from_version of
        None \<Rightarrow> \<lparr>sp_version = cl_current_version l, sp_sync_type = Full, sp_changes = [], sp_snapshot_lz4 = []\<rparr>
      | Some changes \<Rightarrow>
          \<lparr>sp_version = cl_current_version l, sp_sync_type = Incremental, sp_changes = changes, sp_snapshot_lz4 = []\<rparr>)"

definition snapshot_rules :: "('j, 'b) sync_lib \<Rightarrow> rule list \<Rightarrow> sync_error + 'b list" where
  "snapshot_rules lib rules =
     (case rules_to_vec lib rules of None \<Rightarrow> Inl SerializeFailed | Some json \<Rightarrow> Inr (lz4_compress lib json))"

definition restore_snapshot :: "('j, 'b) sync_lib \<Rightarrow> 'b list \<Rightarrow> sync_error + rule list" where
  "restore_snapshot lib data =
     (case lz4_decompress lib data of
        None \<Rightarrow> Inl DecompressFailed
      | Some json \<Rightarrow> (case rules_from_slice lib json of None \<Rightarrow> Inl DeserializeFailed | Some rs \<Rightarrow> Inr rs))"

definition handle_sync_request ::
  "('j, 'b) sync_lib \<Rightarrow> 'j rule_changelog \<Rightarrow> rule_sync_request \<Rightarrow> rule list \<Rightarrow> sync_error + ('j, 'b) rule_sync_response" where
  "handle_sync_request lib changelog request rules =
     (let response = build_response changelog (rq_current_version request)
      in if sp_sync_type response = Full
         then (case snapshot_rules lib rules of
                 Inl e \<Rightarrow> Inl e
               | Inr data \<Rightarrow> Inr (response\<lparr>sp_snapshot_lz4 := data\<rparr>))
         else Inr response)"

section \<open>The worker\<close>

fun apply_rule_changes :: "('j, 'b) sync_lib \<Rightarrow> 'j rule_change list \<Rightarrow> rule_registry \<Rightarrow> (sync_error + unit) \<times> rule_registry" where
  "apply_rule_changes lib [] g = (Inr (), g)"
| "apply_rule_changes lib (c # cs) g =
     (case rc_op c of
        Delete \<Rightarrow> apply_rule_changes lib cs (snd (registry_remove (rc_rule_id c) g))
      | Upsert \<Rightarrow>
          (case rc_rule_json c of
             None \<Rightarrow> apply_rule_changes lib cs g
           | Some val \<Rightarrow>
               (case from_value lib val of
                  None \<Rightarrow> (Inl DeserializeFailed, g)
                | Some r \<Rightarrow> apply_rule_changes lib cs (registry_insert r g))))"

definition apply_full_snapshot :: "('j, 'b) sync_lib \<Rightarrow> 'b list \<Rightarrow> rule_registry \<Rightarrow> (sync_error + unit) \<times> rule_registry" where
  "apply_full_snapshot lib data g =
     (case restore_snapshot lib data of
        Inl e \<Rightarrow> (Inl e, g)
      | Inr rules \<Rightarrow> (Inr (), fold registry_insert rules (registry_clear g)))"

definition apply_sync_response ::
  "('j, 'b) sync_lib \<Rightarrow> (u64 \<Rightarrow> bool) \<Rightarrow> ('j, 'b) rule_sync_response \<Rightarrow> rule_registry \<Rightarrow> (sync_error + unit) \<times> rule_registry" where
  "apply_sync_response lib on_rules_updated response g =
     (case (case sp_sync_type response of
              Incremental \<Rightarrow> apply_rule_changes lib (sp_changes response) g
            | Full \<Rightarrow> apply_full_snapshot lib (sp_snapshot_lz4 response) g) of
        (Inl e, g) \<Rightarrow> (Inl e, g)
      | (Inr _, g) \<Rightarrow>
          (if on_rules_updated (sp_version response) then Inr () else Inl ReloadFailed,
           g\<lparr>rr_version := sp_version response\<rparr>))"

section \<open>Configuration\<close>

record config_sync =
  cs_version :: u64
  cs_config_toml :: string

record config_syncer =
  sy_node_id :: string
  sy_current_version :: u64

definition syncer_new :: "string \<Rightarrow> config_syncer" where
  "syncer_new node = \<lparr>sy_node_id = node, sy_current_version = 0\<rparr>"

definition apply_sync :: "config_sync \<Rightarrow> config_syncer \<Rightarrow> config_syncer" where
  "apply_sync sync s = s\<lparr>sy_current_version := cs_version sync\<rparr>"

definition build_sync :: "config_syncer \<Rightarrow> string \<Rightarrow> config_sync" where
  "build_sync s toml = \<lparr>cs_version = sy_current_version s + 1, cs_config_toml = toml\<rparr>"

section \<open>What a change log retains\<close>

text \<open>A history of changes on the main node, as the operations on its registry and as its log.\<close>

datatype main_change = Put rule | Drop string

fun as_op :: "main_change \<Rightarrow> registry_op" where
  "as_op (Put r) = Insert r"
| "as_op (Drop i) = Remove i"

fun log_change :: "('j, 'b) sync_lib \<Rightarrow> main_change \<Rightarrow> 'j rule_changelog \<Rightarrow> 'j rule_changelog" where
  "log_change lib (Put r) l = record_change lib Upsert (r_id r) (Some r) l"
| "log_change lib (Drop i) l = record_change lib Delete i None l"

fun change_entry :: "('j, 'b) sync_lib \<Rightarrow> main_change \<Rightarrow> 'j rule_change" where
  "change_entry lib (Put r) = \<lparr>rc_op = Upsert, rc_rule_id = r_id r, rc_rule_json = to_value lib r\<rparr>"
| "change_entry lib (Drop i) = \<lparr>rc_op = Delete, rc_rule_id = i, rc_rule_json = None\<rparr>"

definition history_log :: "('j, 'b) sync_lib \<Rightarrow> nat \<Rightarrow> main_change list \<Rightarrow> 'j rule_changelog" where
  "history_log lib n cs = fold (log_change lib) cs (changelog_new n)"

definition history_registry :: "main_change list \<Rightarrow> rule_registry" where
  "history_registry cs = fold registry_step (map as_op cs) registry_new"

lemma log_change_entry:
  "log_change lib c l = changelog_push (cl_current_version l + 1) (change_entry lib c) (l\<lparr>cl_current_version := cl_current_version l + 1\<rparr>)"
  by (cases c) (simp_all add: record_change_def Let_def)

lemma tl_upt_map: "tl (map f [a..<b]) = map f [Suc a..<b]"
  by (cases "a < b") (simp_all add: upt_conv_Cons)

lemma history_log_contents:
  "cl_max_retained (history_log lib n cs) = n \<and> cl_current_version (history_log lib n cs) = of_nat (length cs)
   \<and> cl_changes (history_log lib n cs) =
       map (\<lambda>i. (of_nat (Suc i), change_entry lib (cs ! i))) [length cs - max 1 n..<length cs]"
proof (induction cs rule: rev_induct)
  case Nil
  then show ?case by (simp add: history_log_def changelog_new_def)
next
  case (snoc c cs)
  let ?f = "\<lambda>cs i. (of_nat (Suc i) :: u64, change_entry lib (cs ! i))"
  have shift: "map (?f (cs @ [c])) [a..<length cs] = map (?f cs) [a..<length cs]" for a
    by (simp add: nth_append)
  have last: "map (?f (cs @ [c])) [a..<Suc (length cs)] = map (?f cs) [a..<length cs] @ [(of_nat (Suc (length cs)), change_entry lib c)]"
    if "a \<le> length cs" for a using that shift [of a] by simp
  show ?case
  proof (cases "n \<le> length cs")
    case True
    then have "Suc (length cs) - max 1 n = (if n = 0 then length cs else Suc (length cs - n))" by auto
    then show ?thesis using snoc True last [of "Suc (length cs) - max 1 n"]
      by (auto simp: history_log_def log_change_entry changelog_push_def Let_def tl_upt_map add.commute)
  next
    case False
    then show ?thesis using snoc last [of 0]
      by (auto simp: history_log_def log_change_entry changelog_push_def Let_def add.commute)
  qed
qed

lemma of_nat_u64_less: "a < 2 ^ 64 \<Longrightarrow> b < 2 ^ 64 \<Longrightarrow> (of_nat a :: u64) < of_nat b \<longleftrightarrow> a < b"
  by (simp add: word_less_nat_alt unsigned_of_nat take_bit_nat_eq_self)

lemma filter_upt: "filter (\<lambda>i. v < Suc i) [a..<n] = [max a v..<n]"
  by (induction n) (auto simp: max_def not_less_eq_eq)

text \<open>
  A worker at version \<open>v\<close> is sent a snapshot exactly when the change after \<open>v\<close> may have left the
  log, and otherwise the changes after \<open>v\<close>.
\<close>

lemma history_delta:
  assumes "v \<le> length cs" and "length cs < 2 ^ 64"
  shows "delta_since (history_log lib n cs) (of_nat v) =
    (if cs \<noteq> [] \<and> v < Suc (length cs - max 1 n) then None else Some (map (change_entry lib) (drop v cs)))"
proof (cases "cs = []")
  case True
  then show ?thesis using history_log_contents [of lib n cs] by (simp add: delta_since_def)
next
  case False
  let ?a = "length cs - max 1 n" and ?f = "\<lambda>i. (of_nat (Suc i) :: u64, change_entry lib (cs ! i))"
  have a: "?a < length cs" using False by auto
  have changes: "cl_changes (history_log lib n cs) = map ?f [?a..<length cs]"
    using history_log_contents [of lib n cs] by simp
  have head: "map ?f [?a..<length cs] = ?f ?a # map ?f [Suc ?a..<length cs]"
    using a by (simp add: upt_conv_Cons)
  have "filter (\<lambda>(w, _). of_nat v < w) (map ?f [?a..<length cs]) = map ?f (filter (\<lambda>i. v < Suc i) [?a..<length cs])"
    unfolding filter_map o_def using assms
    by (intro arg_cong [of _ _ "map ?f"] filter_cong) (auto simp: of_nat_u64_less simp del: of_nat_Suc)
  then have kept: "map snd (filter (\<lambda>(w, _). of_nat v < w) (map ?f [?a..<length cs])) = map (\<lambda>i. change_entry lib (cs ! i)) [max ?a v..<length cs]"
    by (simp add: filter_upt comp_def)
  have drop: "map (\<lambda>i. change_entry lib (cs ! i)) [v..<length cs] = map (change_entry lib) (drop v cs)"
    by (intro nth_equalityI) auto
  have first: "(of_nat v :: u64) < of_nat (Suc ?a) \<longleftrightarrow> v < Suc ?a"
    using assms a by (intro of_nat_u64_less) auto
  have "delta_since (history_log lib n cs) (of_nat v) =
      (if v < Suc ?a then None else Some (map (\<lambda>i. change_entry lib (cs ! i)) [max ?a v..<length cs]))"
    unfolding delta_since_def changes kept [symmetric] using head first by (simp del: of_nat_Suc)
  then show ?thesis using False drop by (auto simp: max_def)
qed

section \<open>Workers follow the main node\<close>

lemma apply_history:
  assumes "sync_lib_ok lib"
  shows "apply_rule_changes lib (map (change_entry lib) cs) g = (Inr (), fold registry_step (map as_op cs) g)"
proof (induction cs arbitrary: g)
  case (Cons c cs)
  show ?case
  proof (cases c)
    case (Put r)
    obtain j where "to_value lib r = Some j" "from_value lib j = Some r"
      using assms unfolding sync_lib_ok_def by blast
    then show ?thesis using Cons Put by simp
  qed (use Cons in simp)
qed simp

lemma registry_get_fold:
  "registry_get g = registry_get h \<Longrightarrow> registry_get (fold registry_step ops g) = registry_get (fold registry_step ops h)"
proof (induction ops arbitrary: g h)
  case (Cons op ops)
  have "registry_get (registry_step op g) = registry_get (registry_step op h)"
    using Cons.prems by (cases op) (simp_all add: registry_gets)
  from Cons.IH [OF this] show ?case by simp
qed simp

lemma fold_insert_other: "i \<notin> r_id ` set rs \<Longrightarrow> registry_get (fold registry_insert rs g) i = registry_get g i"
  by (induction rs arbitrary: g) (auto simp: registry_get_insert)

lemma fold_insert_same:
  "distinct (map r_id rs) \<Longrightarrow> r \<in> set rs \<Longrightarrow> registry_get (fold registry_insert rs g) (r_id r) = Some r"
  by (induction rs arbitrary: g) (auto simp: registry_get_insert fold_insert_other)

lemma registry_list_get:
  assumes wf: "registry_wf g"
  shows "registry_get (fold registry_insert (registry_list g) (registry_clear h)) = registry_get g"
proof
  fix i
  have id: "\<And>i r. am_get (rr_rules g) i = Some r \<Longrightarrow> r_id r = i" and am: "am_wf (rr_rules g)"
    using wf by (simp_all add: registry_wf_def)
  have mem: "(i, r) \<in> set (rr_rules g) \<longleftrightarrow> registry_get g i = Some r" for i r
    by (simp add: registry_get_def am_get_in_set [OF am])
  have "map r_id (map snd (rr_rules g)) = map fst (rr_rules g)"
    using mem id by (auto simp: registry_get_def)
  then have "distinct (map r_id (map snd (rr_rules g)))" using am unfolding am_wf_def by (rule ssubst)
  then have dist: "distinct (map r_id (registry_list g))"
    unfolding registry_list_def
    by (metis mset_eq_imp_distinct_iff mset_map mset_sort)
  have set: "r \<in> set (registry_list g) \<longleftrightarrow> registry_get g (r_id r) = Some r" for r
  proof -
    have "r \<in> set (registry_list g) \<longleftrightarrow> (\<exists>i. (i, r) \<in> set (rr_rules g))"
      by (auto simp: registry_list_def image_iff intro: bexI [rotated])
    then show ?thesis using id unfolding mem registry_get_def by blast
  qed
  show "registry_get (fold registry_insert (registry_list g) (registry_clear h)) i = registry_get g i"
  proof (cases "registry_get g i")
    case None
    then have "i \<notin> r_id ` set (registry_list g)" using set by auto
    then show ?thesis using None by (simp add: fold_insert_other registry_get_clear)
  next
    case (Some r)
    then have "r_id r = i" "r \<in> set (registry_list g)" using id [of i r] set [of r] by (auto simp: registry_get_def)
    then show ?thesis using Some fold_insert_same [OF dist, of r] by simp
  qed
qed

lemma registry_get_version: "registry_get (g\<lparr>rr_version := v\<rparr>) = registry_get g"
  by (simp add: registry_get_def fun_eq_iff)

lemma sync_after_changes:
  assumes lib: "sync_lib_ok lib" and v: "v \<le> length cs" "length cs < 2 ^ 64"
    and worker: "registry_get g = registry_get (history_registry (take v cs))"
    and reload: "reload (of_nat (length cs))"
  obtains resp g' where
    "handle_sync_request lib (history_log lib n cs) \<lparr>rq_current_version = of_nat v\<rparr> (registry_list (history_registry cs)) = Inr resp"
    and "apply_sync_response lib reload resp g = (Inr (), g')"
    and "registry_get g' = registry_get (history_registry cs)" and "rr_version g' = of_nat (length cs)"
proof (cases "cs \<noteq> [] \<and> v < Suc (length cs - max 1 n)")
  case True
  obtain b where b: "rules_to_vec lib (registry_list (history_registry cs)) = Some b"
      "rules_from_slice lib b = Some (registry_list (history_registry cs))" "lz4_decompress lib (lz4_compress lib b) = Some b"
    using lib unfolding sync_lib_ok_def by blast
  show ?thesis
    by (rule that [of "\<lparr>sp_version = of_nat (length cs), sp_sync_type = Full, sp_changes = [], sp_snapshot_lz4 = lz4_compress lib b\<rparr>"
        "(fold registry_insert (registry_list (history_registry cs)) (registry_clear g))\<lparr>rr_version := of_nat (length cs)\<rparr>"])
      (use True b reload history_delta [OF v, of lib n] history_log_contents [of lib n cs]
        registry_list_get [OF registry_run_wf [OF registry_new_wf], of "map as_op cs" g] in
        \<open>simp_all add: handle_sync_request_def build_response_def snapshot_rules_def apply_sync_response_def
          apply_full_snapshot_def restore_snapshot_def history_registry_def registry_get_version\<close>)
next
  case False
  have "registry_get (fold registry_step (map as_op (drop v cs)) g) =
      registry_get (fold registry_step (map as_op (drop v cs)) (history_registry (take v cs)))"
    by (rule registry_get_fold [OF worker])
  also have "\<dots> = registry_get (history_registry cs)"
    by (simp add: history_registry_def flip: fold_append [unfolded comp_def, THEN fun_cong] map_append)
  finally have after: "registry_get (fold registry_step (map as_op (drop v cs)) g) = registry_get (history_registry cs)" .
  show ?thesis
    by (rule that [of "\<lparr>sp_version = of_nat (length cs), sp_sync_type = Incremental,
            sp_changes = map (change_entry lib) (drop v cs), sp_snapshot_lz4 = []\<rparr>"
        "(fold registry_step (map as_op (drop v cs)) g)\<lparr>rr_version := of_nat (length cs)\<rparr>"])
      (use False reload after history_delta [OF v, of lib n] history_log_contents [of lib n cs] in
        \<open>auto simp: handle_sync_request_def build_response_def apply_sync_response_def apply_history [OF lib] registry_get_version\<close>)
qed

text \<open>
  An empty change log is answered as being up to date, whatever rules the main node holds, and a
  worker that is ahead of the log keeps its rules while its version is set back.
\<close>

lemma unlogged_rules_not_sent:
  "\<exists>resp. handle_sync_request lib (changelog_new n) req rules = Inr resp \<and> sp_sync_type resp = Incremental \<and> sp_changes resp = []"
  by (simp add: handle_sync_request_def build_response_def delta_since_def changelog_new_def)

lemma worker_ahead_keeps_rules:
  assumes "length cs < v" and "v < 2 ^ 64" and "reload (of_nat (length cs))"
  shows "\<exists>resp. handle_sync_request lib (history_log lib n cs) \<lparr>rq_current_version = of_nat v\<rparr> rules = Inr resp
      \<and> apply_sync_response lib reload resp g = (Inr (), g\<lparr>rr_version := of_nat (length cs)\<rparr>)"
proof -
  let ?l = "history_log lib n cs"
  have old: "w \<le> of_nat v" if mem: "(w, c) \<in> set (cl_changes ?l)" for w c
  proof -
    obtain i where "i < length cs" "w = of_nat (Suc i)" using mem history_log_contents [of lib n cs] by auto
    then show ?thesis using assms of_nat_u64_less [of "v" "Suc i"] by (simp add: not_less [symmetric] del: of_nat_Suc)
  qed
  then have "filter (\<lambda>(w, _). of_nat v < w) (cl_changes ?l) = []" by (fastforce simp: filter_empty_conv not_less)
  moreover have "\<not> of_nat v < w" if "cl_changes ?l = (w, c) # es" for w c es
    using old [of w c] that by (simp add: not_less)
  ultimately have "delta_since ?l (of_nat v) = Some []"
    by (auto simp: delta_since_def split: list.split)
  then show ?thesis using assms(3) history_log_contents [of lib n cs]
    by (simp add: handle_sync_request_def build_response_def apply_sync_response_def)
qed

text \<open>C13. A worker follows the main node: when the worker holds the rules of the main node after its
  first \<open>v\<close> changes and asks at version \<open>v\<close>, the answer, be it the changes since or a snapshot, brings
  it to exactly the rules of the main node and to its version, for every capacity of the change log.\<close>

theorem sync_converges:
  assumes "sync_lib_ok lib" and "v \<le> length cs" and "length cs < 2 ^ 64"
    and "registry_get g = registry_get (history_registry (take v cs))" and "reload (of_nat (length cs))"
  shows "\<exists>resp g'. handle_sync_request lib (history_log lib n cs) \<lparr>rq_current_version = of_nat v\<rparr>
                     (registry_list (history_registry cs)) = Inr resp
      \<and> apply_sync_response lib reload resp g = (Inr (), g')
      \<and> registry_get g' = registry_get (history_registry cs) \<and> rr_version g' = of_nat (length cs)"
  by (rule sync_after_changes [where lib = lib and v = v and cs = cs and g = g and reload = reload and n = n])
    (use assms in \<open>blast+\<close>)

definition plain_sync_lib :: "(rule, rule) sync_lib" where
  "plain_sync_lib = \<lparr>to_value = Some, from_value = Some, rules_to_vec = Some, rules_from_slice = Some,
     lz4_compress = id, lz4_decompress = Some\<rparr>"

definition sample_waf_rule :: rule where
  "sample_waf_rule = \<lparr>r_id = ''A'', r_name = ''a'', r_description = None, r_category = ''sqli'', r_source = ''file'',
     r_enabled = True, r_action = ''block'', r_severity = None, r_pattern = None, r_tags = [], r_metadata = []\<rparr>"

lemma sync_converges_witness:
  "\<exists>resp g'. handle_sync_request plain_sync_lib
       (history_log plain_sync_lib 5 [Put sample_waf_rule, Put (sample_waf_rule\<lparr>r_id := ''B''\<rparr>), Drop ''A''])
       \<lparr>rq_current_version = of_nat 1\<rparr>
       (registry_list (history_registry [Put sample_waf_rule, Put (sample_waf_rule\<lparr>r_id := ''B''\<rparr>), Drop ''A''])) = Inr resp
     \<and> apply_sync_response plain_sync_lib (\<lambda>_. True) resp (history_registry [Put sample_waf_rule]) = (Inr (), g')
     \<and> registry_get g' = registry_get (history_registry [Put sample_waf_rule, Put (sample_waf_rule\<lparr>r_id := ''B''\<rparr>), Drop ''A''])
     \<and> rr_version g' = of_nat (length [Put sample_waf_rule, Put (sample_waf_rule\<lparr>r_id := ''B''\<rparr>), Drop ''A''])"
  by (rule sync_converges) (simp_all add: plain_sync_lib_def sync_lib_ok_def)

end
