(* ===== verification/ClusterCrypto.thy ===== *)
theory ClusterCrypto
  imports IpAddr
begin

text \<open>
  The frames, join tokens and key store of the cluster crate (waf-cluster/src/transport/frame.rs,
  crypto/token.rs, crypto/store.rs).  Bytes are 8-bit words.  Serialisation, the hash, the message
  authentication code, the cipher and the hex codec come from other crates and are parameters; what
  the code relies on is written as hypotheses of the theorems.
\<close>

section \<open>Frames\<close>

record 'm frame_lib =
  msg_to_vec :: "'m \<Rightarrow> u8 list option"
  msg_from_slice :: "u8 list \<Rightarrow> 'm option"

datatype frame_error = FrameSerialize | FrameLength | FrameBody | FrameDeserialize

text \<open>\<^verbatim>\<open>BytesMut::put_u32\<close> and \<^verbatim>\<open>u32::from_be_bytes\<close>: the four bytes, most significant first.\<close>

definition put_u32 :: "32 word \<Rightarrow> u8 list" where
  "put_u32 n = [ucast (drop_bit 24 n), ucast (drop_bit 16 n), ucast (drop_bit 8 n), ucast n]"

definition from_be_bytes :: "u8 list \<Rightarrow> 32 word" where
  "from_be_bytes bs = foldl (\<lambda>acc b. push_bit 8 acc OR ucast b) 0 bs"

definition write_frame :: "'m frame_lib \<Rightarrow> 'm \<Rightarrow> frame_error + u8 list" where
  "write_frame lib msg =
     (case msg_to_vec lib msg of
        None \<Rightarrow> Inl FrameSerialize
      | Some json \<Rightarrow> let len = of_nat (length json) in Inr (put_u32 len @ json))"

definition read_exact :: "nat \<Rightarrow> u8 list \<Rightarrow> (u8 list \<times> u8 list) option" where
  "read_exact n s = (if length s < n then None else Some (take n s, drop n s))"

definition read_frame :: "'m frame_lib \<Rightarrow> u8 list \<Rightarrow> frame_error + 'm \<times> u8 list" where
  "read_frame lib s =
     (case read_exact 4 s of
        None \<Rightarrow> Inl FrameLength
      | Some (len_buf, s) \<Rightarrow>
          let len = unat (from_be_bytes len_buf)
          in case read_exact len s of
               None \<Rightarrow> Inl FrameBody
             | Some (data, s) \<Rightarrow>
                 (case msg_from_slice lib data of None \<Rightarrow> Inl FrameDeserialize | Some msg \<Rightarrow> Inr (msg, s)))"

text \<open>
  The receiving loop of a stream: messages are dispatched until a read fails, and the stream ends
  with that error.  A frame takes at least four bytes, so the number of bytes bounds the loop.
\<close>

fun recv_loop :: "nat \<Rightarrow> 'm frame_lib \<Rightarrow> u8 list \<Rightarrow> ('m list \<times> frame_error) option" where
  "recv_loop 0 lib s = None"
| "recv_loop (Suc fuel) lib s =
     (case read_frame lib s of
        Inl e \<Rightarrow> Some ([], e)
      | Inr (msg, s) \<Rightarrow> map_option (\<lambda>(msgs, e). (msg # msgs, e)) (recv_loop fuel lib s))"

lemma from_put_u32: "from_be_bytes (put_u32 n) = n"
proof (rule bit_word_eqI)
  fix i assume i: "i < LENGTH(32)"
  consider "i < 8" | "8 \<le> i" "i < 16" | "16 \<le> i" "i < 24" | "24 \<le> i" by linarith
  then show "bit (from_be_bytes (put_u32 n)) i = bit n i"
    by cases (use i in \<open>simp_all add: from_be_bytes_def put_u32_def bit_simps less_diff_conv2\<close>)
qed

lemma read_exact_append: "length a = n \<Longrightarrow> read_exact n (a @ s) = Some (a, s)"
  by (simp add: read_exact_def)

lemma length_put_u32: "length (put_u32 n) = 4"
  by (simp add: put_u32_def)

lemma read_write_frame:
  assumes "msg_to_vec lib msg = Some json" and "msg_from_slice lib json = Some msg" and "length json < 2 ^ 32"
    and "write_frame lib msg = Inr b"
  shows "read_frame lib (b @ s) = Inr (msg, s)"
proof -
  have b: "b = put_u32 (of_nat (length json)) @ json" using assms(1,4) by (simp add: write_frame_def Let_def)
  have "unat (of_nat (length json) :: 32 word) = length json"
    using assms(3) by (simp add: unsigned_of_nat take_bit_nat_eq_self)
  then show ?thesis using assms(2)
    by (simp add: read_frame_def b read_exact_append length_put_u32 from_put_u32)
qed

lemma read_frame_shorter: "read_frame lib s = Inr (msg, s') \<Longrightarrow> length s' < length s"
  by (auto simp: read_frame_def read_exact_def Let_def split: if_splits option.splits)

lemma recv_loop_returns: "length s < fuel \<Longrightarrow> recv_loop fuel lib s \<noteq> None"
proof (induction fuel arbitrary: s)
  case (Suc fuel)
  show ?case
  proof (cases "read_frame lib s")
    case (Inr p)
    then have "length (snd p) < fuel" using Suc.prems read_frame_shorter [of lib s "fst p" "snd p"] by simp
    from Suc.IH [OF this] show ?thesis by (simp add: Inr case_prod_unfold)
  qed simp
qed simp

lemma recv_loop_frames:
  assumes "\<forall>m\<in>set ms. \<exists>json. msg_to_vec lib m = Some json \<and> msg_from_slice lib json = Some m \<and> length json < 2 ^ 32"
    and "length ms < fuel"
  shows "recv_loop fuel lib (concat (map (\<lambda>m. projr (write_frame lib m)) ms)) = Some (ms, FrameLength)"
  using assms
proof (induction ms arbitrary: fuel)
  case Nil
  then show ?case by (cases fuel) (simp_all add: read_frame_def read_exact_def)
next
  case (Cons m ms)
  obtain json where json: "msg_to_vec lib m = Some json" "msg_from_slice lib json = Some m" "length json < 2 ^ 32"
    using Cons.prems by auto
  moreover have "write_frame lib m = Inr (projr (write_frame lib m))"
    by (simp add: write_frame_def json Let_def)
  ultimately have "read_frame lib (projr (write_frame lib m) @ s) = Inr (m, s)" for s
    by (rule read_write_frame)
  moreover obtain f where "fuel = Suc f" "length ms < f" using Cons.prems by (cases fuel) auto
  moreover have "recv_loop f lib (concat (map (\<lambda>m. projr (write_frame lib m)) ms)) = Some (ms, FrameLength)"
    using Cons.prems \<open>length ms < f\<close> by (intro Cons.IH) auto
  ultimately show ?case by simp
qed

section \<open>Join tokens\<close>

record token_lib =
  sha256 :: "string \<Rightarrow> u8 list"
  hmac_sha256 :: "u8 list \<Rightarrow> string \<Rightarrow> u8 list option"
  hex_encode :: "u8 list \<Rightarrow> string"
  hex_decode :: "string \<Rightarrow> u8 list option"

datatype token_error = TtlOverflow | MacKey | NoSeparator | BadExpiry | BadSignatureHex | BadSignature | TokenExpired

definition derive_signing_key :: "token_lib \<Rightarrow> string \<Rightarrow> u8 list" where
  "derive_signing_key lib ca_key_pem = sha256 lib (''prx-waf-cluster-token-signing-v1:'' @ ca_key_pem)"

text \<open>\<^verbatim>\<open>{:016x}\<close>, and \<^verbatim>\<open>u64::from_str_radix\<close> in base 16, which allows a leading plus sign.\<close>

definition hex16 :: "nat \<Rightarrow> string" where
  "hex16 n = (let s = show_hex n in replicate (16 - length s) CHR ''0'' @ s)"

definition from_str_radix16 :: "string \<Rightarrow> nat option" where
  "from_str_radix16 s =
     (let ds = (case s of c # t \<Rightarrow> if c = CHR ''+'' \<and> t \<noteq> [] then t else s | [] \<Rightarrow> [])
      in if ds = [] \<or> \<not> list_all (\<lambda>c. to_digit 16 c \<noteq> None) ds then None
         else let v = foldl (\<lambda>acc c. acc * 16 + the (to_digit 16 c)) 0 ds
              in if v < 2 ^ 64 then Some v else None)"

definition generate_token :: "token_lib \<Rightarrow> nat \<Rightarrow> string \<Rightarrow> nat \<Rightarrow> token_error + string" where
  "generate_token lib now_ms ca_key_pem ttl_ms =
     (if 2 ^ 64 \<le> now_ms + ttl_ms then Inl TtlOverflow
      else let expiry_hex = hex16 (now_ms + ttl_ms)
           in case hmac_sha256 lib (derive_signing_key lib ca_key_pem) expiry_hex of
                None \<Rightarrow> Inl MacKey
              | Some signature \<Rightarrow> Inr (expiry_hex @ ''.'' @ hex_encode lib signature))"

definition validate_token :: "token_lib \<Rightarrow> nat \<Rightarrow> string \<Rightarrow> string \<Rightarrow> token_error + unit" where
  "validate_token lib now_ms ca_key_pem token =
     (case split_once CHR ''.'' token of
        None \<Rightarrow> Inl NoSeparator
      | Some (expiry_hex, signature_hex) \<Rightarrow>
          (case from_str_radix16 expiry_hex of
             None \<Rightarrow> Inl BadExpiry
           | Some expiry_ms \<Rightarrow>
               (case hmac_sha256 lib (derive_signing_key lib ca_key_pem) expiry_hex of
                  None \<Rightarrow> Inl MacKey
                | Some mac \<Rightarrow>
                    (case hex_decode lib signature_hex of
                       None \<Rightarrow> Inl BadSignatureHex
                     | Some provided \<Rightarrow>
                         if provided \<noteq> mac then Inl BadSignature
                         else if expiry_ms < now_ms then Inl TokenExpired
                         else Inr ()))))"

lemma digit_char_to_digit: "d < 16 \<Longrightarrow> to_digit 16 (digit_char d) = Some d"
  by (auto simp: to_digit_def byte_digit_char Let_def)

lemma show_hex_digits:
  "list_all (\<lambda>c. to_digit 16 c \<noteq> None) (show_hex n) \<and> foldl (\<lambda>acc c. acc * 16 + the (to_digit 16 c)) 0 (show_hex n) = n"
proof -
  have "c \<in> set (show_hex n) \<Longrightarrow> to_digit 16 c = Some (digit_val c)" for c
    using show_base_chars [of 16 c n] digit_char_to_digit digit_val_char by auto
  then have "list_all (\<lambda>c. to_digit 16 c = Some (digit_val c)) (show_hex n)" by (simp add: list_all_iff)
  then have "foldl (\<lambda>acc c. acc * 16 + the (to_digit 16 c)) 0 (show_hex n) = read_base 16 (show_hex n)"
    unfolding read_base_def by (intro foldl_cong) (auto simp: list_all_iff)
  moreover have "list_all (\<lambda>c. to_digit 16 c \<noteq> None) (show_hex n)"
    using \<open>list_all _ _\<close> by (auto simp: list_all_iff)
  ultimately show ?thesis by (simp add: read_show_base)
qed

lemma zero_digit: "to_digit 16 CHR ''0'' = Some 0"
  using digit_char_to_digit [of 0] by (simp add: digit_char_0)

lemma foldl_zeros: "foldl (\<lambda>acc c. acc * 16 + the (to_digit 16 c)) 0 (replicate k CHR ''0'') = 0"
  by (induction k) (simp_all add: zero_digit)

lemma from_hex16: "n < 2 ^ 64 \<Longrightarrow> from_str_radix16 (hex16 n) = Some n"
proof -
  assume n: "n < 2 ^ 64"
  have digits: "list_all (\<lambda>c. to_digit 16 c \<noteq> None) (hex16 n)" and ne: "hex16 n \<noteq> []"
    using show_hex_digits [of n] show_base_nonempty [of 16 n] by (auto simp: hex16_def Let_def zero_digit list_all_iff)
  have plus: "to_digit 16 CHR ''+'' = None" by (simp add: to_digit_def byte_def)
  have "\<not> (\<exists>t. hex16 n = CHR ''+'' # t)" using digits plus by auto
  then have "(case hex16 n of c # t \<Rightarrow> if c = CHR ''+'' \<and> t \<noteq> [] then t else hex16 n | [] \<Rightarrow> []) = hex16 n"
    by (auto split: list.split)
  moreover have "foldl (\<lambda>acc c. acc * 16 + the (to_digit 16 c)) 0 (hex16 n) = n"
    using show_hex_digits [of n] by (simp add: hex16_def Let_def foldl_zeros)
  ultimately show ?thesis using digits ne n by (simp add: from_str_radix16_def)
qed

lemma hex16_no_dot: "CHR ''.'' \<notin> set (hex16 n)"
  using show_base_no_sep [of 16 n] by (auto simp: hex16_def Let_def)

lemma validate_generated:
  assumes "generate_token lib now ca ttl = Inr token" and "\<forall>b. hex_decode lib (hex_encode lib b) = Some b"
  shows "validate_token lib t ca token = (if t \<le> now + ttl then Inr () else Inl TokenExpired)"
proof -
  obtain mac where mac: "now + ttl < 2 ^ 64" "hmac_sha256 lib (derive_signing_key lib ca) (hex16 (now + ttl)) = Some mac"
      "token = hex16 (now + ttl) @ CHR ''.'' # hex_encode lib mac"
    using assms(1) by (auto simp: generate_token_def Let_def split: if_splits option.splits)
  then show ?thesis using assms(2) split_once_append [OF hex16_no_dot, of "now + ttl" "hex_encode lib mac"]
    by (simp add: validate_token_def from_hex16)
qed

lemma validate_authentic:
  "validate_token lib t ca token = Inr () \<longleftrightarrow>
     (\<exists>e s expiry mac. split_once CHR ''.'' token = Some (e, s) \<and> from_str_radix16 e = Some expiry \<and> t \<le> expiry
        \<and> hmac_sha256 lib (derive_signing_key lib ca) e = Some mac \<and> hex_decode lib s = Some mac)"
  by (auto simp: validate_token_def split: option.splits prod.splits if_splits)

section \<open>The key store\<close>

record 'c cipher_lib =
  new_cipher :: "string \<Rightarrow> 'c"
  aes_encrypt :: "'c \<Rightarrow> u8 list \<Rightarrow> u8 list \<Rightarrow> u8 list option"
  aes_decrypt :: "'c \<Rightarrow> u8 list \<Rightarrow> u8 list \<Rightarrow> u8 list option"

definition make_cipher :: "'c cipher_lib \<Rightarrow> string \<Rightarrow> 'c" where
  "make_cipher lib passphrase = new_cipher lib (''prx-waf-cluster-ca-key-v1:'' @ passphrase)"

definition encrypt_blob :: "'c cipher_lib \<Rightarrow> u8 list \<Rightarrow> u8 list \<Rightarrow> string \<Rightarrow> u8 list option" where
  "encrypt_blob lib nonce plaintext passphrase =
     map_option (\<lambda>ciphertext. nonce @ ciphertext) (aes_encrypt lib (make_cipher lib passphrase) nonce plaintext)"

definition decrypt_blob :: "'c cipher_lib \<Rightarrow> u8 list \<Rightarrow> string \<Rightarrow> u8 list option" where
  "decrypt_blob lib data passphrase =
     (if length data < 12 then None
      else aes_decrypt lib (make_cipher lib passphrase) (take 12 data) (drop 12 data))"

text \<open>The file of the store: its bytes, if it exists; UTF-8 is a parameter as the rest of the library.\<close>

definition save_ca_key :: "'c cipher_lib \<Rightarrow> (string \<Rightarrow> u8 list) \<Rightarrow> u8 list \<Rightarrow> string \<Rightarrow> string \<Rightarrow> u8 list option \<Rightarrow> bool \<times> u8 list option" where
  "save_ca_key lib as_bytes nonce key_pem passphrase file =
     (case aes_encrypt lib (make_cipher lib passphrase) nonce (as_bytes key_pem) of
        None \<Rightarrow> (False, file)
      | Some ciphertext \<Rightarrow> (True, Some (nonce @ ciphertext)))"

definition load_ca_key :: "'c cipher_lib \<Rightarrow> (u8 list \<Rightarrow> string option) \<Rightarrow> string \<Rightarrow> u8 list option \<Rightarrow> string option" where
  "load_ca_key lib from_utf8 passphrase file =
     (case file of
        None \<Rightarrow> None
      | Some data \<Rightarrow>
          if length data < 12 then None
          else Option.bind (aes_decrypt lib (make_cipher lib passphrase) (take 12 data) (drop 12 data)) from_utf8)"

lemma decrypt_encrypted_blob:
  assumes "\<forall>c b. aes_encrypt lib c nonce plaintext = Some b \<longrightarrow> aes_decrypt lib c nonce b = Some plaintext"
    and "length nonce = 12" and "encrypt_blob lib nonce plaintext passphrase = Some data"
  shows "decrypt_blob lib data passphrase = Some plaintext"
  using assms by (auto simp: encrypt_blob_def decrypt_blob_def)

section \<open>The guarantees\<close>

lemma write_frame_length: "write_frame lib m = Inr b \<Longrightarrow> 4 \<le> length b"
  by (auto simp: write_frame_def Let_def length_put_u32 split: option.splits)

lemma frames_length:
  "\<forall>m\<in>set ms. msg_to_vec lib m \<noteq> None \<Longrightarrow> length ms \<le> length (concat (map (\<lambda>m. projr (write_frame lib m)) ms))"
proof (induction ms)
  case (Cons m ms)
  then have "4 \<le> length (projr (write_frame lib m))"
    using write_frame_length [of lib m "projr (write_frame lib m)"] by (auto simp: write_frame_def Let_def)
  then show ?case using Cons by simp
qed simp


definition bool_frames :: "bool frame_lib" where
  "bool_frames = \<lparr>msg_to_vec = (\<lambda>b. Some [if b then 1 else 0]), msg_from_slice = (\<lambda>s. if s = [1] then Some True else if s = [0] then Some False else None)\<rparr>"


text \<open>C40. A join token is good exactly until it expires: a token generated with the key of the
  authority is accepted at every time up to its expiry and refused as expired after it.\<close>

theorem token_until_expiry:
  assumes "generate_token lib now ca ttl = Inr token" and "\<forall>b. hex_decode lib (hex_encode lib b) = Some b"
  shows "validate_token lib t ca token = (if t \<le> now + ttl then Inr () else Inl TokenExpired)"
  using assms by (rule validate_generated)

definition char_hex_lib :: token_lib where
  "char_hex_lib = \<lparr>sha256 = (\<lambda>s. map (of_nat \<circ> byte) s), hmac_sha256 = (\<lambda>k s. Some (k @ map (of_nat \<circ> byte) s)),
     hex_encode = map (char_of \<circ> unat), hex_decode = (\<lambda>s. Some (map (of_nat \<circ> byte) s))\<rparr>"

lemma token_until_expiry_witness:
  "\<exists>token. generate_token char_hex_lib 1000 ''key'' 500 = Inr token
     \<and> validate_token char_hex_lib 1500 ''key'' token = Inr () \<and> validate_token char_hex_lib 1501 ''key'' token = Inl TokenExpired"
proof -
  obtain token where token: "generate_token char_hex_lib 1000 ''key'' 500 = Inr token"
    by (simp add: generate_token_def char_hex_lib_def Let_def)
  have "of_nat (byte (char_of (unat b))) = b" for b :: u8
    using unsigned_less [of b, where 'a = nat] by (simp add: byte_def)
  then have "\<forall>b. hex_decode char_hex_lib (hex_encode char_hex_lib b) = Some b"
    by (simp add: char_hex_lib_def map_idI)
  from token_until_expiry [OF token this] token show ?thesis by auto
qed

end
