(* ===== verification/ClusterProtocol.thy ===== *)
theory ClusterProtocol
  imports RuleSync ClusterCrypto F64
begin

text \<open>
  The messages of the cluster (waf-cluster/src/protocol.rs), the event and statistics batches a
  worker sends (sync/events.rs) and the forwarding of API writes to the main node
  (cluster_forward.rs).  Counters and times are 64-bit words; floating point fields are rationals.
\<close>

section \<open>Messages\<close>

datatype node_role = Main | Worker | Candidate

record heartbeat =
  hb_sequence :: u64
  hb_timestamp_ms :: u64
  hb_node_id :: string
  hb_role :: node_role
  hb_uptime_secs :: u64
  hb_cpu_percent :: rat
  hb_memory_used_bytes :: u64
  hb_total_requests :: u64
  hb_blocked_requests :: u64
  hb_rules_version :: u64
  hb_config_version :: u64

record election_vote =
  ev_term :: u64
  ev_candidate_id :: string
  ev_last_log_index :: u64
  ev_voter_id :: "string option"

record election_result =
  er_term :: u64
  er_elected_id :: string
  er_voter_ids :: "string list"

record node_info =
  ni_node_id :: string
  ni_hostname :: string
  ni_version :: string
  ni_listen_addr :: string
  ni_capabilities :: "string list"

record cluster_state =
  cst_main_node_id :: string
  cst_nodes :: "node_info list"
  cst_rules_version :: u64
  cst_config_version :: u64
  cst_term :: u64

record join_request =
  jr_token :: string
  jr_csr_pem :: string
  jr_node_info :: node_info

record join_response =
  jp_accepted :: bool
  jp_reason :: "string option"
  jp_node_cert_pem :: string
  jp_ca_cert_pem :: string
  jp_cluster_state :: cluster_state
  jp_encrypted_ca_key_b64 :: "string option"

record cluster_event =
  wev_timestamp_ms :: u64
  wev_client_ip :: string
  wev_method :: string
  wev_path :: string
  wev_host :: string
  wev_rule_id :: "string option"
  wev_action :: string
  wev_geo_country :: string
  wev_node_id :: string

record event_batch =
  eb_node_id :: string
  eb_events :: "cluster_event list"

record stats_batch =
  sb_node_id :: string
  sb_timestamp_ms :: u64
  sb_total_requests :: u64
  sb_blocked_requests :: u64
  sb_allowed_requests :: u64
  sb_top_ips :: "(string, u64) amap"
  sb_top_rules :: "(string, u64) amap"
  sb_top_countries :: "(string, u64) amap"

record api_forward =
  af_request_id :: string
  af_method :: string
  af_path :: string
  af_body :: "u8 list"
  af_headers :: "(string, string) amap"

record api_forward_response =
  ar_request_id :: string
  ar_status :: u16
  ar_body :: "u8 list"

datatype ('j, 'b) cluster_message =
    Heartbeat heartbeat
  | ElectionVote election_vote
  | ElectionResult election_result
  | JoinRequest join_request
  | JoinResponse join_response
  | NodeLeave string
  | RuleSyncRequest rule_sync_request
  | RuleSyncResponse "('j, 'b) rule_sync_response"
  | ConfigSync config_sync
  | EventBatch event_batch
  | StatsBatch stats_batch
  | ApiForward api_forward
  | ApiForwardResponse api_forward_response

section \<open>Event batches\<close>

record event_batcher =
  bt_node_id :: string
  bt_queue :: "cluster_event list"
  bt_batch_size :: nat
  bt_flush_interval_ms :: u64

definition batcher_new :: "string \<Rightarrow> nat \<Rightarrow> u64 \<Rightarrow> event_batcher" where
  "batcher_new node n interval = \<lparr>bt_node_id = node, bt_queue = [], bt_batch_size = n, bt_flush_interval_ms = interval\<rparr>"

definition batcher_flush :: "event_batcher \<Rightarrow> event_batch option \<times> event_batcher" where
  "batcher_flush b =
     (if bt_queue b = [] then (None, b)
      else let count = min (length (bt_queue b)) (bt_batch_size b)
           in (Some \<lparr>eb_node_id = bt_node_id b, eb_events = take count (bt_queue b)\<rparr>, b\<lparr>bt_queue := drop count (bt_queue b)\<rparr>))"

definition batcher_push :: "cluster_event \<Rightarrow> event_batcher \<Rightarrow> event_batch option \<times> event_batcher" where
  "batcher_push e b =
     (let b = b\<lparr>bt_queue := bt_queue b @ [e]\<rparr>
      in if bt_batch_size b \<le> length (bt_queue b) then batcher_flush b else (None, b))"

text \<open>
  The loop \<^verbatim>\<open>run_event_batcher\<close>, one turn for each message of its select: an event, the end of the
  events, or a tick; the flag says whether the channel of the batches still accepts.
\<close>

datatype batcher_input = BatchEvent cluster_event | BatchClosed | BatchTick

record batcher_task =
  bk_batcher :: event_batcher
  bk_sent :: "event_batch list"
  bk_stopped :: bool

definition batch_out :: "bool \<Rightarrow> event_batch option \<times> event_batcher \<Rightarrow> batcher_task \<Rightarrow> batcher_task" where
  "batch_out accepts r t =
     (case r of
        (None, b) \<Rightarrow> t\<lparr>bk_batcher := b\<rparr>
      | (Some batch, b) \<Rightarrow>
          if accepts then t\<lparr>bk_batcher := b, bk_sent := bk_sent t @ [batch]\<rparr>
          else t\<lparr>bk_batcher := b, bk_stopped := True\<rparr>)"

fun run_event_batcher_step :: "bool \<times> batcher_input \<Rightarrow> batcher_task \<Rightarrow> batcher_task" where
  "run_event_batcher_step (accepts, inp) t =
     (if bk_stopped t then t
      else case inp of
             BatchEvent e \<Rightarrow> batch_out accepts (batcher_push e (bk_batcher t)) t
           | BatchClosed \<Rightarrow> (batch_out accepts (batcher_flush (bk_batcher t)) t)\<lparr>bk_stopped := True\<rparr>
           | BatchTick \<Rightarrow> batch_out accepts (batcher_flush (bk_batcher t)) t)"

definition batcher_start :: "event_batcher \<Rightarrow> batcher_task" where
  "batcher_start b = \<lparr>bk_batcher = b, bk_sent = [], bk_stopped = False\<rparr>"

definition events_in :: "(bool \<times> batcher_input) list \<Rightarrow> cluster_event list" where
  "events_in = List.map_filter (\<lambda>(_, i). case i of BatchEvent e \<Rightarrow> Some e | _ \<Rightarrow> None)"

definition batched :: "batcher_task \<Rightarrow> cluster_event list" where
  "batched t = concat (map eb_events (bk_sent t)) @ bt_queue (bk_batcher t)"

lemma batch_out_flush:
  "batched (batch_out True (batcher_flush b) t) = concat (map eb_events (bk_sent t)) @ bt_queue b"
  "bk_stopped (batch_out True (batcher_flush b) t) = bk_stopped t"
  by (simp_all add: batched_def batch_out_def batcher_flush_def Let_def)

lemma batch_out_push:
  "batched (batch_out True (batcher_push e b) t) = concat (map eb_events (bk_sent t)) @ bt_queue b @ [e]"
  "bk_stopped (batch_out True (batcher_push e b) t) = bk_stopped t"
proof -
  have "batched (batch_out True (None, b) t) = concat (map eb_events (bk_sent t)) @ bt_queue b"
    "bk_stopped (batch_out True (None, b) t) = bk_stopped t" for b
    by (simp_all add: batched_def batch_out_def)
  then show "batched (batch_out True (batcher_push e b) t) = concat (map eb_events (bk_sent t)) @ bt_queue b @ [e]"
    "bk_stopped (batch_out True (batcher_push e b) t) = bk_stopped t"
    by (simp_all add: batcher_push_def Let_def batch_out_flush)
qed

lemma batcher_step_open:
  "\<not> bk_stopped t \<Longrightarrow> inp \<noteq> BatchClosed \<Longrightarrow>
     batched (run_event_batcher_step (True, inp) t) = batched t @ (case inp of BatchEvent e \<Rightarrow> [e] | _ \<Rightarrow> [])
     \<and> \<not> bk_stopped (run_event_batcher_step (True, inp) t)"
  by (cases inp) (simp_all add: batch_out_flush batch_out_push, simp_all add: batched_def)

text \<open>While the channel accepts batches, the batches and the queue are the events, in order.\<close>

lemma events_in_snoc: "events_in (is @ [(a, inp)]) = events_in is @ (case inp of BatchEvent e \<Rightarrow> [e] | _ \<Rightarrow> [])"
  by (cases inp) (simp_all add: events_in_def map_filter_def)

lemma batcher_conserves:
  assumes "\<forall>i\<in>set is. fst i \<and> snd i \<noteq> BatchClosed"
  shows "batched (fold run_event_batcher_step is (batcher_start (batcher_new node n interval))) = events_in is
     \<and> \<not> bk_stopped (fold run_event_batcher_step is (batcher_start (batcher_new node n interval)))"
  using assms
proof (induction "is" rule: rev_induct)
  case Nil
  then show ?case by (simp add: batched_def batcher_start_def batcher_new_def events_in_def List.map_filter_simps)
next
  case (snoc i "is")
  obtain inp where i: "i = (True, inp)" "inp \<noteq> BatchClosed" using snoc.prems by (cases i) auto
  have IH: "batched (fold run_event_batcher_step is (batcher_start (batcher_new node n interval))) = events_in is"
    "\<not> bk_stopped (fold run_event_batcher_step is (batcher_start (batcher_new node n interval)))"
    using snoc by simp_all
  show ?case using batcher_step_open [OF IH(2) i(2)] by (simp only: i(1) events_in_snoc IH(1) fold_append fold.simps o_def id_apply simp_thms)
qed

section \<open>Statistics\<close>

record stats_collector =
  sc_node_id :: string
  sc_total_requests :: u64
  sc_blocked_requests :: u64
  sc_allowed_requests :: u64
  sc_top_ips :: "(string, u64) amap"
  sc_top_rules :: "(string, u64) amap"
  sc_top_countries :: "(string, u64) amap"

definition collector_new :: "string \<Rightarrow> stats_collector" where
  "collector_new node = \<lparr>sc_node_id = node, sc_total_requests = 0, sc_blocked_requests = 0, sc_allowed_requests = 0,
     sc_top_ips = [], sc_top_rules = [], sc_top_countries = []\<rparr>"

definition bump :: "string \<Rightarrow> (string, u64) amap \<Rightarrow> (string, u64) amap" where
  "bump k m = am_put k ((case am_get m k of Some n \<Rightarrow> n | None \<Rightarrow> 0) + 1) m"

definition record_request :: "string \<Rightarrow> string option \<Rightarrow> string \<Rightarrow> bool \<Rightarrow> stats_collector \<Rightarrow> stats_collector" where
  "record_request ip rule_id country blocked c =
     c\<lparr>sc_total_requests := sc_total_requests c + 1,
       sc_blocked_requests := sc_blocked_requests c + (if blocked then 1 else 0),
       sc_allowed_requests := sc_allowed_requests c + (if blocked then 0 else 1),
       sc_top_ips := bump ip (sc_top_ips c),
       sc_top_rules := (case rule_id of Some r \<Rightarrow> bump r (sc_top_rules c) | None \<Rightarrow> sc_top_rules c),
       sc_top_countries := (if country = [] then sc_top_countries c else bump country (sc_top_countries c))\<rparr>"

definition collector_flush :: "u64 \<Rightarrow> stats_collector \<Rightarrow> stats_batch \<times> stats_collector" where
  "collector_flush now c =
     (\<lparr>sb_node_id = sc_node_id c, sb_timestamp_ms = now, sb_total_requests = sc_total_requests c,
       sb_blocked_requests = sc_blocked_requests c, sb_allowed_requests = sc_allowed_requests c,
       sb_top_ips = sc_top_ips c, sb_top_rules = sc_top_rules c, sb_top_countries = sc_top_countries c\<rparr>,
      c\<lparr>sc_total_requests := 0, sc_blocked_requests := 0, sc_allowed_requests := 0,
        sc_top_ips := [], sc_top_rules := [], sc_top_countries := []\<rparr>)"

text \<open>One tick of \<^verbatim>\<open>run_stats_sender\<close>: the batch it sends, if there was a request.\<close>

definition run_stats_sender_tick :: "u64 \<Rightarrow> stats_collector \<Rightarrow> stats_batch option \<times> stats_collector" where
  "run_stats_sender_tick now c =
     (case collector_flush now c of (batch, c) \<Rightarrow> (if sb_total_requests batch = 0 then None else Some batch, c))"

definition stats_balanced :: "stats_collector \<Rightarrow> bool" where
  "stats_balanced c \<longleftrightarrow> sc_total_requests c = sc_blocked_requests c + sc_allowed_requests c"

lemma record_request_balanced: "stats_balanced c \<Longrightarrow> stats_balanced (record_request ip r country blocked c)"
  by (simp add: stats_balanced_def record_request_def)

lemma tick_balanced:
  assumes "stats_balanced c" and "run_stats_sender_tick now c = (b, c')"
  shows "stats_balanced c' \<and> (case b of Some s \<Rightarrow> sb_total_requests s = sb_blocked_requests s + sb_allowed_requests s | None \<Rightarrow> True)"
  using assms by (auto simp: stats_balanced_def run_stats_sender_tick_def collector_flush_def)

section \<open>Forwarded writes\<close>

text \<open>
  The pending requests, each with the number of the channel its caller waits on, and the answers
  delivered to these channels.
\<close>

record pending_forwards =
  pf_inner :: "(string, nat) amap"
  pf_delivered :: "(nat, api_forward_response) amap"
  pf_next :: nat

definition forwards_new :: pending_forwards where
  "forwards_new = \<lparr>pf_inner = [], pf_delivered = [], pf_next = 0\<rparr>"

definition forward_register :: "string \<Rightarrow> pending_forwards \<Rightarrow> nat \<times> pending_forwards" where
  "forward_register request_id p =
     (pf_next p, p\<lparr>pf_inner := am_put request_id (pf_next p) (pf_inner p), pf_next := Suc (pf_next p)\<rparr>)"

definition forward_resolve :: "api_forward_response \<Rightarrow> pending_forwards \<Rightarrow> pending_forwards" where
  "forward_resolve response p =
     (case am_get (pf_inner p) (ar_request_id response) of
        None \<Rightarrow> p
      | Some tx \<Rightarrow> p\<lparr>pf_inner := am_del (ar_request_id response) (pf_inner p),
                     pf_delivered := am_put tx response (pf_delivered p)\<rparr>)"

definition cancel_all :: "pending_forwards \<Rightarrow> pending_forwards" where
  "cancel_all p = p\<lparr>pf_inner := []\<rparr>"

datatype forward_error = ChannelClosed | ForwardTimeout | ForwardDropped

text \<open>
  \<^verbatim>\<open>forward_write\<close> runs in two parts: it registers and sends, and later looks at its channel, when
  the answer arrived, the sender is gone, or the time is up.
\<close>

definition forward_begin ::
  "bool \<Rightarrow> api_forward \<Rightarrow> pending_forwards \<Rightarrow> (forward_error + nat \<times> ('j, 'b) cluster_message) \<times> pending_forwards" where
  "forward_begin accepts f p =
     (case forward_register (af_request_id f) p of
        (rx, p) \<Rightarrow> (if accepts then Inr (rx, ApiForward f) else Inl ChannelClosed, p))"

definition forward_end :: "nat \<Rightarrow> pending_forwards \<Rightarrow> forward_error + api_forward_response" where
  "forward_end rx p =
     (case am_get (pf_delivered p) rx of
        Some response \<Rightarrow> Inr response
      | None \<Rightarrow> if rx \<in> set (map snd (pf_inner p)) then Inl ForwardTimeout else Inl ForwardDropped)"

definition to_ascii_uppercase :: "string \<Rightarrow> string" where
  "to_ascii_uppercase = map (\<lambda>c. if 97 \<le> byte c \<and> byte c \<le> 122 then char_of (byte c - 32) else c)"

definition is_write_method :: "string \<Rightarrow> bool" where
  "is_write_method method = (to_ascii_uppercase method \<in> {''POST'', ''PUT'', ''DELETE'', ''PATCH''})"

text \<open>
  A channel waits for one request: what is delivered on it answers that request, for any calls in
  between, and the entry of a call that timed out stays in the table.
\<close>

datatype forward_op = RegisterOp string | ResolveOp api_forward_response | CancelOp

fun forward_step :: "forward_op \<Rightarrow> pending_forwards \<Rightarrow> pending_forwards" where
  "forward_step (RegisterOp i) p = snd (forward_register i p)"
| "forward_step (ResolveOp r) p = forward_resolve r p"
| "forward_step CancelOp p = cancel_all p"

definition waits_for :: "nat \<Rightarrow> string \<Rightarrow> pending_forwards \<Rightarrow> bool" where
  "waits_for rx i p \<longleftrightarrow> rx < pf_next p \<and> (\<forall>j. am_get (pf_inner p) j = Some rx \<longrightarrow> j = i)
     \<and> (\<forall>r. am_get (pf_delivered p) rx = Some r \<longrightarrow> ar_request_id r = i)"

lemma waits_for_step: "waits_for rx i p \<Longrightarrow> waits_for rx i (forward_step op p)"
  by (cases op) (auto simp: waits_for_def forward_register_def forward_resolve_def cancel_all_def map_simps
      split: option.splits if_splits)

definition forwards_ok :: "pending_forwards \<Rightarrow> bool" where
  "forwards_ok p \<longleftrightarrow> (\<forall>j rx. am_get (pf_inner p) j = Some rx \<longrightarrow> rx < pf_next p)
     \<and> (\<forall>rx. am_get (pf_delivered p) rx \<noteq> None \<longrightarrow> rx < pf_next p)"

lemma forwards_ok_step: "forwards_ok p \<Longrightarrow> forwards_ok (forward_step op p)"
  by (cases op) (auto simp: forwards_ok_def forward_register_def forward_resolve_def cancel_all_def map_simps less_Suc_eq
      split: option.splits if_splits)

lemma forward_answer:
  assumes "forwards_ok p" and "forward_begin True f p = (Inr (rx, m), p1)"
    and "forward_end rx (fold forward_step ops p1) = Inr response"
  shows "ar_request_id response = af_request_id f"
proof -
  have "waits_for rx (af_request_id f) p1" using assms(1,2)
    by (auto simp: forward_begin_def forward_register_def waits_for_def forwards_ok_def map_simps split: if_splits)
      (metis less_irrefl)+
  then have "waits_for rx (af_request_id f) (fold forward_step ops p1)"
    by (induction ops arbitrary: p1) (simp_all add: waits_for_step)
  then show ?thesis using assms(3) by (auto simp: forward_end_def waits_for_def split: option.splits if_splits)
qed

end
