(* ===== verification/ClusterNode.thy ===== *)
theory ClusterNode
  imports ClusterProtocol
begin

text \<open>
  One node of a cluster: the phi-accrual failure detector (waf-cluster/src/health/detector.rs), the
  election state (election/mod.rs), the state of the node (node.rs), the handlers of the messages
  that arrive on either end of a stream (transport/server.rs, transport/client.rs), and the turns of
  the background loops (health/mod.rs, election/mod.rs).  A handler runs as one step.  The clock, the
  random nonce, the exponential and the logarithm, base64 and the cipher are parameters.
\<close>

section \<open>Socket addresses\<close>

datatype socket_addr = SockV4 ip_addr u16 | SockV6 ip_addr u16 nat

definition read_port :: "string \<Rightarrow> u16 option" where
  "read_port s =
     (case s of
        CHR '':'' # t \<Rightarrow> (case read_number 10 (length t) True 65535 t of Some (p, []) \<Rightarrow> Some (of_nat p) | _ \<Rightarrow> None)
      | _ \<Rightarrow> None)"

definition read_scope :: "string \<Rightarrow> (nat \<times> string) option" where
  "read_scope s = (case s of CHR ''%'' # t \<Rightarrow> read_number 10 (length t) True (2 ^ 32 - 1) t | _ \<Rightarrow> Some (0, s))"

definition socket_addr_from_str :: "string \<Rightarrow> socket_addr option" where
  "socket_addr_from_str s =
     (case read_ipv4_addr s of
        Some (v, t) \<Rightarrow> map_option (SockV4 (V4 (v ! 0) (v ! 1) (v ! 2) (v ! 3))) (read_port t)
      | None \<Rightarrow>
          (case s of
             CHR ''['' # t \<Rightarrow>
               (case read_ipv6_addr t of
                  None \<Rightarrow> None
                | Some (ip, t) \<Rightarrow>
                    (case read_scope t of
                       Some (scope, CHR '']'' # t) \<Rightarrow> map_option (\<lambda>p. SockV6 ip p scope) (read_port t)
                     | _ \<Rightarrow> None))
           | _ \<Rightarrow> None))"

fun show_socket_addr :: "socket_addr \<Rightarrow> string" where
  "show_socket_addr (SockV4 ip p) = show_ip ip @ '':'' @ show_dec (unat p)"
| "show_socket_addr (SockV6 ip p scope) =
     ''['' @ show_ip ip @ (if scope = 0 then [] else CHR ''%'' # show_dec scope) @ '']:'' @ show_dec (unat p)"

definition no_addr :: socket_addr where
  "no_addr = SockV4 (V4 0 0 0 0) 0"

section \<open>The failure detector\<close>

datatype phi_value = PhiFinite rat | PhiInfinity

fun phi_gt :: "phi_value \<Rightarrow> rat \<Rightarrow> bool" where
  "phi_gt (PhiFinite x) y = (y < x)"
| "phi_gt PhiInfinity y = True"

record phi_lib =
  f64_exp :: "rat \<Rightarrow> rat"
  f64_log10 :: "rat \<Rightarrow> rat"

record phi_detector =
  pd_node_id :: string
  pd_window :: "u64 list"
  pd_max_window :: nat
  pd_phi_suspect :: rat
  pd_phi_dead :: rat

definition detector_new :: "string \<Rightarrow> rat \<Rightarrow> rat \<Rightarrow> phi_detector" where
  "detector_new node suspect dead =
     \<lparr>pd_node_id = node, pd_window = [], pd_max_window = 100, pd_phi_suspect = suspect, pd_phi_dead = dead\<rparr>"

definition record_heartbeat :: "u64 \<Rightarrow> phi_detector \<Rightarrow> phi_detector" where
  "record_heartbeat timestamp_ms d =
     (let w = (if pd_max_window d \<le> length (pd_window d) then tl (pd_window d) else pd_window d)
      in d\<lparr>pd_window := w @ [timestamp_ms]\<rparr>)"

definition u64_to_f64 :: "u64 \<Rightarrow> rat" where
  "u64_to_f64 x = f64_rnd (of_nat (unat x))"

definition saturating_sub :: "u64 \<Rightarrow> u64 \<Rightarrow> u64" where
  "saturating_sub a b = (if a < b then 0 else a - b)"

definition phi :: "phi_lib \<Rightarrow> phi_detector \<Rightarrow> u64 \<Rightarrow> phi_value" where
  "phi lib d now_ms =
     (if length (pd_window d) < 2 then PhiFinite 0
      else
        let elapsed = u64_to_f64 (saturating_sub now_ms (last (pd_window d)));
            intervals = filter (\<lambda>x. 0 < x)
              (map (\<lambda>(a, b). u64_to_f64 (saturating_sub b a)) (zip (pd_window d) (drop 1 (pd_window d))))
        in if intervals = [] then PhiFinite 0
           else
             let mean = f64_rnd (foldl (\<lambda>acc x. f64_rnd (acc + x)) 0 intervals / f64_rnd (of_nat (length intervals)))
             in if mean \<le> 0 then PhiInfinity
                else let prob = f64_exp lib (f64_rnd (- elapsed / mean))
                     in if prob \<le> 0 then PhiInfinity else PhiFinite (- f64_log10 lib prob))"

definition is_suspected :: "phi_lib \<Rightarrow> phi_detector \<Rightarrow> u64 \<Rightarrow> bool" where
  "is_suspected lib d now_ms = phi_gt (phi lib d now_ms) (pd_phi_suspect d)"

definition is_dead :: "phi_lib \<Rightarrow> phi_detector \<Rightarrow> u64 \<Rightarrow> bool" where
  "is_dead lib d now_ms = phi_gt (phi lib d now_ms) (pd_phi_dead d)"

record heartbeat_tracker =
  ht_peers :: "(string, phi_detector) amap"
  ht_phi_suspect :: rat
  ht_phi_dead :: rat

definition tracker_new :: "rat \<Rightarrow> rat \<Rightarrow> heartbeat_tracker" where
  "tracker_new suspect dead = \<lparr>ht_peers = [], ht_phi_suspect = suspect, ht_phi_dead = dead\<rparr>"

definition tracker_record :: "string \<Rightarrow> u64 \<Rightarrow> heartbeat_tracker \<Rightarrow> heartbeat_tracker" where
  "tracker_record node now_ms t =
     (let d = (case am_get (ht_peers t) node of
                 Some d \<Rightarrow> d | None \<Rightarrow> detector_new node (ht_phi_suspect t) (ht_phi_dead t))
      in t\<lparr>ht_peers := am_put node (record_heartbeat now_ms d) (ht_peers t)\<rparr>)"

definition phi_for :: "phi_lib \<Rightarrow> heartbeat_tracker \<Rightarrow> string \<Rightarrow> u64 \<Rightarrow> phi_value" where
  "phi_for lib t node now_ms = (case am_get (ht_peers t) node of Some d \<Rightarrow> phi lib d now_ms | None \<Rightarrow> PhiFinite 0)"

definition is_peer_dead :: "phi_lib \<Rightarrow> heartbeat_tracker \<Rightarrow> string \<Rightarrow> u64 \<Rightarrow> bool" where
  "is_peer_dead lib t node now_ms = (case am_get (ht_peers t) node of Some d \<Rightarrow> is_dead lib d now_ms | None \<Rightarrow> False)"

definition dead_nodes :: "phi_lib \<Rightarrow> heartbeat_tracker \<Rightarrow> u64 \<Rightarrow> string list" where
  "dead_nodes lib t now_ms = map fst (filter (\<lambda>(_, d). is_dead lib d now_ms) (ht_peers t))"

definition tracker_remove :: "string \<Rightarrow> heartbeat_tracker \<Rightarrow> heartbeat_tracker" where
  "tracker_remove node t = t\<lparr>ht_peers := am_del node (ht_peers t)\<rparr>"

section \<open>The election state\<close>

record election_manager =
  em_node_id :: string
  em_term :: u64
  em_voted_for :: "string option"
  em_timeout_min_ms :: u64
  em_timeout_max_ms :: u64
  em_votes_for_me :: "(u64, string set) amap"

definition election_new :: "string \<Rightarrow> u64 \<Rightarrow> u64 \<Rightarrow> election_manager" where
  "election_new node lo hi =
     \<lparr>em_node_id = node, em_term = 0, em_voted_for = None, em_timeout_min_ms = lo, em_timeout_max_ms = hi, em_votes_for_me = []\<rparr>"

text \<open>The bounds between which a timeout is drawn.\<close>

definition election_timeout_range :: "election_manager \<Rightarrow> u64 \<times> u64" where
  "election_timeout_range e = (em_timeout_min_ms e, max (em_timeout_max_ms e) (em_timeout_min_ms e + 1))"

definition votes_in :: "election_manager \<Rightarrow> u64 \<Rightarrow> string set" where
  "votes_in e t = (case am_get (em_votes_for_me e) t of Some vs \<Rightarrow> vs | None \<Rightarrow> {})"

definition increment_term_and_vote_for_self :: "election_manager \<Rightarrow> u64 \<times> election_manager" where
  "increment_term_and_vote_for_self e =
     (let new_term = em_term e + 1;
          e = e\<lparr>em_term := new_term, em_voted_for := Some (em_node_id e),
                em_votes_for_me := am_retain (\<lambda>t _. new_term \<le> t) (em_votes_for_me e)\<rparr>
      in (new_term, e\<lparr>em_votes_for_me := am_put new_term (insert (em_node_id e) (votes_in e new_term)) (em_votes_for_me e)\<rparr>))"

definition record_vote_for_me :: "u64 \<Rightarrow> string \<Rightarrow> election_manager \<Rightarrow> bool \<times> election_manager" where
  "record_vote_for_me t voter e =
     (if t < em_term e then (False, e)
      else (voter \<notin> votes_in e t, e\<lparr>em_votes_for_me := am_put t (insert voter (votes_in e t)) (em_votes_for_me e)\<rparr>))"

definition vote_count_for_term :: "election_manager \<Rightarrow> u64 \<Rightarrow> nat" where
  "vote_count_for_term e t = card (votes_in e t)"

definition voter_ids_for_term :: "election_manager \<Rightarrow> u64 \<Rightarrow> string list" where
  "voter_ids_for_term e t = sorted_list_of_set (votes_in e t)"

definition is_majority :: "nat \<Rightarrow> nat \<Rightarrow> bool" where
  "is_majority votes total_nodes \<longleftrightarrow> 0 < total_nodes \<and> total_nodes div 2 < votes"

definition is_valid_term :: "election_manager \<Rightarrow> u64 \<Rightarrow> bool" where
  "is_valid_term e t \<longleftrightarrow> em_term e \<le> t"

definition advance_term :: "u64 \<Rightarrow> election_manager \<Rightarrow> election_manager" where
  "advance_term t e = (if em_term e < t then e\<lparr>em_term := t, em_voted_for := None\<rparr> else e)"

definition process_vote :: "election_vote \<Rightarrow> election_manager \<Rightarrow> bool \<times> election_manager" where
  "process_vote v e =
     (if ev_term v < em_term e then (False, e)
      else
        let e = (if em_term e < ev_term v then e\<lparr>em_term := ev_term v, em_voted_for := None\<rparr> else e)
        in if em_voted_for e = None \<or> em_voted_for e = Some (ev_candidate_id v)
           then (True, e\<lparr>em_voted_for := Some (ev_candidate_id v)\<rparr>)
           else (False, e))"

definition process_result :: "election_result \<Rightarrow> election_manager \<Rightarrow> node_role \<times> election_manager" where
  "process_result r e =
     (if \<not> is_valid_term e (er_term r) then (Worker, e)
      else (if er_elected_id r = em_node_id e then Main else Worker, advance_term (er_term r) e))"

section \<open>The state of a node\<close>

datatype storage_mode = StorageFull | ForwardOnly

record peer_info =
  pi_node_id :: string
  pi_addr :: socket_addr
  pi_role :: node_role
  pi_last_seen_ms :: u64

record cluster_config =
  cc_enabled :: bool
  cc_node_id :: string
  cc_role :: string
  cc_listen_addr :: string
  cc_seeds :: "string list"
  cc_ca_passphrase :: string
  cc_timeout_min_ms :: u64
  cc_timeout_max_ms :: u64
  cc_heartbeat_interval_ms :: u64
  cc_phi_suspect :: rat
  cc_phi_dead :: rat

text \<open>An outbound channel: what is queued, and whether the receiver is gone.\<close>

record 'm outbound =
  ob_queue :: "'m list"
  ob_closed :: bool

definition CHANNEL_CAPACITY :: nat where
  "CHANNEL_CAPACITY = 256"

definition ob_try_send :: "'m \<Rightarrow> 'm outbound \<Rightarrow> 'm outbound" where
  "ob_try_send m ch = (if ob_closed ch \<or> CHANNEL_CAPACITY \<le> length (ob_queue ch) then ch else ch\<lparr>ob_queue := ob_queue ch @ [m]\<rparr>)"

record ('j, 'b) node_state =
  ns_node_id :: string
  ns_role :: node_role
  ns_term :: u64
  ns_config :: cluster_config
  ns_peers :: "peer_info list"
  ns_storage_mode :: storage_mode
  ns_rules_version :: u64
  ns_config_version :: u64
  ns_election :: election_manager
  ns_heartbeat_tracker :: heartbeat_tracker
  ns_peer_channels :: "('j, 'b) cluster_message outbound list"
  ns_ca_key_pem :: "string option"
  ns_ca_key_encrypted :: "u8 list option"

definition node_new :: "string \<Rightarrow> cluster_config \<Rightarrow> storage_mode \<Rightarrow> ('j, 'b) node_state" where
  "node_new random_suffix cfg mode =
     (let node = (if cc_node_id cfg = [] then ''node-'' @ random_suffix else cc_node_id cfg)
      in \<lparr>ns_node_id = node, ns_role = (if cc_role cfg = ''main'' then Main else Worker), ns_term = 0, ns_config = cfg,
          ns_peers = [], ns_storage_mode = mode, ns_rules_version = 0, ns_config_version = 0,
          ns_election = election_new node (cc_timeout_min_ms cfg) (cc_timeout_max_ms cfg),
          ns_heartbeat_tracker = tracker_new (cc_phi_suspect cfg) (cc_phi_dead cfg),
          ns_peer_channels = [], ns_ca_key_pem = None, ns_ca_key_encrypted = None\<rparr>)"

definition transition_to :: "node_role \<Rightarrow> ('j, 'b) node_state \<Rightarrow> ('j, 'b) node_state" where
  "transition_to r n = n\<lparr>ns_role := r\<rparr>"

definition promote_to_main :: "('j, 'b) node_state \<Rightarrow> ('j, 'b) node_state" where
  "promote_to_main n = transition_to Main n"

definition demote_to_worker :: "('j, 'b) node_state \<Rightarrow> ('j, 'b) node_state" where
  "demote_to_worker n = (if ns_role n \<noteq> Worker then transition_to Worker n else n)"

definition increment_term :: "('j, 'b) node_state \<Rightarrow> u64 \<times> ('j, 'b) node_state" where
  "increment_term n = (ns_term n + 1, n\<lparr>ns_term := ns_term n + 1\<rparr>)"

definition fencing_check :: "('j, 'b) node_state \<Rightarrow> u64 \<Rightarrow> bool" where
  "fencing_check n t = is_valid_term (ns_election n) t"

definition total_nodes :: "('j, 'b) node_state \<Rightarrow> nat" where
  "total_nodes n = length (ns_peers n) + 1"

text \<open>The first entry with the identifier is updated in place, or a new one is appended.\<close>

fun upsert_peer :: "(peer_info \<Rightarrow> peer_info) \<Rightarrow> peer_info \<Rightarrow> peer_info list \<Rightarrow> peer_info list" where
  "upsert_peer f p [] = [p]"
| "upsert_peer f p (q # qs) = (if pi_node_id q = pi_node_id p then f q # qs else q # upsert_peer f p qs)"

definition add_or_update_peer :: "peer_info \<Rightarrow> ('j, 'b) node_state \<Rightarrow> ('j, 'b) node_state" where
  "add_or_update_peer p n =
     n\<lparr>ns_peers := upsert_peer (\<lambda>q. q\<lparr>pi_last_seen_ms := pi_last_seen_ms p, pi_role := pi_role p, pi_addr := pi_addr p\<rparr>) p (ns_peers n)\<rparr>"

definition remove_peer :: "string \<Rightarrow> ('j, 'b) node_state \<Rightarrow> bool \<times> ('j, 'b) node_state" where
  "remove_peer i n =
     (let peers = filter (\<lambda>p. pi_node_id p \<noteq> i) (ns_peers n)
      in (length peers < length (ns_peers n), n\<lparr>ns_peers := peers\<rparr>))"

definition add_peer_channel :: "('j, 'b) cluster_message outbound \<Rightarrow> ('j, 'b) node_state \<Rightarrow> ('j, 'b) node_state" where
  "add_peer_channel ch n = n\<lparr>ns_peer_channels := ns_peer_channels n @ [ch]\<rparr>"

definition broadcast :: "('j, 'b) cluster_message \<Rightarrow> ('j, 'b) node_state \<Rightarrow> ('j, 'b) node_state" where
  "broadcast m n = n\<lparr>ns_peer_channels := map (ob_try_send m) (ns_peer_channels n)\<rparr>"

definition set_rules_version :: "u64 \<Rightarrow> ('j, 'b) node_state \<Rightarrow> ('j, 'b) node_state" where
  "set_rules_version v n = n\<lparr>ns_rules_version := v\<rparr>"

definition set_config_version :: "u64 \<Rightarrow> ('j, 'b) node_state \<Rightarrow> ('j, 'b) node_state" where
  "set_config_version v n = n\<lparr>ns_config_version := v\<rparr>"

section \<open>Messages that arrive\<close>

record 'c node_lib =
  nl_cipher :: "'c cipher_lib"
  nl_as_bytes :: "string \<Rightarrow> u8 list"
  nl_b64_encode :: "u8 list \<Rightarrow> string"
  nl_b64_decode :: "string \<Rightarrow> u8 list option"
  nl_pkg_version :: string

definition on_heartbeat :: "u64 \<Rightarrow> heartbeat \<Rightarrow> ('j, 'b) node_state \<Rightarrow> ('j, 'b) node_state" where
  "on_heartbeat now_ms hb n =
     n\<lparr>ns_peers := upsert_peer (\<lambda>q. q\<lparr>pi_last_seen_ms := now_ms, pi_role := hb_role hb\<rparr>)
         \<lparr>pi_node_id = hb_node_id hb, pi_addr = no_addr, pi_role = hb_role hb, pi_last_seen_ms = now_ms\<rparr> (ns_peers n),
       ns_heartbeat_tracker := tracker_record (hb_node_id hb) now_ms (ns_heartbeat_tracker n)\<rparr>"

definition encrypted_ca_key :: "'c node_lib \<Rightarrow> u8 list \<Rightarrow> ('j, 'b) node_state \<Rightarrow> string option" where
  "encrypted_ca_key lib nonce n =
     (let passphrase = cc_ca_passphrase (ns_config n)
      in if passphrase = [] then None
         else Option.bind (ns_ca_key_pem n)
                (\<lambda>pem. map_option (nl_b64_encode lib) (encrypt_blob (nl_cipher lib) nonce (nl_as_bytes lib pem) passphrase)))"

definition info_of_peer :: "'c node_lib \<Rightarrow> peer_info \<Rightarrow> node_info" where
  "info_of_peer lib p =
     \<lparr>ni_node_id = pi_node_id p, ni_hostname = pi_node_id p, ni_version = nl_pkg_version lib,
      ni_listen_addr = show_socket_addr (pi_addr p), ni_capabilities = [''waf'']\<rparr>"

definition on_join_request ::
  "'c node_lib \<Rightarrow> u8 list \<Rightarrow> u64 \<Rightarrow> join_request \<Rightarrow> ('j, 'b) node_state \<Rightarrow> join_response \<times> ('j, 'b) node_state" where
  "on_join_request lib nonce now_ms req n =
     (let state = \<lparr>cst_main_node_id = ns_node_id n, cst_nodes = map (info_of_peer lib) (ns_peers n),
                   cst_rules_version = ns_rules_version n, cst_config_version = ns_config_version n,
                   cst_term = em_term (ns_election n)\<rparr>;
          peer = \<lparr>pi_node_id = ni_node_id (jr_node_info req),
                  pi_addr = (case socket_addr_from_str (ni_listen_addr (jr_node_info req)) of Some a \<Rightarrow> a | None \<Rightarrow> no_addr),
                  pi_role = Worker, pi_last_seen_ms = now_ms\<rparr>
      in (\<lparr>jp_accepted = True, jp_reason = None, jp_node_cert_pem = [], jp_ca_cert_pem = [],
           jp_cluster_state = state, jp_encrypted_ca_key_b64 = encrypted_ca_key lib nonce n\<rparr>,
          add_or_update_peer peer n))"

definition register_member :: "u64 \<Rightarrow> node_info \<Rightarrow> ('j, 'b) node_state \<Rightarrow> ('j, 'b) node_state" where
  "register_member now_ms i n =
     (if ni_node_id i = ns_node_id n then n
      else add_or_update_peer \<lparr>pi_node_id = ni_node_id i,
             pi_addr = (case socket_addr_from_str (ni_listen_addr i) of Some a \<Rightarrow> a | None \<Rightarrow> no_addr),
             pi_role = Worker, pi_last_seen_ms = now_ms\<rparr> n)"

definition on_join_response :: "'c node_lib \<Rightarrow> u64 \<Rightarrow> join_response \<Rightarrow> ('j, 'b) node_state \<Rightarrow> ('j, 'b) node_state" where
  "on_join_response lib now_ms resp n =
     (if \<not> jp_accepted resp then n
      else
        let n = (case Option.bind (jp_encrypted_ca_key_b64 resp) (nl_b64_decode lib) of
                   Some enc \<Rightarrow> n\<lparr>ns_ca_key_encrypted := Some enc\<rparr> | None \<Rightarrow> n);
            main_addr = (case cc_seeds (ns_config n) of
                           s # _ \<Rightarrow> (case socket_addr_from_str s of Some a \<Rightarrow> a | None \<Rightarrow> no_addr) | [] \<Rightarrow> no_addr);
            n = add_or_update_peer \<lparr>pi_node_id = cst_main_node_id (jp_cluster_state resp), pi_addr = main_addr,
                  pi_role = Main, pi_last_seen_ms = now_ms\<rparr> n
        in fold (register_member now_ms) (cst_nodes (jp_cluster_state resp)) n)"

definition on_election_result :: "election_result \<Rightarrow> ('j, 'b) node_state \<Rightarrow> ('j, 'b) node_state" where
  "on_election_result r n =
     (case process_result r (ns_election n) of (role, e) \<Rightarrow> transition_to role (n\<lparr>ns_election := e\<rparr>))"

text \<open>The server end: a message from a stream a peer opened, and the answer on that stream.\<close>

definition dispatch_message ::
  "'c node_lib \<Rightarrow> u8 list \<Rightarrow> u64 \<Rightarrow> ('j, 'b) cluster_message \<Rightarrow> ('j, 'b) node_state \<Rightarrow>
   ('j, 'b) cluster_message option \<times> ('j, 'b) node_state" where
  "dispatch_message lib nonce now_ms msg n =
     (case msg of
        Heartbeat hb \<Rightarrow> (None, on_heartbeat now_ms hb n)
      | JoinRequest req \<Rightarrow> (case on_join_request lib nonce now_ms req n of (resp, n) \<Rightarrow> (Some (JoinResponse resp), n))
      | ElectionVote v \<Rightarrow>
          if ev_voter_id v \<noteq> None then (None, n)
          else (case process_vote v (ns_election n) of
                  (granted, e) \<Rightarrow>
                    (if granted then Some (ElectionVote (v\<lparr>ev_voter_id := Some (ns_node_id n)\<rparr>)) else None, n\<lparr>ns_election := e\<rparr>))
      | ElectionResult r \<Rightarrow> (None, on_election_result r n)
      | _ \<Rightarrow> (None, n))"

text \<open>The client end: a message from a stream this node opened.\<close>

definition dispatch_incoming ::
  "'c node_lib \<Rightarrow> u64 \<Rightarrow> ('j, 'b) cluster_message \<Rightarrow> ('j, 'b) node_state \<Rightarrow> ('j, 'b) node_state" where
  "dispatch_incoming lib now_ms msg n =
     (case msg of
        Heartbeat hb \<Rightarrow> on_heartbeat now_ms hb n
      | JoinResponse resp \<Rightarrow> on_join_response lib now_ms resp n
      | ElectionVote v \<Rightarrow>
          (case ev_voter_id v of
             None \<Rightarrow> n
           | Some voter \<Rightarrow>
               if ev_candidate_id v = ns_node_id n
               then n\<lparr>ns_election := snd (record_vote_for_me (ev_term v) voter (ns_election n))\<rparr>
               else n)
      | ElectionResult r \<Rightarrow> on_election_result r n
      | _ \<Rightarrow> n)"

section \<open>Background loops\<close>

definition BACKOFF_MIN_MS :: nat where
  "BACKOFF_MIN_MS = 500"

definition BACKOFF_MAX_MS :: nat where
  "BACKOFF_MAX_MS = 30000"

text \<open>
  The reconnection loop of a client: given whether a connection ended cleanly, the time slept before
  the next attempt and the delay kept for later.
\<close>

definition reconnect_turn :: "bool \<Rightarrow> nat \<Rightarrow> nat \<times> nat" where
  "reconnect_turn clean delay_ms = (if clean then (0, BACKOFF_MIN_MS) else (delay_ms, min (delay_ms * 2) BACKOFF_MAX_MS))"

definition heartbeat_of :: "u64 \<Rightarrow> u64 \<Rightarrow> u64 \<Rightarrow> ('j, 'b) node_state \<Rightarrow> heartbeat" where
  "heartbeat_of start_ms now_ms sequence n =
     \<lparr>hb_sequence = sequence, hb_timestamp_ms = now_ms, hb_node_id = ns_node_id n, hb_role = ns_role n,
      hb_uptime_secs = saturating_sub now_ms start_ms div 1000, hb_cpu_percent = 0, hb_memory_used_bytes = 0,
      hb_total_requests = 0, hb_blocked_requests = 0, hb_rules_version = ns_rules_version n,
      hb_config_version = ns_config_version n\<rparr>"

definition run_heartbeat_sender_tick ::
  "u64 \<Rightarrow> u64 \<Rightarrow> u64 \<Rightarrow> ('j, 'b) node_state \<Rightarrow> ('j, 'b) cluster_message \<times> u64 \<times> ('j, 'b) node_state" where
  "run_heartbeat_sender_tick start_ms now_ms sequence n =
     (let sequence = sequence + 1; msg = Heartbeat (heartbeat_of start_ms now_ms sequence n)
      in (msg, sequence, broadcast msg n))"

definition evict_peer :: "string \<Rightarrow> ('j, 'b) node_state \<Rightarrow> ('j, 'b) node_state" where
  "evict_peer i n =
     (let n = snd (remove_peer i n) in n\<lparr>ns_heartbeat_tracker := tracker_remove i (ns_heartbeat_tracker n)\<rparr>)"

definition run_peer_eviction_tick :: "phi_lib \<Rightarrow> u64 \<Rightarrow> ('j, 'b) node_state \<Rightarrow> ('j, 'b) node_state" where
  "run_peer_eviction_tick lib now_ms n =
     fold evict_peer (filter (\<lambda>i. is_peer_dead lib (ns_heartbeat_tracker n) i now_ms) (map pi_node_id (ns_peers n))) n"

definition check_main_is_dead :: "phi_lib \<Rightarrow> u64 \<Rightarrow> ('j, 'b) node_state \<Rightarrow> bool" where
  "check_main_is_dead lib now_ms n =
     (case find (\<lambda>p. pi_role p = Main) (ns_peers n) of
        None \<Rightarrow> ns_peers n \<noteq> []
      | Some p \<Rightarrow> is_peer_dead lib (ns_heartbeat_tracker n) (pi_node_id p) now_ms)"

text \<open>
  The election loop, cut at its suspension points: where it stands, with the values it holds there.
  A turn gives the messages it broadcasts and the place it goes on from.
\<close>

datatype loop_pc =
    LoopTop
  | LoopWait
  | LoopDead
  | LoopLone
  | LoopCounted nat
  | LoopCandidate nat
  | LoopVoted u64 nat
  | LoopVoting u64 nat
  | LoopWon u64
  | LoopAnnounce u64

fun run_election_loop_turn ::
  "phi_lib \<Rightarrow> u64 \<Rightarrow> loop_pc \<Rightarrow> ('j, 'b) node_state \<Rightarrow> loop_pc \<times> ('j, 'b) cluster_message list \<times> ('j, 'b) node_state" where
  "run_election_loop_turn lib now_ms LoopTop n = (if ns_role n = Main then LoopTop else LoopWait, [], n)"
| "run_election_loop_turn lib now_ms LoopWait n = (if check_main_is_dead lib now_ms n then LoopDead else LoopTop, [], n)"
| "run_election_loop_turn lib now_ms LoopDead n = (if total_nodes n \<le> 1 then LoopLone else LoopCounted (total_nodes n), [], n)"
| "run_election_loop_turn lib now_ms LoopLone n = (LoopTop, [], promote_to_main n)"
| "run_election_loop_turn lib now_ms (LoopCounted k) n = (LoopCandidate k, [], transition_to Candidate n)"
| "run_election_loop_turn lib now_ms (LoopCandidate k) n =
     (case increment_term_and_vote_for_self (ns_election n) of (t, e) \<Rightarrow> (LoopVoted t k, [], n\<lparr>ns_election := e\<rparr>))"
| "run_election_loop_turn lib now_ms (LoopVoted t k) n =
     (let msg = ElectionVote \<lparr>ev_term = t, ev_candidate_id = ns_node_id n, ev_last_log_index = ns_rules_version n, ev_voter_id = None\<rparr>
      in (LoopVoting t k, [msg], broadcast msg n))"
| "run_election_loop_turn lib now_ms (LoopVoting t k) n =
     (if is_majority (vote_count_for_term (ns_election n) t) k then (LoopWon t, [], n) else (LoopTop, [], demote_to_worker n))"
| "run_election_loop_turn lib now_ms (LoopWon t) n = (LoopAnnounce t, [], promote_to_main n)"
| "run_election_loop_turn lib now_ms (LoopAnnounce t) n =
     (let msg = ElectionResult \<lparr>er_term = t, er_elected_id = ns_node_id n, er_voter_ids = voter_ids_for_term (ns_election n) t\<rparr>
      in (LoopTop, [msg], broadcast msg n))"

section \<open>Membership\<close>

text \<open>The peers of a node are distinct, and no handler or loop breaks that: a node is counted once.\<close>

definition peers_wf :: "('j, 'b) node_state \<Rightarrow> bool" where
  "peers_wf n \<longleftrightarrow> distinct (map pi_node_id (ns_peers n))"

lemma upsert_peer_ids:
  assumes "\<And>q. pi_node_id (f q) = pi_node_id q"
  shows "map pi_node_id (upsert_peer f p ps) =
    (if pi_node_id p \<in> pi_node_id ` set ps then map pi_node_id ps else map pi_node_id ps @ [pi_node_id p])"
  by (induction ps) (auto simp: assms)

lemma add_or_update_peer_wf: "peers_wf n \<Longrightarrow> peers_wf (add_or_update_peer p n)"
  by (simp add: peers_wf_def add_or_update_peer_def upsert_peer_ids)

lemma on_heartbeat_wf: "peers_wf n \<Longrightarrow> peers_wf (on_heartbeat now hb n)"
  by (simp add: peers_wf_def on_heartbeat_def upsert_peer_ids)

lemma peers_wf_frame [simp]:
  "peers_wf (n\<lparr>ns_election := e\<rparr>) = peers_wf n" "peers_wf (transition_to r n) = peers_wf n"
  "peers_wf (n\<lparr>ns_ca_key_encrypted := k\<rparr>) = peers_wf n"
  by (simp_all add: peers_wf_def transition_to_def)

lemma fold_register_wf: "peers_wf n \<Longrightarrow> peers_wf (fold (register_member now) is n)"
  by (induction "is" arbitrary: n) (simp_all add: register_member_def add_or_update_peer_wf)

lemma on_join_response_wf: "peers_wf n \<Longrightarrow> peers_wf (on_join_response lib now resp n)"
  by (simp add: on_join_response_def Let_def fold_register_wf add_or_update_peer_wf split: option.split)

lemma on_election_result_wf: "peers_wf n \<Longrightarrow> peers_wf (on_election_result r n)"
  by (simp add: on_election_result_def split: prod.split)

lemma dispatch_message_wf: "peers_wf n \<Longrightarrow> peers_wf (snd (dispatch_message lib nonce now m n))"
  by (cases m) (simp_all add: dispatch_message_def on_join_request_def Let_def on_heartbeat_wf add_or_update_peer_wf
      on_election_result_wf split: prod.split)

lemma dispatch_incoming_wf: "peers_wf n \<Longrightarrow> peers_wf (dispatch_incoming lib now m n)"
  by (cases m) (simp_all add: dispatch_incoming_def on_heartbeat_wf on_join_response_wf on_election_result_wf split: option.split)

lemma evict_peer_wf: "peers_wf n \<Longrightarrow> peers_wf (evict_peer i n)"
  by (simp add: peers_wf_def evict_peer_def remove_peer_def Let_def distinct_map_filter)

lemma run_peer_eviction_wf: "peers_wf n \<Longrightarrow> peers_wf (run_peer_eviction_tick lib now n)"
proof -
  have "peers_wf n \<Longrightarrow> peers_wf (fold evict_peer is n)" for "is"
    by (induction "is" arbitrary: n) (simp_all add: evict_peer_wf)
  then show "peers_wf n \<Longrightarrow> ?thesis" by (simp add: run_peer_eviction_tick_def)
qed

text \<open>What eviction leaves is what a candidate counts, so a candidate that lost its peers counts itself alone.\<close>

lemma fold_evict_peers:
  "ns_peers (fold evict_peer is n) = filter (\<lambda>p. pi_node_id p \<notin> set is) (ns_peers n)"
  by (induction "is" arbitrary: n) (auto simp: evict_peer_def remove_peer_def Let_def intro: filter_cong)

lemma eviction_shrinks_total:
  "total_nodes (run_peer_eviction_tick lib now n) =
     Suc (length (filter (\<lambda>p. \<not> is_peer_dead lib (ns_heartbeat_tracker n) (pi_node_id p) now) (ns_peers n)))"
proof -
  have "filter (\<lambda>p. pi_node_id p \<notin> set (filter (\<lambda>i. is_peer_dead lib (ns_heartbeat_tracker n) i now) (map pi_node_id (ns_peers n)))) (ns_peers n)
      = filter (\<lambda>p. \<not> is_peer_dead lib (ns_heartbeat_tracker n) (pi_node_id p) now) (ns_peers n)"
    by (intro filter_cong) auto
  then show ?thesis by (simp add: total_nodes_def run_peer_eviction_tick_def fold_evict_peers)
qed

section \<open>Failure detection\<close>

lemma record_heartbeat_window:
  "length (pd_window d) \<le> pd_max_window d \<Longrightarrow> 0 < pd_max_window d \<Longrightarrow>
     length (pd_window (record_heartbeat t d)) \<le> pd_max_window (record_heartbeat t d)"
  by (auto simp: record_heartbeat_def Let_def)

text \<open>A peer whose heartbeats never arrived, or only once, is never declared dead by a sensible threshold.\<close>

lemma untracked_never_dead: "am_get (ht_peers t) i = None \<Longrightarrow> \<not> is_peer_dead lib t i now"
  by (simp add: is_peer_dead_def)

lemma one_heartbeat_never_dead: "length (pd_window d) < 2 \<Longrightarrow> 0 \<le> pd_phi_dead d \<Longrightarrow> \<not> is_dead lib d now"
  by (simp add: is_dead_def phi_def)

text \<open>A node without peers never stands for election: the branch for a single node is not reached.\<close>

lemma lone_node_waits: "ns_peers n = [] \<Longrightarrow> run_election_loop_turn lib now LoopWait n = (LoopTop, [], n)"
  by (simp add: check_main_is_dead_def)

text \<open>A result of an earlier term is not ignored: it turns the receiver into a worker.\<close>

lemma stale_result_demotes:
  "er_term r < em_term (ns_election n) \<Longrightarrow> on_election_result r n = n\<lparr>ns_role := Worker\<rparr>"
  by (simp add: on_election_result_def process_result_def is_valid_term_def transition_to_def)

text \<open>The token of a join request is not looked at.\<close>

lemma join_ignores_token:
  "on_join_request lib nonce now (req\<lparr>jr_token := token, jr_csr_pem := csr\<rparr>) n = on_join_request lib nonce now req n
   \<and> jp_accepted (fst (on_join_request lib nonce now req n))"
  by (simp add: on_join_request_def Let_def)

lemma reconnect_delay_bounded:
  "BACKOFF_MIN_MS \<le> d \<Longrightarrow> d \<le> BACKOFF_MAX_MS \<Longrightarrow>
     BACKOFF_MIN_MS \<le> snd (reconnect_turn ok d) \<and> snd (reconnect_turn ok d) \<le> BACKOFF_MAX_MS"
  by (simp add: reconnect_turn_def BACKOFF_MIN_MS_def BACKOFF_MAX_MS_def)

end
