(* ===== verification/ClusterNet.thy ===== *)
theory ClusterNet
  imports ClusterNode
begin

text \<open>
  A cluster: its nodes, where the election loop of each stands, and every message ever sent.  The
  network may deliver a sent message to any node, on either end of a stream, late, repeatedly or
  never, which covers the streams of waf-cluster/src/transport.  Two sets record the past: the
  elections that were won, each with the number of nodes its winner counted.  The lemmas show
  that votes are never given twice in a term; the theorems, when that makes the winner of a term
  unique and when it does not.
\<close>

section \<open>Interface: majorities\<close>

locale majority =
  fixes maj :: "nat \<Rightarrow> nat \<Rightarrow> bool"
  assumes more_than_half: "maj votes whole \<Longrightarrow> whole < 2 * votes"
begin

lemma quorums_meet:
  assumes fin: "finite U" and "A \<subseteq> U" "B \<subseteq> U" and "maj (card A) k" "maj (card B) l"
    and "card U \<le> k" "card U \<le> l"
  shows "A \<inter> B \<noteq> {}"
proof
  assume "A \<inter> B = {}"
  then have "card A + card B = card (A \<union> B)"
    using assms(2,3) fin by (simp add: card_Un_disjoint finite_subset)
  also have "\<dots> \<le> card U" using assms(2,3) fin by (intro card_mono) auto
  finally show False using more_than_half [OF assms(4)] more_than_half [OF assms(5)] assms(6,7) by linarith
qed

end

interpretation cluster_maj: majority is_majority
  by unfold_locales (auto simp: is_majority_def)

section \<open>Runs of a cluster\<close>

record ('j, 'b) cluster =
  cl_nodes :: "string \<Rightarrow> ('j, 'b) node_state"
  cl_pc :: "string \<Rightarrow> loop_pc"
  cl_sent :: "('j, 'b) cluster_message set"
  cl_won :: "(u64 \<times> string \<times> nat) set"

fun won_by :: "string \<Rightarrow> loop_pc \<Rightarrow> loop_pc \<Rightarrow> (u64 \<times> string \<times> nat) set" where
  "won_by i (LoopVoting t k) (LoopWon _) = {(t, i, k)}"
| "won_by i _ _ = {}"

definition set_node :: "string \<Rightarrow> ('j, 'b) node_state \<Rightarrow> ('j, 'b) cluster_message list \<Rightarrow> ('j, 'b) cluster \<Rightarrow> ('j, 'b) cluster" where
  "set_node i n ms s = s\<lparr>cl_nodes := (cl_nodes s)(i := n), cl_sent := cl_sent s \<union> set ms\<rparr>"

definition cluster_init :: "(string \<Rightarrow> cluster_config) \<Rightarrow> ('j, 'b) cluster" where
  "cluster_init cfg =
     \<lparr>cl_nodes = (\<lambda>i. node_new [] ((cfg i)\<lparr>cc_node_id := i\<rparr>) StorageFull), cl_pc = (\<lambda>_. LoopTop), cl_sent = {}, cl_won = {}\<rparr>"

inductive net_step :: "'c node_lib \<Rightarrow> phi_lib \<Rightarrow> string set \<Rightarrow> ('j, 'b) cluster \<Rightarrow> ('j, 'b) cluster \<Rightarrow> bool"
  for lib plib ids where
  turn: "i \<in> ids \<Longrightarrow> run_election_loop_turn plib now (cl_pc s i) (cl_nodes s i) = (pc, ms, n) \<Longrightarrow>
     net_step lib plib ids s ((set_node i n ms s)\<lparr>cl_pc := (cl_pc s)(i := pc), cl_won := cl_won s \<union> won_by i (cl_pc s i) pc\<rparr>)"
| server: "i \<in> ids \<Longrightarrow> m \<in> cl_sent s \<Longrightarrow> dispatch_message lib nonce now m (cl_nodes s i) = (r, n) \<Longrightarrow>
     net_step lib plib ids s (set_node i n (case r of Some a \<Rightarrow> [a] | None \<Rightarrow> []) s)"
| client: "i \<in> ids \<Longrightarrow> m \<in> cl_sent s \<Longrightarrow>
     net_step lib plib ids s (set_node i (dispatch_incoming lib now m (cl_nodes s i)) [] s)"
| beat: "i \<in> ids \<Longrightarrow> run_heartbeat_sender_tick start now sq (cl_nodes s i) = (m, sq', n) \<Longrightarrow>
     net_step lib plib ids s (set_node i n [m] s)"
| evict: "i \<in> ids \<Longrightarrow> net_step lib plib ids s (set_node i (run_peer_eviction_tick plib now (cl_nodes s i)) [] s)"
| join: "i \<in> ids \<Longrightarrow> net_step lib plib ids s (set_node i (cl_nodes s i) [JoinRequest req] s)"
| transport: "i \<in> ids \<Longrightarrow> net_step lib plib ids s (set_node i ((cl_nodes s i)\<lparr>ns_peer_channels := chs\<rparr>) [] s)"

inductive net_run :: "'c node_lib \<Rightarrow> phi_lib \<Rightarrow> string set \<Rightarrow> nat \<Rightarrow> ('j, 'b) cluster \<Rightarrow> ('j, 'b) cluster \<Rightarrow> bool"
  for lib plib ids where
  run_refl: "net_run lib plib ids 0 s s"
| run_step: "net_run lib plib ids k s s' \<Longrightarrow> net_step lib plib ids s' s'' \<Longrightarrow> net_run lib plib ids (Suc k) s s''"

section \<open>A node votes once in a term\<close>

text \<open>
  \<open>V\<close> is the set of votes given so far, as term, voter and candidate.  The invariant of the election
  state of node \<open>i\<close> after at most \<open>k\<close> steps: its term, its own votes, and the votes it counts.
\<close>

definition em_inv :: "nat \<Rightarrow> (u64 \<times> string \<times> string) set \<Rightarrow> string \<Rightarrow> election_manager \<Rightarrow> bool" where
  "em_inv k V i e \<longleftrightarrow> em_node_id e = i \<and> unat (em_term e) \<le> k \<and> am_wf (em_votes_for_me e)
     \<and> (\<forall>t c. (t, i, c) \<in> V \<longrightarrow> t \<le> em_term e \<and> (t = em_term e \<longrightarrow> em_voted_for e = Some c))
     \<and> (\<forall>t x. x \<in> votes_in e t \<longrightarrow> (t, x, i) \<in> V)"

definition one_vote :: "(u64 \<times> string \<times> string) set \<Rightarrow> bool" where
  "one_vote V \<longleftrightarrow> (\<forall>t x c d. (t, x, c) \<in> V \<longrightarrow> (t, x, d) \<in> V \<longrightarrow> c = d)"

lemma em_inv_other:
  "em_inv k V j e \<Longrightarrow> k \<le> k' \<Longrightarrow> V \<subseteq> V' \<Longrightarrow> (\<And>t c. (t, j, c) \<in> V' \<Longrightarrow> (t, j, c) \<in> V) \<Longrightarrow> em_inv k' V' j e"
  unfolding em_inv_def by (intro conjI allI impI) (blast intro: le_trans)+

lemma em_inv_own: "em_inv k V i e \<Longrightarrow> (t, i, c) \<in> V \<Longrightarrow> t \<le> em_term e"
  by (simp add: em_inv_def)

lemma em_inv_mono: "em_inv k V i e \<Longrightarrow> k \<le> k' \<Longrightarrow> em_inv k' V i e"
  by (auto simp: em_inv_def)

lemma advance_term_inv: "em_inv k V i e \<Longrightarrow> unat t \<le> k \<Longrightarrow> em_inv k V i (advance_term t e)"
  by (fastforce simp: em_inv_def advance_term_def votes_in_def)

lemma process_result_inv:
  "em_inv k V i e \<Longrightarrow> unat (er_term r) \<le> k \<Longrightarrow> em_inv k V i (snd (process_result r e))"
  by (simp add: process_result_def advance_term_inv)

lemma votes_in_put: "votes_in (e\<lparr>em_votes_for_me := am_put t vs m\<rparr>) u = (if u = t then vs else votes_in (e\<lparr>em_votes_for_me := m\<rparr>) u)"
  by (simp add: votes_in_def map_simps)

lemma record_vote_inv:
  "em_inv k V i e \<Longrightarrow> (t, x, i) \<in> V \<Longrightarrow> em_inv k V i (snd (record_vote_for_me t x e))"
  by (auto simp: em_inv_def record_vote_for_me_def votes_in_put am.wf_put split: if_splits)

lemma process_vote_inv:
  assumes inv: "em_inv k V i e" and one: "one_vote V" and "unat (ev_term v) \<le> k" and "process_vote v e = (granted, e')"
    and V': "V' = V \<union> (if granted then {(ev_term v, i, ev_candidate_id v)} else {})"
  shows "em_inv k V' i e'" and "one_vote V'"
proof -
  let ?e = "advance_term (ev_term v) e"
  have adv: "em_inv k V i ?e" by (rule advance_term_inv [OF inv assms(3)])
  have e: "process_vote v e =
      (if ev_term v < em_term e then (False, e)
       else if em_voted_for ?e = None \<or> em_voted_for ?e = Some (ev_candidate_id v)
       then (True, ?e\<lparr>em_voted_for := Some (ev_candidate_id v)\<rparr>) else (False, ?e))"
    by (auto simp: process_vote_def advance_term_def Let_def)
  have "em_inv k V' i e' \<and> one_vote V'"
  proof (cases granted)
    case True
    then have at: "\<not> ev_term v < em_term e" and free: "em_voted_for ?e = None \<or> em_voted_for ?e = Some (ev_candidate_id v)"
      and e': "e' = ?e\<lparr>em_voted_for := Some (ev_candidate_id v)\<rparr>"
      using assms(4) e by (auto split: if_splits)
    have t: "em_term ?e = ev_term v" using at by (auto simp: advance_term_def)
    have own: "c = ev_candidate_id v" if "(ev_term v, i, c) \<in> V" for c
      using adv free t that by (auto simp: em_inv_def)
    have "em_inv k V' i e'" using adv own t True
      by (auto simp: em_inv_def e' V' votes_in_def)
    moreover have "one_vote V'" using one own True by (auto simp: one_vote_def V')
    ultimately show ?thesis by simp
  next
    case False
    then have "e' = e \<or> e' = ?e" using assms(4) e by (auto split: if_splits)
    then show ?thesis using False inv adv one V' by auto
  qed
  then show "em_inv k V' i e'" and "one_vote V'" by simp_all
qed

lemma increment_inv:
  assumes inv: "em_inv k V i e" and one: "one_vote V" and k: "Suc k < 2 ^ 64"
    and inc: "increment_term_and_vote_for_self e = (t, e')"
  shows "em_inv (Suc k) (insert (t, i, i) V) i e'" and "one_vote (insert (t, i, i) V)" and "unat t \<le> Suc k"
proof -
  have le: "unat (em_term e) \<le> k" and wf: "am_wf (em_votes_for_me e)" and id: "em_node_id e = i"
    using inv by (simp_all add: em_inv_def)
  have t: "t = em_term e + 1" using inc by (simp add: increment_term_and_vote_for_self_def Let_def)
  have unat_t: "unat t = Suc (unat (em_term e))" using le k by (simp add: t unat_word_ariths)
  show "unat t \<le> Suc k" using unat_t le by simp
  have lt: "em_term e < t" using unat_t by (simp add: word_less_nat_alt)
  have new: "(t, i, c) \<notin> V" for c using em_inv_own [OF inv, of t c] lt by auto
  show "one_vote (insert (t, i, i) V)" using one new by (auto simp: one_vote_def)
  have kept: "(case am_get (am_retain (\<lambda>u _. t \<le> u) (em_votes_for_me e)) u of Some vs \<Rightarrow> vs | None \<Rightarrow> {}) = (if t \<le> u then votes_in e u else {})" for u
    by (simp add: votes_in_def am.get_retain [OF wf] split: option.split)
  have "e' = e\<lparr>em_term := t, em_voted_for := Some i,
      em_votes_for_me := am_put t (insert i (votes_in e t)) (am_retain (\<lambda>u _. t \<le> u) (em_votes_for_me e))\<rparr>"
    using inc kept [of t] id by (simp add: increment_term_and_vote_for_self_def Let_def t votes_in_def)
  then have votes: "votes_in e' u = (if u = t then insert i (votes_in e t) else if t \<le> u then votes_in e u else {})" for u
    using kept [of u] by (simp add: votes_in_def map_simps)
  have e': "em_node_id e' = i" "em_term e' = t" "em_voted_for e' = Some i" "am_wf (em_votes_for_me e')"
    using inc id wf by (auto simp: increment_term_and_vote_for_self_def Let_def t am.wf_put am.wf_retain)
  show "em_inv (Suc k) (insert (t, i, i) V) i e'"
    unfolding em_inv_def
  proof (intro conjI allI impI)
    show "u \<le> em_term e'" if "(u, i, c) \<in> insert (t, i, i) V" for u c
      using em_inv_own [OF inv, of u c] that lt e' by auto
    show "em_voted_for e' = Some c" if "(u, i, c) \<in> insert (t, i, i) V" "u = em_term e'" for u c
      using that e' new by auto
    show "(u, x, i) \<in> insert (t, i, i) V" if "x \<in> votes_in e' u" for u x
      using that inv by (auto simp: em_inv_def votes split: if_splits)
  qed (use e' unat_t le in simp_all)
qed

section \<open>The cluster keeps it\<close>

fun msg_inv :: "nat \<Rightarrow> (u64 \<times> string \<times> string) set \<Rightarrow> ('j, 'b) cluster_message \<Rightarrow> bool" where
  "msg_inv k V (ElectionVote v) \<longleftrightarrow> unat (ev_term v) \<le> k \<and> (\<forall>x. ev_voter_id v = Some x \<longrightarrow> (ev_term v, x, ev_candidate_id v) \<in> V)"
| "msg_inv k V (ElectionResult r) \<longleftrightarrow> unat (er_term r) \<le> k"
| "msg_inv k V _ \<longleftrightarrow> True"

fun pc_inv :: "nat \<Rightarrow> loop_pc \<Rightarrow> bool" where
  "pc_inv k (LoopVoted t _) \<longleftrightarrow> unat t \<le> k"
| "pc_inv k (LoopVoting t _) \<longleftrightarrow> unat t \<le> k"
| "pc_inv k (LoopWon t) \<longleftrightarrow> unat t \<le> k"
| "pc_inv k (LoopAnnounce t) \<longleftrightarrow> unat t \<le> k"
| "pc_inv k _ \<longleftrightarrow> True"

definition net_inv :: "string set \<Rightarrow> nat \<Rightarrow> (u64 \<times> string \<times> string) set \<Rightarrow> ('j, 'b) cluster \<Rightarrow> bool" where
  "net_inv ids k V s \<longleftrightarrow> one_vote V \<and> (\<forall>(t, x, c) \<in> V. x \<in> ids)
     \<and> (\<forall>i\<in>ids. ns_node_id (cl_nodes s i) = i \<and> em_inv k V i (ns_election (cl_nodes s i)) \<and> pc_inv k (cl_pc s i))
     \<and> (\<forall>m\<in>cl_sent s. msg_inv k V m)
     \<and> (\<forall>(t, i, n) \<in> cl_won s. is_majority (card {x. (t, x, i) \<in> V}) n)"

lemma msg_inv_mono: "msg_inv k V m \<Longrightarrow> k \<le> k' \<Longrightarrow> V \<subseteq> V' \<Longrightarrow> msg_inv k' V' m"
  by (cases m) auto

lemma pc_inv_mono: "pc_inv k pc \<Longrightarrow> k \<le> k' \<Longrightarrow> pc_inv k' pc"
  by (cases pc) auto

lemma majority_mono: "is_majority (card A) n \<Longrightarrow> A \<subseteq> B \<Longrightarrow> finite B \<Longrightarrow> is_majority (card B) n"
  using card_mono [of B A] by (auto simp: is_majority_def)

lemma voters_finite: "\<forall>(t, x, c) \<in> V. x \<in> ids \<Longrightarrow> finite ids \<Longrightarrow> finite {x. (t, x, i) \<in> V}"
  by (rule finite_subset [of _ ids]) auto

text \<open>What a step at node \<open>i\<close> has to show: the votes it adds are its own.\<close>

lemma net_inv_step:
  assumes inv: "net_inv ids k V s" and fin: "finite ids" and i: "i \<in> ids" and W: "\<And>t x c. (t, x, c) \<in> W \<Longrightarrow> x = i"
    and one: "one_vote (V \<union> W)" and n: "ns_node_id n = i" "em_inv (Suc k) (V \<union> W) i (ns_election n)"
    and ms: "\<And>m. m \<in> set ms \<Longrightarrow> msg_inv (Suc k) (V \<union> W) m" and pc: "pc_inv (Suc k) pc"
    and won: "\<And>t j m. (t, j, m) \<in> won \<Longrightarrow> is_majority (card {x. (t, x, j) \<in> V}) m"
  shows "net_inv ids (Suc k) (V \<union> W) ((set_node i n ms s)\<lparr>cl_pc := (cl_pc s)(i := pc), cl_won := cl_won s \<union> won\<rparr>)"
proof -
  let ?s = "(set_node i n ms s)\<lparr>cl_pc := (cl_pc s)(i := pc), cl_won := cl_won s \<union> won\<rparr>"
  have ids: "\<forall>(t, x, c) \<in> V \<union> W. x \<in> ids" using inv W i unfolding net_inv_def by fastforce
  have node: "ns_node_id (cl_nodes ?s j) = j \<and> em_inv (Suc k) (V \<union> W) j (ns_election (cl_nodes ?s j)) \<and> pc_inv (Suc k) (cl_pc ?s j)"
    if j: "j \<in> ids" for j
  proof (cases "j = i")
    case True
    then show ?thesis using n pc by (simp add: set_node_def)
  next
    case False
    have "em_inv k V j (ns_election (cl_nodes s j))" "ns_node_id (cl_nodes s j) = j" "pc_inv k (cl_pc s j)"
      using inv j by (auto simp: net_inv_def)
    moreover have "em_inv (Suc k) (V \<union> W) j (ns_election (cl_nodes s j))"
      by (rule em_inv_other [OF calculation(1)]) (use W False in auto)
    ultimately show ?thesis using False pc_inv_mono [of k "cl_pc s j" "Suc k"] by (simp add: set_node_def)
  qed
  have sent: "msg_inv (Suc k) (V \<union> W) m" if "m \<in> cl_sent ?s" for m
    using that ms inv msg_inv_mono [of k V m "Suc k" "V \<union> W"] by (auto simp: set_node_def net_inv_def)
  have wins: "is_majority (card {x. (t, x, j) \<in> V \<union> W}) m" if "(t, j, m) \<in> cl_won ?s" for t j m
  proof -
    have "is_majority (card {x. (t, x, j) \<in> V}) m" using that won inv by (auto simp: net_inv_def)
    then show ?thesis by (rule majority_mono) (use voters_finite [OF ids fin] in auto)
  qed
  show ?thesis unfolding net_inv_def using one ids node sent wins by blast
qed

text \<open>Handlers that leave the election state alone.\<close>

lemma upsert_frame:
  "ns_election (add_or_update_peer p n) = ns_election n" "ns_node_id (add_or_update_peer p n) = ns_node_id n"
  by (simp_all add: add_or_update_peer_def)

lemma register_frame:
  "ns_election (fold (register_member now) is n) = ns_election n" "ns_node_id (fold (register_member now) is n) = ns_node_id n"
  by (induction "is" arbitrary: n) (simp_all add: register_member_def upsert_frame)

lemma evict_frame:
  "ns_election (fold evict_peer is n) = ns_election n" "ns_node_id (fold evict_peer is n) = ns_node_id n"
  by (induction "is" arbitrary: n) (simp_all add: evict_peer_def remove_peer_def Let_def)

lemma handler_frames:
  "ns_election (on_heartbeat now hb n) = ns_election n" "ns_node_id (on_heartbeat now hb n) = ns_node_id n"
  "ns_election (on_join_response lib now resp n) = ns_election n" "ns_node_id (on_join_response lib now resp n) = ns_node_id n"
  "ns_election (snd (on_join_request lib nonce now req n)) = ns_election n" "ns_node_id (snd (on_join_request lib nonce now req n)) = ns_node_id n"
  "ns_election (run_peer_eviction_tick plib now n) = ns_election n" "ns_node_id (run_peer_eviction_tick plib now n) = ns_node_id n"
  "ns_election (broadcast m n) = ns_election n" "ns_node_id (broadcast m n) = ns_node_id n"
  by (simp_all add: on_heartbeat_def on_join_response_def on_join_request_def Let_def upsert_frame register_frame
      run_peer_eviction_tick_def evict_frame broadcast_def split: option.split)

lemma result_frame:
  "ns_election (on_election_result r n) = snd (process_result r (ns_election n))" "ns_node_id (on_election_result r n) = ns_node_id n"
  by (simp_all add: on_election_result_def transition_to_def split: prod.split)

lemma node_of_inv:
  assumes "net_inv ids k V s" and "i \<in> ids"
  shows "ns_node_id (cl_nodes s i) = i" "em_inv k V i (ns_election (cl_nodes s i))" "pc_inv k (cl_pc s i)" "one_vote V"
  using assms by (auto simp: net_inv_def)

text \<open>A step that keeps the election state up to a later term adds no vote.\<close>

lemma quiet_step:
  assumes inv: "net_inv ids k V s" and fin: "finite ids" and i: "i \<in> ids" and n: "ns_node_id n = i" "em_inv k V i (ns_election n)"
    and ms: "\<And>m. m \<in> set ms \<Longrightarrow> msg_inv k V m"
  shows "net_inv ids (Suc k) V (set_node i n ms s)"
proof -
  have "net_inv ids (Suc k) (V \<union> {}) ((set_node i n ms s)\<lparr>cl_pc := (cl_pc s)(i := cl_pc s i), cl_won := cl_won s \<union> {}\<rparr>)"
    by (intro net_inv_step [OF inv fin i])
      (use n node_of_inv [OF inv i] pc_inv_mono [of k "cl_pc s i" "Suc k"] em_inv_mono [OF n(2)] msg_inv_mono [OF ms] in auto)
  then show ?thesis by (simp add: set_node_def)
qed

lemma server_step:
  assumes inv: "net_inv ids k V s" and fin: "finite ids" and i: "i \<in> ids" and m: "m \<in> cl_sent s"
    and d: "dispatch_message lib nonce now m (cl_nodes s i) = (r, n)"
  shows "\<exists>V'. net_inv ids (Suc k) V' (set_node i n (case r of Some a \<Rightarrow> [a] | None \<Rightarrow> []) s)"
proof -
  note node = node_of_inv [OF inv i]
  have mi: "msg_inv k V m" using inv m by (simp add: net_inv_def)
  show ?thesis
  proof (cases m)
    case (ElectionVote v)
    obtain g e where pv: "process_vote v (ns_election (cl_nodes s i)) = (g, e)" by fastforce
    let ?W = "if g then {(ev_term v, i, ev_candidate_id v)} else {}"
    show ?thesis
    proof (cases "ev_voter_id v")
      case None
      have t: "unat (ev_term v) \<le> k" using mi ElectionVote by simp
      note vote = process_vote_inv [OF node(2,4) t pv refl]
      have rn: "r = (if g then Some (ElectionVote (v\<lparr>ev_voter_id := Some i\<rparr>)) else None)" "n = (cl_nodes s i)\<lparr>ns_election := e\<rparr>"
        using d None pv node(1) by (auto simp: dispatch_message_def ElectionVote)
      have "net_inv ids (Suc k) (V \<union> ?W) ((set_node i n (case r of Some a \<Rightarrow> [a] | None \<Rightarrow> []) s)
          \<lparr>cl_pc := (cl_pc s)(i := cl_pc s i), cl_won := cl_won s \<union> {}\<rparr>)"
        by (intro net_inv_step [OF inv fin i])
          (use vote node t rn pc_inv_mono [OF node(3)] em_inv_mono in \<open>auto split: if_splits\<close>)
      then show ?thesis by (auto simp: set_node_def)
    qed (use d quiet_step [OF inv fin i node(1,2), of "[]"] ElectionVote in \<open>auto simp: dispatch_message_def\<close>)
  next
    case (ElectionResult x)
    then have "em_inv k V i (snd (process_result x (ns_election (cl_nodes s i))))"
      using process_result_inv [OF node(2)] mi by simp
    then show ?thesis using d quiet_step [OF inv fin i, of n "[]"] node ElectionResult
      by (auto simp: dispatch_message_def result_frame)
  next
    case (JoinRequest req)
    then show ?thesis using d quiet_step [OF inv fin i, of n "[JoinResponse (fst (on_join_request lib nonce now req (cl_nodes s i)))]"] node
      by (auto simp: dispatch_message_def case_prod_unfold handler_frames)
  qed (use d quiet_step [OF inv fin i, of n "[]"] node in \<open>auto simp: dispatch_message_def handler_frames\<close>)
qed

lemma client_step:
  assumes inv: "net_inv ids k V s" and fin: "finite ids" and i: "i \<in> ids" and m: "m \<in> cl_sent s"
  shows "net_inv ids (Suc k) V (set_node i (dispatch_incoming lib now m (cl_nodes s i)) [] s)"
proof (rule quiet_step [OF inv fin i])
  note node = node_of_inv [OF inv i]
  have mi: "msg_inv k V m" using inv m by (simp add: net_inv_def)
  show "ns_node_id (dispatch_incoming lib now m (cl_nodes s i)) = i"
    using node(1) by (cases m) (simp_all add: dispatch_incoming_def handler_frames result_frame split: option.split)
  show "em_inv k V i (ns_election (dispatch_incoming lib now m (cl_nodes s i)))"
  proof (cases m)
    case (ElectionVote v)
    show ?thesis
    proof (cases "ev_voter_id v")
      case (Some x)
      then have "ev_candidate_id v = i \<Longrightarrow> em_inv k V i (snd (record_vote_for_me (ev_term v) x (ns_election (cl_nodes s i))))"
        using mi ElectionVote by (intro record_vote_inv [OF node(2)]) auto
      then show ?thesis using node(1,2) Some by (simp add: dispatch_incoming_def ElectionVote)
    qed (simp add: dispatch_incoming_def ElectionVote node)
  next
    case (ElectionResult r)
    then show ?thesis using process_result_inv [OF node(2), of r] mi by (simp add: dispatch_incoming_def result_frame)
  qed (simp_all add: dispatch_incoming_def handler_frames node)
qed simp

text \<open>A turn of the election loop other than the one that votes leaves the election state alone.\<close>

lemma turn_frame:
  assumes "run_election_loop_turn plib now pc n = (pc', ms, n')" and "\<forall>c. pc \<noteq> LoopCandidate c" and "pc_inv k pc"
  shows "ns_node_id n' = ns_node_id n" "ns_election n' = ns_election n" "m \<in> set ms \<Longrightarrow> msg_inv k V m" "pc_inv k pc'"
  using assms by (cases pc; auto simp: promote_to_main_def demote_to_worker_def transition_to_def handler_frames Let_def split: if_splits; fail)+

lemma win_frame:
  assumes "run_election_loop_turn plib now pc n = (pc', ms, n')" and "(t, j, c) \<in> won_by i pc pc'"
  shows "j = i \<and> is_majority (vote_count_for_term (ns_election n) t) c \<and> (\<forall>c. pc \<noteq> LoopCandidate c)"
  using assms by (cases "(i, pc, pc')" rule: won_by.cases) (auto split: if_splits)

lemma turn_step:
  assumes inv: "net_inv ids k V s" and fin: "finite ids" and i: "i \<in> ids" and k: "Suc k < 2 ^ 64"
    and turn: "run_election_loop_turn plib now (cl_pc s i) (cl_nodes s i) = (pc, ms, n)"
  shows "\<exists>V'. net_inv ids (Suc k) V' ((set_node i n ms s)\<lparr>cl_pc := (cl_pc s)(i := pc), cl_won := cl_won s \<union> won_by i (cl_pc s i) pc\<rparr>)"
proof -
  note node = node_of_inv [OF inv i]
  let ?s = "(set_node i n ms s)\<lparr>cl_pc := (cl_pc s)(i := pc), cl_won := cl_won s \<union> won_by i (cl_pc s i) pc\<rparr>"
  have won: "is_majority (card {x. (t, x, j) \<in> V}) c" if w: "(t, j, c) \<in> won_by i (cl_pc s i) pc" for t j c
  proof -
    have j: "j = i" "is_majority (card (votes_in (ns_election (cl_nodes s i)) t)) c"
      using win_frame [OF turn w] by (simp_all add: vote_count_for_term_def)
    have "votes_in (ns_election (cl_nodes s i)) t \<subseteq> {x. (t, x, j) \<in> V}" using node(2) j(1) by (auto simp: em_inv_def)
    moreover have "finite {x. (t, x, j) \<in> V}" using inv fin by (intro voters_finite) (simp_all add: net_inv_def)
    ultimately show ?thesis by (rule majority_mono [OF j(2)])
  qed
  show ?thesis
  proof (cases "\<exists>c. cl_pc s i = LoopCandidate c")
    case True
    then obtain c where c: "cl_pc s i = LoopCandidate c" by blast
    obtain t e where inc: "increment_term_and_vote_for_self (ns_election (cl_nodes s i)) = (t, e)" by fastforce
    note new = increment_inv [OF node(2,4) k inc]
    have n: "pc = LoopVoted t c" "ms = []" "n = (cl_nodes s i)\<lparr>ns_election := e\<rparr>" using turn inc c by auto
    have "net_inv ids (Suc k) (V \<union> {(t, i, i)}) ?s"
      by (rule net_inv_step [OF inv fin i _ _ _ _ _ _ won]) (use new node in \<open>simp_all add: n\<close>)
    then show ?thesis by blast
  next
    case False
    then have plain: "\<forall>c. cl_pc s i \<noteq> LoopCandidate c" by simp
    note fr = turn_frame [OF turn plain node(3)]
    have "net_inv ids (Suc k) (V \<union> {}) ?s"
    proof (rule net_inv_step [OF inv fin i _ _ _ _ _ _ won])
      show "em_inv (Suc k) (V \<union> {}) i (ns_election n)" using em_inv_mono [OF node(2), of "Suc k"] fr(2) by simp
      show "msg_inv (Suc k) (V \<union> {}) m" if "m \<in> set ms" for m
        using msg_inv_mono [OF fr(3) [OF that, of V], of "Suc k" "V \<union> {}"] by simp
      show "pc_inv (Suc k) pc" using pc_inv_mono [OF fr(4), of "Suc k"] by simp
    qed (use fr(1) node in simp_all)
    then show ?thesis by blast
  qed
qed

lemma net_inv_init: "[] \<notin> ids \<Longrightarrow> net_inv ids 0 {} (cluster_init cfg)"
  by (auto simp: net_inv_def cluster_init_def one_vote_def em_inv_def node_new_def election_new_def Let_def votes_in_def map_simps)

lemma net_run_inv:
  assumes "net_run lib plib ids k s s'" and "finite ids" and "k < 2 ^ 64" and "net_inv ids 0 {} s"
  shows "\<exists>V. net_inv ids k V s'"
  using assms
proof (induction rule: net_run.induct)
  case (run_step k s s' s'')
  then obtain V where inv: "net_inv ids k V s'" by auto
  from run_step(2) show ?case
  proof cases
    case (turn i now pc ms n)
    then show ?thesis using turn_step [OF inv \<open>finite ids\<close>] run_step.prems by auto
  next
    case (server i m nonce now r n)
    then show ?thesis using server_step [OF inv \<open>finite ids\<close>] by auto
  next
    case (client i m now)
    then show ?thesis using client_step [OF inv \<open>finite ids\<close>] by blast
  next
    case (beat i start now sq m sq' n)
    then show ?thesis using quiet_step [OF inv \<open>finite ids\<close>, of i n "[m]"] node_of_inv [OF inv]
      by (auto simp: run_heartbeat_sender_tick_def Let_def handler_frames)
  next
    case (evict i now)
    then show ?thesis
      using quiet_step [OF inv \<open>finite ids\<close>, of i "run_peer_eviction_tick plib now (cl_nodes s' i)" "[]"] node_of_inv [OF inv, of i]
      by (auto simp: handler_frames)
  next
    case (join i req)
    then show ?thesis using quiet_step [OF inv \<open>finite ids\<close>, of i "cl_nodes s' i" "[JoinRequest req]"] node_of_inv [OF inv, of i] by auto
  next
    case (transport i chs)
    then show ?thesis using quiet_step [OF inv \<open>finite ids\<close>, of i "(cl_nodes s' i)\<lparr>ns_peer_channels := chs\<rparr>" "[]"] node_of_inv [OF inv, of i] by auto
  qed
qed auto

lemma winners_agree:
  assumes "net_inv ids k V s" and fin: "finite ids" and "(t, a, m) \<in> cl_won s" "(t, b, l) \<in> cl_won s"
    and "card ids \<le> m" "card ids \<le> l"
  shows "a = b"
proof -
  have V: "one_vote V" "\<And>t x c. (t, x, c) \<in> V \<Longrightarrow> x \<in> ids" using assms(1) by (auto simp: net_inv_def)
  have "is_majority (card {x. (t, x, a) \<in> V}) m" "is_majority (card {x. (t, x, b) \<in> V}) l"
    using assms(1,3,4) by (auto simp: net_inv_def)
  then have "{x. (t, x, a) \<in> V} \<inter> {x. (t, x, b) \<in> V} \<noteq> {}"
    using V(2) assms(5,6) by (intro cluster_maj.quorums_meet [OF fin, where k = m and l = l]) auto
  then show ?thesis using V(1) by (auto simp: one_vote_def)
qed


section \<open>Two winners\<close>

text \<open>
  A node that has just started, and what becomes of two such nodes that reach only each other: one
  hears the other's heartbeat, counts a cluster of two, and wins with both votes.
\<close>

definition fresh :: "string \<Rightarrow> ('j, 'b) node_state \<Rightarrow> bool" where
  "fresh i n \<longleftrightarrow> ns_node_id n = i \<and> ns_role n = Worker \<and> ns_peers n = [] \<and> em_node_id (ns_election n) = i
     \<and> em_term (ns_election n) = 0 \<and> em_voted_for (ns_election n) = None \<and> em_votes_for_me (ns_election n) = []"

definition apart :: "string set \<Rightarrow> ('j, 'b) cluster \<Rightarrow> ('j, 'b) cluster \<Rightarrow> bool" where
  "apart A s s' \<longleftrightarrow> (\<forall>i. i \<notin> A \<longrightarrow> cl_nodes s' i = cl_nodes s i \<and> cl_pc s' i = cl_pc s i) \<and> cl_won s \<subseteq> cl_won s'"

lemma apart_refl: "apart A s s"
  by (simp add: apart_def)

lemma apart_trans: "apart A s s' \<Longrightarrow> apart A s' s'' \<Longrightarrow> apart A s s''"
  by (auto simp: apart_def)

lemma turn_run:
  assumes "net_run lib plib ids k s s'" and "i \<in> ids" "i \<in> A" "apart A s s'"
    and "run_election_loop_turn plib now (cl_pc s' i) (cl_nodes s' i) = (pc, ms, n)"
  obtains s'' where "net_run lib plib ids (Suc k) s s''" "apart A s s''" "cl_nodes s'' = (cl_nodes s')(i := n)"
    "cl_pc s'' = (cl_pc s')(i := pc)" "cl_sent s'' = cl_sent s' \<union> set ms" "won_by i (cl_pc s' i) pc \<subseteq> cl_won s''"
  by (rule that [OF run_step [OF assms(1) turn [OF assms(2,5)]]])
    (use assms(3,4) in \<open>auto simp: set_node_def apart_def\<close>)

lemma node_run:
  assumes "net_run lib plib ids k s s'" and "i \<in> A" "apart A s s'" and "net_step lib plib ids s' (set_node i n ms s')"
  obtains s'' where "net_run lib plib ids (Suc k) s s''" "apart A s s''" "cl_nodes s'' = (cl_nodes s')(i := n)"
    "cl_pc s'' = cl_pc s'" "cl_sent s'' = cl_sent s' \<union> set ms" "cl_won s'' = cl_won s'"
  by (rule that [OF run_step [OF assms(1,4)]]) (use assms(2,3) in \<open>auto simp: set_node_def apart_def\<close>)

lemma hears_peer:
  assumes ids: "a \<in> ids" "b \<in> ids" "a \<noteq> b" and fr: "fresh a (cl_nodes s a)" "fresh b (cl_nodes s b)"
  obtains s' n p where "net_run lib plib ids 2 s s'" "apart {a, b} s s'" "cl_nodes s' a = n" "fresh a (n\<lparr>ns_peers := []\<rparr>)"
    "ns_peers n = [p]" "pi_role p = Worker" "fresh b (cl_nodes s' b)" "cl_pc s' = cl_pc s"
proof -
  obtain m n where bt: "run_heartbeat_sender_tick 0 0 0 (cl_nodes s b) = (Heartbeat m, 1, n)"
      "n = broadcast (Heartbeat m) (cl_nodes s b)" "hb_node_id m = b" "hb_role m = Worker"
    using fr(2) by (simp add: run_heartbeat_sender_tick_def Let_def heartbeat_of_def fresh_def)
  obtain s1 where s1: "net_run lib plib ids (Suc 0) s s1" "apart {a, b} s s1" "cl_nodes s1 = (cl_nodes s)(b := n)"
      "cl_pc s1 = cl_pc s" "cl_sent s1 = cl_sent s \<union> set [Heartbeat m]"
    by (rule node_run [where A = "{a, b}" and lib = lib and plib = plib, OF run_refl _ apart_refl beat [OF ids(2) bt(1)]]) auto
  have "dispatch_message lib nonce 0 (Heartbeat m) (cl_nodes s1 a) = (None, on_heartbeat 0 m (cl_nodes s a))" for nonce
    using ids(3) s1(3) by (simp add: dispatch_message_def)
  from server [OF ids(1) _ this] s1(5)
  have st: "net_step lib plib ids s1 (set_node a (on_heartbeat 0 m (cl_nodes s a)) [] s1)" by simp
  obtain s2 where s2: "net_run lib plib ids (Suc (Suc 0)) s s2" "apart {a, b} s s2"
      "cl_nodes s2 = (cl_nodes s1)(a := on_heartbeat 0 m (cl_nodes s a))" "cl_pc s2 = cl_pc s1"
    by (rule node_run [OF s1(1) _ s1(2) st]) auto
  show ?thesis
    by (rule that [of s2 _ "\<lparr>pi_node_id = b, pi_addr = no_addr, pi_role = Worker, pi_last_seen_ms = 0\<rparr>", OF _ s2(2) refl])
      (use s2 s1 bt fr ids in \<open>auto simp: numeral_2_eq_2 fresh_def on_heartbeat_def broadcast_def\<close>)
qed

text \<open>Six turns of the loop: from its top to the broadcast request for votes.\<close>

lemma stands:
  assumes run: "net_run lib plib ids k s s0" "apart A s s0" and a: "a \<in> ids" "a \<in> A" and pc: "cl_pc s0 a = LoopTop"
    and n: "fresh a ((cl_nodes s0 a)\<lparr>ns_peers := []\<rparr>)" "ns_peers (cl_nodes s0 a) = [p]" "pi_role p = Worker"
  obtains s' v e where "net_run lib plib ids (6 + k) s s'" "apart A s s'" "ns_node_id (cl_nodes s' a) = a"
    "ns_election (cl_nodes s' a) = e" "em_term e = 1" "votes_in e 1 = {a}" "ElectionVote v \<in> cl_sent s'" "cl_pc s' a = LoopVoting 1 2"
    "ev_term v = 1" "ev_candidate_id v = a" "ev_voter_id v = None" "\<And>i. i \<noteq> a \<Longrightarrow> cl_nodes s' i = cl_nodes s0 i"
proof -
  let ?n = "cl_nodes s0 a"
  have f: "ns_role ?n = Worker" "ns_node_id ?n = a" "em_node_id (ns_election ?n) = a" "em_term (ns_election ?n) = 0"
      "em_votes_for_me (ns_election ?n) = []" using n(1) by (simp_all add: fresh_def)
  obtain s1 where s1: "net_run lib plib ids (Suc k) s s1" "apart A s s1" "cl_nodes s1 = (cl_nodes s0)(a := ?n)" "cl_pc s1 = (cl_pc s0)(a := LoopWait)"
    by (rule turn_run [OF run(1) a run(2), of 0 LoopWait "[]" ?n]) (use pc f in auto)
  obtain s2 where s2: "net_run lib plib ids (Suc (Suc k)) s s2" "apart A s s2" "cl_nodes s2 = (cl_nodes s0)(a := ?n)" "cl_pc s2 = (cl_pc s0)(a := LoopDead)"
    by (rule turn_run [OF s1(1) a s1(2), of 0 LoopDead "[]" ?n]) (use s1 n in \<open>auto simp: check_main_is_dead_def\<close>)
  obtain s3 where s3: "net_run lib plib ids (Suc (Suc (Suc k))) s s3" "apart A s s3" "cl_nodes s3 = (cl_nodes s0)(a := ?n)" "cl_pc s3 = (cl_pc s0)(a := LoopCounted 2)"
    by (rule turn_run [OF s2(1) a s2(2), of 0 "LoopCounted 2" "[]" ?n]) (use s2 n in \<open>auto simp: total_nodes_def\<close>)
  obtain s4 where s4: "net_run lib plib ids (Suc (Suc (Suc (Suc k)))) s s4" "apart A s s4"
      "cl_nodes s4 = (cl_nodes s0)(a := transition_to Candidate ?n)" "cl_pc s4 = (cl_pc s0)(a := LoopCandidate 2)"
    by (rule turn_run [OF s3(1) a s3(2), of 0 "LoopCandidate 2" "[]" "transition_to Candidate ?n"]) (use s3 in auto)
  obtain t e where inc: "increment_term_and_vote_for_self (ns_election ?n) = (t, e)" by fastforce
  have e: "t = 1" "em_term e = 1" "votes_in e 1 = {a}"
    using inc f by (auto simp: increment_term_and_vote_for_self_def Let_def votes_in_def map_simps am_retain_def)
  let ?n5 = "(transition_to Candidate ?n)\<lparr>ns_election := e\<rparr>"
  obtain s5 where s5: "net_run lib plib ids (Suc (Suc (Suc (Suc (Suc k))))) s s5" "apart A s s5"
      "cl_nodes s5 = (cl_nodes s0)(a := ?n5)" "cl_pc s5 = (cl_pc s0)(a := LoopVoted 1 2)"
    by (rule turn_run [OF s4(1) a s4(2), of 0 "LoopVoted 1 2" "[]" ?n5]) (use s4 inc e in \<open>auto simp: transition_to_def\<close>)
  let ?v = "\<lparr>ev_term = 1, ev_candidate_id = a, ev_last_log_index = ns_rules_version ?n, ev_voter_id = None\<rparr>"
  obtain s6 where s6: "net_run lib plib ids (Suc (Suc (Suc (Suc (Suc (Suc k)))))) s s6" "apart A s s6"
      "cl_nodes s6 = (cl_nodes s0)(a := broadcast (ElectionVote ?v) ?n5)" "cl_pc s6 = (cl_pc s0)(a := LoopVoting 1 2)"
      "cl_sent s6 = cl_sent s5 \<union> {ElectionVote ?v}"
    by (rule turn_run [OF s5(1) a s5(2), of 0 "LoopVoting 1 2" "[ElectionVote ?v]" "broadcast (ElectionVote ?v) ?n5"])
      (use s5 f in \<open>auto simp: transition_to_def Let_def\<close>)
  show ?thesis
    by (rule that [of s6 e ?v]) (use s6 e f in \<open>auto simp: numeral_eq_Suc broadcast_def transition_to_def\<close>)
qed

text \<open>The peer grants, the grant arrives, and the majority of two is reached.\<close>

lemma wins:
  assumes run: "net_run lib plib ids k s s0" "apart A s s0" and ab: "a \<in> ids" "a \<in> A" "b \<in> ids" "b \<in> A" "a \<noteq> b"
    and pc: "cl_pc s0 a = LoopVoting 1 2" and n: "ns_node_id (cl_nodes s0 a) = a" "em_term (ns_election (cl_nodes s0 a)) = 1"
      "votes_in (ns_election (cl_nodes s0 a)) 1 = {a}" and b: "fresh b (cl_nodes s0 b)"
    and v: "ElectionVote v \<in> cl_sent s0" "ev_term v = 1" "ev_candidate_id v = a" "ev_voter_id v = None"
  shows "\<exists>s'. net_run lib plib ids (3 + k) s s' \<and> apart A s s' \<and> (1, a, 2) \<in> cl_won s'"
proof -
  let ?echo = "ElectionVote (v\<lparr>ev_voter_id := Some b\<rparr>)"
  obtain eb where "process_vote v (ns_election (cl_nodes s0 b)) = (True, eb)"
    using b v by (auto simp: process_vote_def fresh_def Let_def)
  then have "dispatch_message lib nonce 0 (ElectionVote v) (cl_nodes s0 b) = (Some ?echo, (cl_nodes s0 b)\<lparr>ns_election := eb\<rparr>)" for nonce
    using b v by (simp add: dispatch_message_def fresh_def)
  from server [OF ab(3) v(1) this]
  have st: "net_step lib plib ids s0 (set_node b ((cl_nodes s0 b)\<lparr>ns_election := eb\<rparr>) [?echo] s0)" by simp
  obtain s1 where s1: "net_run lib plib ids (Suc k) s s1" "apart A s s1" "cl_nodes s1 a = cl_nodes s0 a"
      "cl_pc s1 = cl_pc s0" "?echo \<in> cl_sent s1"
    by (rule node_run [OF run(1) ab(4) run(2) st]) (use ab(5) in auto)
  let ?n = "dispatch_incoming lib 0 ?echo (cl_nodes s0 a)"
  have "net_step lib plib ids s1 (set_node a ?n [] s1)" using client [OF ab(1) s1(5), of _ _ 0] s1(3) by metis
  then obtain s2 where s2: "net_run lib plib ids (Suc (Suc k)) s s2" "apart A s s2" "cl_nodes s2 a = ?n" "cl_pc s2 = cl_pc s1"
    by (rule node_run [OF s1(1) ab(2) s1(2)]) auto
  have "votes_in (ns_election ?n) 1 = {a, b}"
    using n v by (auto simp: dispatch_incoming_def record_vote_for_me_def votes_in_put)
  then have maj: "is_majority (vote_count_for_term (ns_election ?n) 1) 2"
    using ab(5) by (simp add: vote_count_for_term_def is_majority_def)
  obtain s3 where "net_run lib plib ids (Suc (Suc (Suc k))) s s3" "apart A s s3" "won_by a (LoopVoting 1 2) (LoopWon 1) \<subseteq> cl_won s3"
    by (rule turn_run [OF s2(1) ab(1,2) s2(2), of 0 "LoopWon 1" "[]" ?n]) (use s2 s1 pc maj in auto)
  then show ?thesis by (auto simp: numeral_eq_Suc)
qed

lemma net_run_trans: "net_run lib plib ids l s' s'' \<Longrightarrow> net_run lib plib ids k s s' \<Longrightarrow> net_run lib plib ids (l + k) s s''"
  by (induction rule: net_run.induct) (simp, simp add: run_step)

lemma pair_elects:
  assumes ab: "a \<in> ids" "b \<in> ids" "a \<noteq> b" and fr: "fresh a (cl_nodes s a)" "fresh b (cl_nodes s b)" and pc: "cl_pc s a = LoopTop"
  shows "\<exists>s'. net_run lib plib ids 11 s s' \<and> apart {a, b} s s' \<and> (1, a, 2) \<in> cl_won s'"
proof -
  obtain s0 n p where s0: "net_run lib plib ids 2 s s0" "apart {a, b} s s0" "cl_nodes s0 a = n" "fresh a (n\<lparr>ns_peers := []\<rparr>)"
      "ns_peers n = [p]" "pi_role p = Worker" "fresh b (cl_nodes s0 b)" "cl_pc s0 = cl_pc s"
    by (rule hears_peer [OF ab fr])
  obtain s1 v e where s1: "net_run lib plib ids (6 + 2) s s1" "apart {a, b} s s1" "ns_node_id (cl_nodes s1 a) = a"
    "ns_election (cl_nodes s1 a) = e" "em_term e = 1" "votes_in e 1 = {a}" "ElectionVote v \<in> cl_sent s1" "cl_pc s1 a = LoopVoting 1 2"
    "ev_term v = 1" "ev_candidate_id v = a" "ev_voter_id v = None" "cl_nodes s1 b = cl_nodes s0 b"
    by (rule stands [OF s0(1,2) ab(1), of p]) (use s0 pc ab in auto)
  have "\<exists>s'. net_run lib plib ids (3 + (6 + 2)) s s' \<and> apart {a, b} s s' \<and> (1, a, 2) \<in> cl_won s'"
    by (rule wins [OF s1(1,2) ab(1) _ ab(2) _ ab(3) s1(8,3)]) (use s1 s0(7) in simp_all)
  then show ?thesis by simp
qed

lemma init_fresh: "i \<noteq> [] \<Longrightarrow> cc_role (cfg i) \<noteq> ''main'' \<Longrightarrow> fresh i (cl_nodes (cluster_init cfg) i)"
  by (simp add: fresh_def cluster_init_def node_new_def election_new_def Let_def)


definition sample_node_lib :: "unit node_lib" where
  "sample_node_lib = \<lparr>nl_cipher = \<lparr>new_cipher = (\<lambda>_. ()), aes_encrypt = (\<lambda>_ _. Some), aes_decrypt = (\<lambda>_ _. Some)\<rparr>,
     nl_as_bytes = map (of_nat \<circ> byte), nl_b64_encode = map (char_of \<circ> unat), nl_b64_decode = (\<lambda>s. Some (map (of_nat \<circ> byte) s)),
     nl_pkg_version = ''0.2.0''\<rparr>"

definition sample_phi_lib :: phi_lib where
  "sample_phi_lib = \<lparr>f64_exp = (\<lambda>x. 1 / (1 - x)), f64_log10 = (\<lambda>x. 1 - 1 / x)\<rparr>"

definition sample_cluster_config :: "string \<Rightarrow> cluster_config" where
  "sample_cluster_config i =
     \<lparr>cc_enabled = True, cc_node_id = i, cc_role = ''auto'', cc_listen_addr = ''0.0.0.0:16851'', cc_seeds = [],
      cc_ca_passphrase = [], cc_timeout_min_ms = 150, cc_timeout_max_ms = 300, cc_heartbeat_interval_ms = 50,
      cc_phi_suspect = 8, cc_phi_dead = 12\<rparr>"



end
