(* ===== verification/ElectionRace.thy ===== *)
theory ElectionRace
  imports ClusterNode
begin

text \<open>
  The locks of the election state (waf-cluster/src/election/mod.rs).  The term, the vote and the
  counted votes are three locks, each held for one access, and the handlers of different streams and
  the election loop run on different threads.  Here the two operations that vote are cut at their
  locks.  Run alone they are the operations of the node; interleaved they can vote twice in one
  term, and set the term back.
\<close>

datatype em_thread =
    IncTerm
  | IncVote u64
  | IncCount u64
  | IncDone u64
  | PvRead election_vote
  | PvTerm election_vote
  | PvClear election_vote
  | PvDecide election_vote
  | PvDone election_vote bool

fun em_access :: "em_thread \<Rightarrow> election_manager \<Rightarrow> em_thread \<times> election_manager" where
  "em_access IncTerm e = (IncVote (em_term e + 1), e\<lparr>em_term := em_term e + 1\<rparr>)"
| "em_access (IncVote t) e = (IncCount t, e\<lparr>em_voted_for := Some (em_node_id e)\<rparr>)"
| "em_access (IncCount t) e =
     (let e = e\<lparr>em_votes_for_me := am_retain (\<lambda>u _. t \<le> u) (em_votes_for_me e)\<rparr>
      in (IncDone t, e\<lparr>em_votes_for_me := am_put t (insert (em_node_id e) (votes_in e t)) (em_votes_for_me e)\<rparr>))"
| "em_access (IncDone t) e = (IncDone t, e)"
| "em_access (PvRead v) e =
     (if ev_term v < em_term e then PvDone v False else if em_term e < ev_term v then PvTerm v else PvDecide v, e)"
| "em_access (PvTerm v) e = (PvClear v, e\<lparr>em_term := ev_term v\<rparr>)"
| "em_access (PvClear v) e = (PvDecide v, e\<lparr>em_voted_for := None\<rparr>)"
| "em_access (PvDecide v) e =
     (if em_voted_for e = None \<or> em_voted_for e = Some (ev_candidate_id v)
      then (PvDone v True, e\<lparr>em_voted_for := Some (ev_candidate_id v)\<rparr>)
      else (PvDone v False, e))"
| "em_access (PvDone v b) e = (PvDone v b, e)"

fun run_alone :: "nat \<Rightarrow> em_thread \<times> election_manager \<Rightarrow> em_thread \<times> election_manager" where
  "run_alone 0 s = s"
| "run_alone (Suc n) (th, e) = run_alone n (em_access th e)"

text \<open>Two threads on one election state; the schedule says which makes the next access.\<close>

fun interleave :: "bool list \<Rightarrow> em_thread \<times> em_thread \<times> election_manager \<Rightarrow> em_thread \<times> em_thread \<times> election_manager" where
  "interleave [] s = s"
| "interleave (b # bs) (p, q, e) =
     (if b then (case em_access p e of (p, e) \<Rightarrow> interleave bs (p, q, e))
      else (case em_access q e of (q, e) \<Rightarrow> interleave bs (p, q, e)))"

text \<open>Undisturbed, the accesses are the operations.\<close>

lemma increment_alone:
  "run_alone 3 (IncTerm, e) = (case increment_term_and_vote_for_self e of (t, e') \<Rightarrow> (IncDone t, e'))"
  by (simp add: numeral_3_eq_3 increment_term_and_vote_for_self_def Let_def)

lemma process_vote_alone:
  "run_alone 4 (PvRead v, e) = (case process_vote v e of (b, e') \<Rightarrow> (PvDone v b, e'))"
  by (auto simp: numeral_eq_Suc process_vote_def Let_def)

text \<open>A request read before a newer one was handled sets the term back.\<close>

lemma term_set_back:
  assumes "em_term e < ev_term v" and "ev_term v < ev_term w"
  shows "em_term (snd (snd (interleave [True, False, False, False, False] (PvRead v, PvRead w, e)))) = ev_term w"
    and "em_term (snd (snd (interleave [True, False, False, False, False, True] (PvRead v, PvRead w, e)))) = ev_term v"
  using assms by auto

text \<open>C32. One vote in a term is not guarded against concurrency: for every state and every request for
  the next term there is a schedule in which the node counts its own vote for that term and also
  grants the request, although each operation alone votes once.\<close>

theorem vote_race:
  assumes "ev_term v = em_term e + 1" and "em_term e < ev_term v"
  shows "\<exists>sched e'. interleave sched (PvRead v, IncTerm, e) = (PvDone v True, IncDone (ev_term v), e')
      \<and> em_node_id e \<in> votes_in e' (ev_term v)"
proof (intro exI conjI)
  let ?r = "interleave [True, False, False, False, True, True, True] (PvRead v, IncTerm, e)"
  show "?r = (PvDone v True, IncDone (ev_term v), snd (snd ?r))"
    using assms by (simp add: Let_def)
  show "em_node_id e \<in> votes_in (snd (snd ?r)) (ev_term v)"
    using assms by (simp add: Let_def votes_in_def map_simps)
qed

lemma vote_race_witness:
  "\<exists>sched e'. interleave sched
       (PvRead \<lparr>ev_term = 6, ev_candidate_id = ''B'', ev_last_log_index = 0, ev_voter_id = None\<rparr>, IncTerm, (election_new ''A'' 150 300)\<lparr>em_term := 5\<rparr>)
       = (PvDone \<lparr>ev_term = 6, ev_candidate_id = ''B'', ev_last_log_index = 0, ev_voter_id = None\<rparr> True, IncDone 6, e')
     \<and> ''A'' \<in> votes_in e' 6"
  using vote_race [of "\<lparr>ev_term = 6, ev_candidate_id = ''B'', ev_last_log_index = 0, ev_voter_id = None\<rparr>" "(election_new ''A'' 150 300)\<lparr>em_term := 5\<rparr>"]
  by (simp add: election_new_def)

end
