(* ===== verification/Spec2Isabelle.thy ===== *)
theory Spec2Isabelle
  imports Access Pipeline ClusterNet ElectionRace
begin

text \<open>
  Verification of the decision core of PRX-WAF.
\<close>

end
